(* ===== verification/Coppice_Prelude.thy ===== *)
theory Coppice_Prelude
  imports Main "HOL-Library.Word" "HOL-Library.Finite_Map" "HOL-Library.List_Lexorder"
    "HOL-Library.Char_ord" "HOL-Library.Product_Lexorder"
begin

text \<open>
  Shared vocabulary of the development: machine integers and the saturating operations of
  Rust's unsigned types, the typed identifiers of \<open>coppice-core/src/id.rs\<close>, and ordered
  maps. A \<open>BTreeMap\<close> or \<open>imbl::OrdMap\<close> of the source is a finite map
  (\<^typ>\<open>('k, 'v) fmap\<close>, equal when the lookups are); iterating it is walking
  \<open>sorted_list_of_fmap\<close>, the entries in ascending key order. A \<open>BTreeSet\<close> is an
  \<^typ>\<open>'a fset\<close>.

  The collection \<open>u64_nat\<close> moves goals about words to the natural numbers they denote,
  where linear arithmetic decides them; \<open>om_eval\<close> evaluates ordered maps.
\<close>

named_theorems u64_nat \<open>words read as natural numbers\<close>
named_theorems om_eval \<open>evaluation of ordered maps\<close>

section \<open>Machine integers\<close>

type_synonym u32 = "32 word"
type_synonym u64 = "64 word"

definition sat_add :: "'a::len word \<Rightarrow> 'a word \<Rightarrow> 'a word" where
  "sat_add x y = (if unat x + unat y < 2 ^ LENGTH('a) then x + y else - 1)"

definition sat_sub :: "'a::len word \<Rightarrow> 'a word \<Rightarrow> 'a word" where
  "sat_sub x y = (if y \<le> x then x - y else 0)"

definition sat_word :: "nat \<Rightarrow> 'a::len word" where
  "sat_word n = (if n < 2 ^ LENGTH('a) then word_of_nat n else - 1)"

lemma unat_lt2p: "unat (x :: 'a::len word) < 2 ^ LENGTH('a)"
  by simp

lemma unat_minus_one_full: "unat (- 1 :: 'a::len word) = 2 ^ LENGTH('a) - 1"
  by (simp add: unsigned_minus_1_eq_mask mask_eq_exp_minus_1)

lemma word_room: "\<exists>m. (2 :: nat) ^ LENGTH('a::len) = Suc m \<and> (\<forall>x :: 'a word. unat x \<le> m)"
proof -
  obtain m where m: "(2 :: nat) ^ LENGTH('a) = Suc m"
    by (metis gr0_implies_Suc zero_less_numeral zero_less_power)
  then have "unat (x :: 'a word) \<le> m" for x
    using unat_lt2p [of x] by simp
  with m show ?thesis by blast
qed

lemma unat_sat_add [u64_nat]:
  "unat (sat_add x y :: 'a::len word) = min (unat x + unat y) (2 ^ LENGTH('a) - 1)"
  by (auto simp: sat_add_def unat_minus_one_full unat_word_ariths min_def)

lemma unat_sat_sub [u64_nat]: "unat (sat_sub x y) = unat x - unat y"
  by (auto simp: sat_sub_def unat_sub word_le_nat_alt)

lemma unat_sat_word [u64_nat]:
  "unat (sat_word n :: 'a::len word) = min n (2 ^ LENGTH('a) - 1)"
  by (auto simp: sat_word_def unat_minus_one_full unat_of_nat min_def)

lemma unat_min [u64_nat]: "unat (min x y) = min (unat x) (unat y)"
  by (simp add: min_def word_le_nat_alt)

lemma unat_max [u64_nat]: "unat (max x y) = max (unat x) (unat y)"
  by (simp add: max_def word_le_nat_alt)

lemmas word_cmp_nat [u64_nat] = word_le_nat_alt word_less_nat_alt

lemma word_nat_eqI: "unat x = unat y \<Longrightarrow> x = y"
  by (simp add: word_unat_eq_iff)

lemma unat_u64_le: "unat (x :: u64) \<le> 18446744073709551615"
  using unat_lt2p [of x] by simp

lemma unat_u64_less: "unat (x :: u64) < 18446744073709551616"
  using unat_lt2p [of x] by simp

lemma unat_word_of_nat_id: "n < 2 ^ LENGTH('a) \<Longrightarrow> unat (word_of_nat n :: 'a::len word) = n"
  by (simp only: unat_of_nat mod_less)

lemma div_add_le: "(a :: nat) div c + b div c \<le> (a + b) div c"
  by (simp add: div_add1_eq [of a b c])

lemma div_add_ge: "(a + b + k * c) div c \<le> a div c + b div c + k + 1" for c :: nat
proof (cases "c = 0")
  case False
  then have "a mod c < c" "b mod c < c" by simp_all
  then have "a mod c + b mod c < 2 * c" by linarith
  then have "(a mod c + b mod c) div c < 2" using False by (simp add: less_mult_imp_div_less)
  moreover have "(a + b + k * c) div c = (a + b) div c + k" using False by simp
  ultimately show ?thesis by (simp add: div_add1_eq [of a b c])
qed simp

lemma sat_add_commute: "sat_add x y = sat_add y x"
  by (rule word_nat_eqI) (simp add: u64_nat add.commute)

lemma sat_add_assoc: "sat_add (sat_add x y) z = sat_add x (sat_add y (z :: 'a::len word))"
proof -
  obtain m where "(2 :: nat) ^ LENGTH('a) = Suc m" "\<And>x :: 'a word. unat x \<le> m"
    using word_room [where 'a = 'a] by blast
  then show ?thesis by (intro word_nat_eqI) (simp add: u64_nat min_def)
qed

lemma sat_add_0 [simp]: "sat_add x 0 = x" "sat_add 0 x = (x :: 'a::len word)"
  using unat_lt2p [of x] by (simp_all add: sat_add_def)

lemma sat_sub_0 [simp]: "sat_sub x 0 = x" "sat_sub 0 x = 0" "sat_sub x x = 0"
  by (simp_all add: sat_sub_def)

lemma sat_sub_sat_add:
  "unat x + unat y < 2 ^ LENGTH('a) \<Longrightarrow> sat_sub (sat_add x y) y = (x :: 'a::len word)"
  by (intro word_nat_eqI) (simp add: sat_add_def u64_nat unat_word_ariths)

section \<open>Typed identifiers\<close>

text \<open>
  The \<open>typed_id!\<close> macro makes one newtype over \<open>Uuid\<close> per entity, so that one entity's id
  can never stand for another's, and derives the order of the uuid (its 128 bits, most
  significant first). The macro's instances are one phantom type over the entity's tag.
\<close>

type_synonym uuid = "128 word"

datatype 'tag tid = Tid (tid_uuid: uuid)

datatype job_tag = JobTag
datatype node_tag = NodeTag
datatype allocation_tag = AllocationTag
datatype attempt_tag = AttemptTag
datatype group_tag = GroupTag
datatype quota_tag = QuotaTag
datatype machine_tag = MachineTag
datatype token_tag = TokenTag

type_synonym job_id = "job_tag tid"
type_synonym node_id = "node_tag tid"
type_synonym allocation_id = "allocation_tag tid"
type_synonym attempt_id = "attempt_tag tid"
type_synonym group_id = "group_tag tid"
type_synonym quota_entity_id = "quota_tag tid"
type_synonym machine_id = "machine_tag tid"
type_synonym enroll_token_id = "token_tag tid"

instantiation tid :: (type) linorder
begin

definition less_eq_tid :: "'a tid \<Rightarrow> 'a tid \<Rightarrow> bool" where
  "less_eq_tid a b \<longleftrightarrow> tid_uuid a \<le> tid_uuid b"

definition less_tid :: "'a tid \<Rightarrow> 'a tid \<Rightarrow> bool" where
  "less_tid a b \<longleftrightarrow> tid_uuid a < tid_uuid b"

instance
  by standard (auto simp: less_eq_tid_def less_tid_def tid.expand)

end

lemma less_tid_Tid [om_eval]: "Tid a < Tid b \<longleftrightarrow> a < b" "Tid a \<le> Tid b \<longleftrightarrow> a \<le> b"
  by (simp_all add: less_tid_def less_eq_tid_def)

section \<open>Ordered maps\<close>

abbreviation entries :: "('k::linorder, 'v) fmap \<Rightarrow> ('k \<times> 'v) list" where
  "entries \<equiv> sorted_list_of_fmap"

abbreviation vals :: "('k::linorder, 'v) fmap \<Rightarrow> 'v list" where
  "vals m \<equiv> map snd (entries m)"

abbreviation has_key :: "'k \<Rightarrow> ('k, 'v) fmap \<Rightarrow> bool" where
  "has_key k m \<equiv> fmlookup m k \<noteq> None"

text \<open>\<open>get_mut\<close> followed by a write: the entry is rewritten when it is there.\<close>

definition fmmodify :: "'k \<Rightarrow> ('v \<Rightarrow> 'v) \<Rightarrow> ('k, 'v) fmap \<Rightarrow> ('k, 'v) fmap" where
  "fmmodify k f m = (case fmlookup m k of None \<Rightarrow> m | Some v \<Rightarrow> fmupd k (f v) m)"

lemma fmlookup_modify [simp]:
  "fmlookup (fmmodify k f m) k' = (if k' = k then map_option f (fmlookup m k) else fmlookup m k')"
  by (auto simp: fmmodify_def split: option.split)

lemma fmdom_modify [simp]: "fmdom (fmmodify k f m) = fmdom m"
  by (auto simp: fmmodify_def split: option.split intro: fmdomI)

text \<open>\<open>entry(k).or_insert(v)\<close>.\<close>

definition fm_or_insert :: "'k \<Rightarrow> 'v \<Rightarrow> ('k, 'v) fmap \<Rightarrow> ('k, 'v) fmap" where
  "fm_or_insert k v m = (case fmlookup m k of None \<Rightarrow> fmupd k v m | Some _ \<Rightarrow> m)"

lemma fmlookup_or_insert [simp]:
  "fmlookup (fm_or_insert k v m) k' =
     (if k' = k then Some (case fmlookup m k of None \<Rightarrow> v | Some w \<Rightarrow> w) else fmlookup m k')"
  by (auto simp: fm_or_insert_def split: option.split)

lemma strict_entries: "sorted_wrt (<) (map fst (entries m))"
  by (simp add: sorted_list_of_fmap_def sorted_list_of_fset.rep_eq comp_def)

lemma distinct_entries: "distinct (map fst (entries m))"
  using strict_entries [of m] by (simp add: strict_sorted_iff)

lemma set_entries: "(k, v) \<in> set (entries m) \<longleftrightarrow> fmlookup m k = Some v"
  by (metis distinct_entries map_of_eq_Some_iff map_of_sorted_list)

lemma set_vals: "v \<in> set (vals m) \<longleftrightarrow> (\<exists>k. fmlookup m k = Some v)"
  by (auto simp: image_iff set_entries Bex_def)

lemma fst_set_entries: "fst ` set (entries m) = fset (fmdom m)"
  by (auto simp: set_entries image_iff Bex_def fmlookup_dom_iff)

lemma length_entries: "length (entries m) = fcard (fmdom m)"
proof -
  have "length (entries m) = card (set (map fst (entries m)))"
    by (metis distinct_card distinct_entries length_map)
  then show ?thesis by (simp add: fst_set_entries fcard.rep_eq)
qed

fun upd_sorted :: "'k::linorder \<Rightarrow> 'v \<Rightarrow> ('k \<times> 'v) list \<Rightarrow> ('k \<times> 'v) list" where
  "upd_sorted k v [] = [(k, v)]"
| "upd_sorted k v ((a, b) # xs) =
     (if k < a then (k, v) # (a, b) # xs
      else if k = a then (k, v) # xs
      else (a, b) # upd_sorted k v xs)"

lemma fst_upd_sorted: "fst ` set (upd_sorted k v xs) = insert k (fst ` set xs)"
  by (induction k v xs rule: upd_sorted.induct) auto

lemma strict_upd_sorted:
  "sorted_wrt (<) (map fst xs) \<Longrightarrow> sorted_wrt (<) (map fst (upd_sorted k v xs))"
proof (induction xs)
  case (Cons x xs)
  then show ?case using fst_upd_sorted [of k v xs] by (cases x) auto
qed simp

lemma map_of_upd_sorted:
  "sorted_wrt (<) (map fst xs) \<Longrightarrow> map_of (upd_sorted k v xs) = (map_of xs)(k \<mapsto> v)"
proof (induction xs)
  case (Cons x xs)
  then show ?case
    by (cases x) (auto simp: fun_eq_iff map_of_eq_None_iff split: if_splits)
qed auto

lemma strict_alist_eqI:
  fixes xs ys :: "('k::linorder \<times> 'v) list"
  assumes "sorted_wrt (<) (map fst xs)" "sorted_wrt (<) (map fst ys)" "map_of xs = map_of ys"
  shows "xs = ys"
proof -
  have d: "distinct (map fst xs)" "distinct (map fst ys)" "sorted (map fst xs)" "sorted (map fst ys)"
    using assms by (simp_all add: strict_sorted_iff)
  have s: "set xs = set ys"
    using d assms(3) by (intro map_of_inject_set [THEN iffD1]) auto
  have "inj_on fst (set xs \<union> set ys)"
    using d s by (simp add: distinct_map)
  then show ?thesis
    using d s by (intro map_sorted_distinct_set_unique [of fst]) auto
qed

lemma entries_fmupd [om_eval]: "entries (fmupd k v m) = upd_sorted k v (entries m)"
  by (rule strict_alist_eqI) (auto simp: strict_entries strict_upd_sorted map_of_upd_sorted)

lemma entries_fmempty [simp]: "entries fmempty = []"
  by (simp add: sorted_list_of_fmap_def sorted_list_of_fset.rep_eq)

lemma map_of_filter_keys: "map_of (filter (\<lambda>(k, v). P k) xs) = (\<lambda>k. if P k then map_of xs k else None)"
  by (induction xs) (auto simp: fun_eq_iff)

lemma entries_fmdrop [om_eval]:
  "entries (fmdrop k m) = filter (\<lambda>(k', v). k' \<noteq> k) (entries m)"
proof (rule strict_alist_eqI)
  show "sorted_wrt (<) (map fst (filter (\<lambda>(k', v). k' \<noteq> k) (entries m)))"
    using strict_entries [of m]
    by (metis (no_types, lifting) sorted_wrt_filter sorted_wrt_map)
  show "map_of (entries (fmdrop k m)) = map_of (filter (\<lambda>(k', v). k' \<noteq> k) (entries m))"
    by (auto simp: map_of_filter_keys fun_eq_iff)
qed (rule strict_entries)

lemma entries_fmmodify [om_eval]:
  "entries (fmmodify k f m) =
     (case fmlookup m k of None \<Rightarrow> entries m | Some v \<Rightarrow> upd_sorted k (f v) (entries m))"
  by (auto simp: fmmodify_def entries_fmupd split: option.split)

lemma sum_list_entries:
  "sum_list (map (\<lambda>(k, v). f k v) (entries m)) = (\<Sum>k \<in> fset (fmdom m). f k (the (fmlookup m k)))"
  for f :: "_ \<Rightarrow> _ \<Rightarrow> nat"
proof -
  have "sum_list (map (\<lambda>(k, v). f k v) (entries m)) =
      sum_list (map (\<lambda>k. f k (the (fmlookup m k))) (map fst (entries m)))"
    by (auto simp: set_entries intro!: arg_cong [where f = sum_list])
  also have "\<dots> = (\<Sum>k \<in> set (map fst (entries m)). f k (the (fmlookup m k)))"
    by (rule sum_list_distinct_conv_sum_set [OF distinct_entries])
  finally show ?thesis by (simp add: fst_set_entries)
qed

text \<open>The sum of a quantity over the entries of a map, and how one update moves it.\<close>

definition fm_sum :: "('v \<Rightarrow> nat) \<Rightarrow> ('k, 'v) fmap \<Rightarrow> nat" where
  "fm_sum f m = (\<Sum>k \<in> fset (fmdom m). f (the (fmlookup m k)))"

lemma fm_sum_empty [simp]: "fm_sum f fmempty = 0"
  by (simp add: fm_sum_def)

lemma fm_sum_drop:
  assumes "fmlookup m k = Some v"
  shows "fm_sum f m = f v + fm_sum f (fmdrop k m)"
proof -
  have "(\<Sum>x \<in> fset (fmdom (fmdrop k m)). f (the (fmlookup (fmdrop k m) x))) =
      (\<Sum>x \<in> fset (fmdom m) - {k}. f (the (fmlookup m x)))"
    by (rule sum.cong) auto
  moreover have "fm_sum f m = f v + (\<Sum>x \<in> fset (fmdom m) - {k}. f (the (fmlookup m x)))"
    unfolding fm_sum_def using assms by (subst sum.remove [of _ k]) (auto intro: fmdomI)
  ultimately show ?thesis by (simp add: fm_sum_def)
qed

lemma fm_sum_drop_None: "fmlookup m k = None \<Longrightarrow> fmdrop k m = m"
  by (rule fmap_ext) auto

lemma fm_sum_upd: "fm_sum f (fmupd k v m) = f v + fm_sum f (fmdrop k m)"
proof -
  have "fmdrop k (fmupd k v m) = fmdrop k m" by (rule fmap_ext) auto
  then show ?thesis using fm_sum_drop [of "fmupd k v m" k v f] by simp
qed

lemma fm_sum_upd_old: "fmlookup m k = Some w \<Longrightarrow> fm_sum f (fmupd k v m) + f w = fm_sum f m + f v"
  by (simp add: fm_sum_upd fm_sum_drop [of m k w])

lemma fm_sum_upd_new: "fmlookup m k = None \<Longrightarrow> fm_sum f (fmupd k v m) = f v + fm_sum f m"
  by (simp add: fm_sum_upd fm_sum_drop_None)

lemma fm_sum_same: "fmlookup m k = Some w \<Longrightarrow> f v = f w \<Longrightarrow> fm_sum f (fmupd k v m) = fm_sum f m"
  using fm_sum_upd_old [of m k w f v] by simp

lemma fm_sum_vals: "fm_sum f m = sum_list (map f (vals m))"
  using sum_list_entries [of "\<lambda>_. f" m] by (simp add: fm_sum_def comp_def case_prod_unfold)

text \<open>Folding a commutative update over a list of words with saturation is the saturated sum.\<close>

lemma unat_fold_sat_add:
  "unat (fold (\<lambda>x acc. sat_add acc (f x)) xs (a :: 'w::len word)) =
     min (unat a + sum_list (map (\<lambda>x. unat (f x)) xs)) (2 ^ LENGTH('w) - 1)"
proof -
  obtain m where m: "(2 :: nat) ^ LENGTH('w) = Suc m" "\<And>x :: 'w word. unat x \<le> m"
    using word_room [where 'a = 'w] by blast
  show ?thesis
  proof (induction xs arbitrary: a)
    case Nil
    then show ?case using m by simp
  next
    case (Cons x xs)
    then show ?case using m by (simp add: u64_nat min_def)
  qed
qed

section \<open>Finite sets\<close>

abbreviation set_entries_sorted :: "'a::linorder fset \<Rightarrow> 'a list" where
  "set_entries_sorted \<equiv> sorted_list_of_fset"

lemma sorted_fset_empty [simp]: "sorted_list_of_fset {||} = []"
  by (simp add: sorted_list_of_fset.rep_eq)

lemma sorted_fset_insert [om_eval]:
  "sorted_list_of_fset (finsert x A) =
     (if x |\<in>| A then sorted_list_of_fset A else insort x (sorted_list_of_fset A))"
  by (cases "x |\<in>| A") (simp_all add: sorted_list_of_fset.rep_eq insert_absorb)

end
