(* ===== verification/Core_Time.thy ===== *)
theory Core_Time
  imports Coppice_Prelude "HOL-Library.Signed_Division"
begin

text \<open>
  Instants and spans of \<open>coppice-core/src/time.rs\<close>, both to microsecond precision. A
  \<open>Timestamp\<close> is confined by its constructors to the four-digit years, a \<open>Duration\<close> to the
  range of \<open>i64\<close>; the private field of each Rust type becomes a type definition here, so that
  the range is an invariant of the type as it is in the source. Arithmetic saturates at the bounds.
  \<open>ts_of\<close> and \<open>dur_of\<close> clamp an integer into the range, which is how \<open>from_datetime\<close> and the
  saturating operations end.
\<close>

section \<open>Spans\<close>

definition I64_MIN :: int where "I64_MIN = - 9223372036854775808"
definition I64_MAX :: int where "I64_MAX = 9223372036854775807"

typedef duration = "{I64_MIN .. I64_MAX}"
  morphisms dur_micros Abs_duration
  by (rule exI [of _ 0]) (simp add: I64_MIN_def I64_MAX_def)

setup_lifting type_definition_duration

definition i64_sat :: "int \<Rightarrow> int" where
  "i64_sat i = max I64_MIN (min I64_MAX i)"

lemma i64_sat_range [simp]: "i64_sat i \<in> {I64_MIN .. I64_MAX}" "I64_MIN \<le> i64_sat i" "i64_sat i \<le> I64_MAX"
  by (auto simp: i64_sat_def I64_MIN_def I64_MAX_def)

lemma i64_sat_id: "I64_MIN \<le> i \<Longrightarrow> i \<le> I64_MAX \<Longrightarrow> i64_sat i = i"
  by (simp add: i64_sat_def)

lift_definition dur_of :: "int \<Rightarrow> duration" is i64_sat by simp

lemma dur_micros_bounds: "I64_MIN \<le> dur_micros d" "dur_micros d \<le> I64_MAX"
  using dur_micros [of d] by simp_all

lemma dur_micros_of [simp]: "dur_micros (dur_of i) = i64_sat i"
  by (rule dur_of.rep_eq)

lemma dur_of_micros [simp]: "dur_of (dur_micros d) = d"
  by transfer (simp add: i64_sat_id)

lemma dur_eq_iff: "d = e \<longleftrightarrow> dur_micros d = dur_micros e"
  by (simp add: dur_micros_inject)

instantiation duration :: linorder
begin

lift_definition less_eq_duration :: "duration \<Rightarrow> duration \<Rightarrow> bool" is "(\<le>)" .
lift_definition less_duration :: "duration \<Rightarrow> duration \<Rightarrow> bool" is "(<)" .

instance
  by standard (transfer; auto)+

end

instantiation duration :: equal
begin

definition equal_duration :: "duration \<Rightarrow> duration \<Rightarrow> bool" where
  "equal_duration x y \<longleftrightarrow> dur_micros x = dur_micros y"

instance
  by standard (simp add: equal_duration_def dur_eq_iff)

end

lemmas dur_cmp = less_eq_duration.rep_eq less_duration.rep_eq dur_eq_iff

definition dur_from_millis :: "int \<Rightarrow> duration" where
  "dur_from_millis millis = dur_of (millis * 1000)"

definition dur_from_secs :: "int \<Rightarrow> duration" where
  "dur_from_secs seconds = dur_of (seconds * 1000000)"

definition dur_checked_from_secs :: "int \<Rightarrow> duration option" where
  "dur_checked_from_secs seconds =
     (if I64_MIN \<le> seconds * 1000000 \<and> seconds * 1000000 \<le> I64_MAX
      then Some (dur_of (seconds * 1000000)) else None)"

definition dur_from_mins :: "int \<Rightarrow> duration" where
  "dur_from_mins minutes = dur_from_secs (i64_sat (minutes * 60))"

definition dur_from_hours :: "int \<Rightarrow> duration" where
  "dur_from_hours hours = dur_from_mins (i64_sat (hours * 60))"

definition dur_from_days :: "int \<Rightarrow> duration" where
  "dur_from_days days = dur_from_hours (i64_sat (days * 24))"

definition dur_as_secs :: "duration \<Rightarrow> int" where
  "dur_as_secs d = dur_micros d sdiv 1000000"

definition dur_zero :: duration where
  "dur_zero = dur_of 0"

definition dur_is_positive :: "duration \<Rightarrow> bool" where
  "dur_is_positive d \<longleftrightarrow> 0 < dur_micros d"

definition dur_is_negative :: "duration \<Rightarrow> bool" where
  "dur_is_negative d \<longleftrightarrow> dur_micros d < 0"

definition dur_sat_add :: "duration \<Rightarrow> duration \<Rightarrow> duration" where
  "dur_sat_add d e = dur_of (dur_micros d + dur_micros e)"

definition dur_sat_sub :: "duration \<Rightarrow> duration \<Rightarrow> duration" where
  "dur_sat_sub d e = dur_of (dur_micros d - dur_micros e)"

definition dur_sat_mul :: "duration \<Rightarrow> int \<Rightarrow> duration" where
  "dur_sat_mul d factor = dur_of (dur_micros d * factor)"

definition dur_neg :: "duration \<Rightarrow> duration" where
  "dur_neg d = dur_sat_sub dur_zero d"

section \<open>Instants\<close>

definition MIN_MICROS :: int where "MIN_MICROS = - 62135596800000000"
definition MAX_MICROS :: int where "MAX_MICROS = 253402300799999999"

typedef timestamp = "{MIN_MICROS .. MAX_MICROS}"
  morphisms ts_micros Abs_timestamp
  by (rule exI [of _ 0]) (simp add: MIN_MICROS_def MAX_MICROS_def)

setup_lifting type_definition_timestamp

definition ts_clamp :: "int \<Rightarrow> int" where
  "ts_clamp i = max MIN_MICROS (min MAX_MICROS i)"

lemma ts_clamp_range [simp]:
  "ts_clamp i \<in> {MIN_MICROS .. MAX_MICROS}" "MIN_MICROS \<le> ts_clamp i" "ts_clamp i \<le> MAX_MICROS"
  by (auto simp: ts_clamp_def MIN_MICROS_def MAX_MICROS_def)

lemma ts_clamp_id: "MIN_MICROS \<le> i \<Longrightarrow> i \<le> MAX_MICROS \<Longrightarrow> ts_clamp i = i"
  by (simp add: ts_clamp_def)

lemma ts_clamp_mono: "i \<le> j \<Longrightarrow> ts_clamp i \<le> ts_clamp j"
  by (auto simp: ts_clamp_def)

lift_definition ts_of :: "int \<Rightarrow> timestamp" is ts_clamp by simp

lemma ts_micros_bounds: "MIN_MICROS \<le> ts_micros t" "ts_micros t \<le> MAX_MICROS"
  using ts_micros [of t] by simp_all

lemma ts_micros_of [simp]: "ts_micros (ts_of i) = ts_clamp i"
  by (rule ts_of.rep_eq)

lemma ts_of_micros [simp]: "ts_of (ts_micros t) = t"
  by transfer (simp add: ts_clamp_id)

lemma ts_eq_iff: "s = t \<longleftrightarrow> ts_micros s = ts_micros t"
  by (simp add: ts_micros_inject)

instantiation timestamp :: linorder
begin

lift_definition less_eq_timestamp :: "timestamp \<Rightarrow> timestamp \<Rightarrow> bool" is "(\<le>)" .
lift_definition less_timestamp :: "timestamp \<Rightarrow> timestamp \<Rightarrow> bool" is "(<)" .

instance
  by standard (transfer; auto)+

end

instantiation timestamp :: equal
begin

definition equal_timestamp :: "timestamp \<Rightarrow> timestamp \<Rightarrow> bool" where
  "equal_timestamp x y \<longleftrightarrow> ts_micros x = ts_micros y"

instance
  by standard (simp add: equal_timestamp_def ts_eq_iff)

end

lemmas ts_cmp = less_eq_timestamp.rep_eq less_timestamp.rep_eq ts_eq_iff

lemma ts_micros_max: "ts_micros (max s t) = max (ts_micros s) (ts_micros t)"
  by (simp add: max_def less_eq_timestamp.rep_eq)

lemma ts_micros_min: "ts_micros (min s t) = min (ts_micros s) (ts_micros t)"
  by (simp add: min_def less_eq_timestamp.rep_eq)

definition ts_from_micros :: "int \<Rightarrow> timestamp option" where
  "ts_from_micros micros =
     (if MIN_MICROS \<le> micros \<and> micros \<le> MAX_MICROS then Some (ts_of micros) else None)"

definition ts_max_value :: timestamp where "ts_max_value = ts_of MAX_MICROS"
definition ts_min_value :: timestamp where "ts_min_value = ts_of MIN_MICROS"

text \<open>
  \<open>from_datetime\<close> reads a \<open>DateTime\<close>, an instant in nanoseconds: the sub-microsecond part is
  dropped toward minus infinity and the microsecond count is clamped.
\<close>

definition ts_from_datetime :: "int \<Rightarrow> timestamp" where
  "ts_from_datetime nanos = ts_of (nanos div 1000)"

text \<open>
  \<open>saturating_add\<close>: chrono's checked addition fails only outside a range that contains the
  timestamps, on the side of the sign of \<open>delta\<close>, so both of the source's arms are the clamp.
\<close>

definition ts_sat_add :: "timestamp \<Rightarrow> duration \<Rightarrow> timestamp" where
  "ts_sat_add t delta = ts_of (ts_micros t + dur_micros delta)"

definition ts_sat_sub :: "timestamp \<Rightarrow> duration \<Rightarrow> timestamp" where
  "ts_sat_sub t delta = ts_sat_add t (dur_neg delta)"

definition ts_duration_since :: "timestamp \<Rightarrow> timestamp \<Rightarrow> duration" where
  "ts_duration_since t earlier = dur_of (ts_micros t - ts_micros earlier)"

lemmas time_const_defs = I64_MIN_def I64_MAX_def MIN_MICROS_def MAX_MICROS_def

lemmas time_eval [om_eval] =
  ts_cmp dur_cmp ts_micros_max ts_micros_min ts_sat_add_def ts_sat_sub_def ts_duration_since_def
  dur_sat_add_def dur_sat_sub_def dur_sat_mul_def dur_neg_def dur_zero_def dur_from_secs_def
  ts_clamp_def i64_sat_def time_const_defs

lemma ts_duration_since_micros [simp]:
  "dur_micros (ts_duration_since t s) = ts_micros t - ts_micros s"
  using ts_micros_bounds [of t] ts_micros_bounds [of s]
  by (simp add: ts_duration_since_def i64_sat_def time_const_defs)

lemma ts_sat_add_mono: "s \<le> t \<Longrightarrow> ts_sat_add s d \<le> ts_sat_add t d"
  by (simp add: ts_cmp ts_sat_add_def ts_clamp_mono)

lemma ts_sat_add_mono_delta: "d \<le> e \<Longrightarrow> ts_sat_add s d \<le> ts_sat_add s e"
  by (simp add: ts_cmp dur_cmp ts_sat_add_def ts_clamp_mono)

lemma ts_sat_add_ge: "\<not> dur_is_negative d \<Longrightarrow> t \<le> ts_sat_add t d"
  using ts_micros_bounds [of t]
  by (auto simp: ts_cmp ts_sat_add_def ts_clamp_def dur_is_negative_def)

lemma ts_sat_sub_le: "\<not> dur_is_negative d \<Longrightarrow> ts_sat_sub t d \<le> t"
  using ts_micros_bounds [of t] dur_micros_bounds [of d]
  by (auto simp: ts_cmp ts_sat_sub_def ts_sat_add_def ts_clamp_def dur_is_negative_def dur_neg_def
      dur_sat_sub_def dur_zero_def i64_sat_def time_const_defs)

text \<open>
  Adding a span and reading it back: outside saturation the elapsed span is the one added.
\<close>

lemma duration_since_sat_add:
  assumes "MIN_MICROS \<le> ts_micros t + dur_micros d" "ts_micros t + dur_micros d \<le> MAX_MICROS"
  shows "ts_duration_since (ts_sat_add t d) t = d"
  using assms by (simp add: dur_eq_iff ts_sat_add_def ts_clamp_id)

lemma ts_from_micros_round_trip: "ts_from_micros (ts_micros t) = Some t"
  by (simp add: ts_from_micros_def ts_micros_bounds)

lemma ts_from_micros_SomeD: "ts_from_micros i = Some t \<Longrightarrow> ts_micros t = i"
  by (auto simp: ts_from_micros_def ts_clamp_id split: if_splits)

end
