(* ===== verification/Resources.thy ===== *)
theory Resources
  imports Core_Time
begin

text \<open>
  The resource vector of \<open>coppice-core/src/resource.rs\<close>. A \<open>ByteSize\<close> of \<open>bytes.rs\<close> is the
  \<^typ>\<open>u64\<close> its constructors clamp to, with the saturating operations of that width.

  The vector is reasoned about one dimension at a time: \<open>rget d r\<close> reads dimension \<open>d\<close> as a natural
  number, and every operation is characterised by what it does to each dimension (the collection
  \<open>res_nat\<close>). The constants of the collection are what all later capacity arguments rest on.
\<close>

named_theorems res_nat \<open>resource operations, one dimension at a time\<close>

type_synonym byte_size = u64

record resources =
  cpu_millis :: u64
  memory :: byte_size
  disk :: byte_size

definition res_zero :: resources where
  "res_zero = \<lparr>cpu_millis = 0, memory = 0, disk = 0\<rparr>"

definition fits_within :: "resources \<Rightarrow> resources \<Rightarrow> bool" where
  "fits_within r capacity \<longleftrightarrow>
     cpu_millis r \<le> cpu_millis capacity \<and> memory r \<le> memory capacity \<and> disk r \<le> disk capacity"

definition res_is_zero :: "resources \<Rightarrow> bool" where
  "res_is_zero r \<longleftrightarrow> r = res_zero"

definition res_add :: "resources \<Rightarrow> resources \<Rightarrow> resources" where
  "res_add r s = \<lparr>cpu_millis = sat_add (cpu_millis r) (cpu_millis s),
     memory = sat_add (memory r) (memory s), disk = sat_add (disk r) (disk s)\<rparr>"

definition res_sub :: "resources \<Rightarrow> resources \<Rightarrow> resources" where
  "res_sub r s = \<lparr>cpu_millis = sat_sub (cpu_millis r) (cpu_millis s),
     memory = sat_sub (memory r) (memory s), disk = sat_sub (disk r) (disk s)\<rparr>"

definition component_min :: "resources \<Rightarrow> resources \<Rightarrow> resources" where
  "component_min r s = \<lparr>cpu_millis = min (cpu_millis r) (cpu_millis s),
     memory = min (memory r) (memory s), disk = min (disk r) (disk s)\<rparr>"

lemmas res_defs = res_zero_def fits_within_def res_is_zero_def res_add_def res_sub_def component_min_def

section \<open>One dimension at a time\<close>

datatype dim = Cpu | Memory | Disk

fun rget :: "dim \<Rightarrow> resources \<Rightarrow> nat" where
  "rget Cpu r = unat (cpu_millis r)"
| "rget Memory r = unat (memory r)"
| "rget Disk r = unat (disk r)"

abbreviation U64_MAX :: nat where
  "U64_MAX \<equiv> 18446744073709551615"

lemma rget_le: "rget d r \<le> U64_MAX"
  by (cases d) (simp_all add: unat_u64_le)

lemma all_dim: "(\<forall>d. P d) \<longleftrightarrow> P Cpu \<and> P Memory \<and> P Disk"
  by (metis dim.exhaust)

lemma rget_eqI:
  assumes "\<And>d. rget d r = rget d s"
  shows "r = s"
  using assms [of Cpu] assms [of Memory] assms [of Disk]
  by (simp add: word_unat_eq_iff [symmetric] resources.equality)

lemma res_eq_iff [res_nat]: "r = s \<longleftrightarrow> (\<forall>d. rget d r = rget d s)"
  by (auto intro: rget_eqI)

lemma rget_zero [simp, res_nat]: "rget d res_zero = 0"
  by (cases d) (simp_all add: res_zero_def)

lemma rget_add [res_nat]: "rget d (res_add r s) = min (rget d r + rget d s) U64_MAX"
  by (cases d) (simp_all add: res_add_def u64_nat)

lemma rget_sub [res_nat]: "rget d (res_sub r s) = rget d r - rget d s"
  by (cases d) (simp_all add: res_sub_def u64_nat)

lemma rget_min [res_nat]: "rget d (component_min r s) = min (rget d r) (rget d s)"
  by (cases d) (simp_all add: component_min_def u64_nat)

lemma fits_within_iff [res_nat]: "fits_within r s \<longleftrightarrow> (\<forall>d. rget d r \<le> rget d s)"
  by (simp add: fits_within_def all_dim u64_nat)

lemma is_zero_iff [res_nat]: "res_is_zero r \<longleftrightarrow> (\<forall>d. rget d r = 0)"
  by (auto simp: res_is_zero_def res_eq_iff)

lemma fits_within_refl [simp]: "fits_within r r"
  by (simp add: res_nat)

lemma fits_within_trans: "fits_within r s \<Longrightarrow> fits_within s t \<Longrightarrow> fits_within r t"
  by (auto simp: fits_within_iff intro: order_trans)

lemma fits_within_antisym: "fits_within r s \<Longrightarrow> fits_within s r \<Longrightarrow> r = s"
  by (rule rget_eqI) (simp add: fits_within_iff le_antisym)

lemma res_add_zero [simp]: "res_add r res_zero = r" "res_add res_zero r = r"
  by (simp_all add: res_add_def res_zero_def)

lemma res_add_commute: "res_add r s = res_add s r"
  by (simp add: res_add_def sat_add_commute)

lemma res_add_assoc: "res_add (res_add r s) t = res_add r (res_add s t)"
  by (simp add: res_add_def sat_add_assoc)

lemma fits_within_sub_zero: "fits_within r s \<longleftrightarrow> res_is_zero (res_sub r s)"
  by (simp add: res_nat)

text \<open>The saturating sum of a list is the sum, cut at the top of the range.\<close>

lemma rget_fold_add:
  "rget d (fold (\<lambda>x acc. res_add acc (f x)) xs a) = min (rget d a + sum_list (map (\<lambda>x. rget d (f x)) xs)) U64_MAX"
proof (induction xs arbitrary: a)
  case Nil
  then show ?case using rget_le [of d a] by simp
next
  case (Cons x xs)
  then show ?case by (simp add: rget_add)
qed

end
