(* ===== verification/Validation.thy ===== *)
theory Validation
  imports Resources
begin

text \<open>
  The validators of user-supplied text in \<open>coppice-core\<close>: job metadata (\<open>metadata.rs\<close>), the job
  environment (\<open>env.rs\<close>), and quota-entity names, paths and references (\<open>entity_ref.rs\<close>, \<open>id.rs\<close>).
  A string is the list of its UTF-8 bytes, so \<open>len\<close> is \<open>length\<close> and the ASCII tests read bytes.
  The error values carry the rule that was broken and the key it was broken at; the truncated echo
  of the input that the source adds for display is left out.

  Third-party code is a parameter: \<open>externals\<close> holds \<open>Uuid::try_parse\<close> and the \<open>Display\<close> of a
  \<open>Uuid\<close> (crate uuid), and the decoding of one base64 PEM body as a whole X.509 certificate
  (crates base64 and x509-parser), of which the code reads the CA constraint and the serial bytes.
\<close>

record certificate =
  cert_is_ca :: bool
  cert_raw_serial :: "8 word list"

record externals =
  uuid_try_parse :: "string \<Rightarrow> uuid option"
  uuid_display :: "uuid \<Rightarrow> string"
  x509_from_base64 :: "string \<Rightarrow> certificate option"

type_synonym job_metadata = "(string, string) fmap"
type_synonym job_env = "(string, string) fmap"

section \<open>Bytes\<close>

definition is_ascii_alphabetic :: "char \<Rightarrow> bool" where
  "is_ascii_alphabetic c \<longleftrightarrow>
     (CHR ''a'' \<le> c \<and> c \<le> CHR ''z'') \<or> (CHR ''A'' \<le> c \<and> c \<le> CHR ''Z'')"

definition is_ascii_alphanumeric :: "char \<Rightarrow> bool" where
  "is_ascii_alphanumeric c \<longleftrightarrow> is_ascii_alphabetic c \<or> (CHR ''0'' \<le> c \<and> c \<le> CHR ''9'')"

lemmas ascii_defs = is_ascii_alphabetic_def is_ascii_alphanumeric_def less_eq_char_def

fun strip_prefix :: "string \<Rightarrow> string \<Rightarrow> string option" where
  "strip_prefix [] s = Some s"
| "strip_prefix (p # ps) [] = None"
| "strip_prefix (p # ps) (c # cs) = (if p = c then strip_prefix ps cs else None)"

definition strip_suffix :: "string \<Rightarrow> string \<Rightarrow> string option" where
  "strip_suffix suffix s = map_option rev (strip_prefix (rev suffix) (rev s))"

lemma strip_prefix_append [simp]: "strip_prefix p (p @ s) = Some s"
  by (induction p) simp_all

lemma strip_prefix_SomeD: "strip_prefix p s = Some r \<Longrightarrow> s = p @ r"
  by (induction p s rule: strip_prefix.induct) (auto split: if_splits)

fun split_on :: "char \<Rightarrow> string \<Rightarrow> string list" where
  "split_on sep [] = [[]]"
| "split_on sep (c # cs) =
     (if c = sep then [] # split_on sep cs
      else case split_on sep cs of [] \<Rightarrow> [[c]] | seg # segs \<Rightarrow> (c # seg) # segs)"

fun join_with :: "char \<Rightarrow> string list \<Rightarrow> string" where
  "join_with sep [] = []"
| "join_with sep [seg] = seg"
| "join_with sep (seg # segs) = seg @ sep # join_with sep segs"

lemma split_on_nonempty [simp]: "split_on sep s \<noteq> []"
  by (induction s) (auto split: list.split)

lemma join_Cons: "segs \<noteq> [] \<Longrightarrow> join_with sep (seg # segs) = seg @ sep # join_with sep segs"
  by (cases segs) simp_all

lemma join_split: "join_with sep (split_on sep s) = s"
proof (induction s)
  case (Cons c cs)
  show ?case
  proof (cases "split_on sep cs")
    case (Cons seg segs)
    then show ?thesis using \<open>join_with sep (split_on sep cs) = cs\<close>
      by (cases segs) (auto simp: join_Cons)
  qed simp
qed simp

lemma split_on_free: "sep \<notin> set s \<Longrightarrow> split_on sep s = [s]"
  by (induction s) auto

lemma split_on_append: "sep \<notin> set s \<Longrightarrow> split_on sep (s @ sep # t) = s # split_on sep t"
  by (induction s) auto

lemma split_join:
  "segs \<noteq> [] \<Longrightarrow> (\<And>seg. seg \<in> set segs \<Longrightarrow> sep \<notin> set seg) \<Longrightarrow> split_on sep (join_with sep segs) = segs"
proof (induction segs)
  case (Cons seg segs)
  then show ?case by (cases "segs = []") (simp_all add: split_on_free split_on_append join_Cons)
qed simp

section \<open>Job metadata\<close>

datatype metadata_error =
    TooManyKeys nat
  | KeyLength string nat
  | KeyCharset string
  | ValueTooLarge string nat

definition MAX_KEYS :: nat where "MAX_KEYS = 64"
definition MAX_KEY_BYTES :: nat where "MAX_KEY_BYTES = 64"
definition METADATA_MAX_VALUE_BYTES :: nat where "METADATA_MAX_VALUE_BYTES = 1024"

definition is_key_byte :: "char \<Rightarrow> bool" where
  "is_key_byte b \<longleftrightarrow> is_ascii_alphanumeric b \<or> b \<in> set ''._-/:''"

definition validate_key :: "string \<Rightarrow> metadata_error + unit" where
  "validate_key key =
     (if key = [] \<or> length key > MAX_KEY_BYTES then Inl (KeyLength key (length key))
      else if \<not> list_all is_key_byte key then Inl (KeyCharset key)
      else Inr ())"

fun validate_metadata_entries :: "(string \<times> string) list \<Rightarrow> metadata_error + unit" where
  "validate_metadata_entries [] = Inr ()"
| "validate_metadata_entries ((key, v) # rest) =
     (case validate_key key of
        Inl e \<Rightarrow> Inl e
      | Inr _ \<Rightarrow>
          if length v > METADATA_MAX_VALUE_BYTES then Inl (ValueTooLarge key (length v))
          else validate_metadata_entries rest)"

definition validate_metadata :: "job_metadata \<Rightarrow> metadata_error + unit" where
  "validate_metadata metadata =
     (if length (entries metadata) > MAX_KEYS then Inl (TooManyKeys (length (entries metadata)))
      else validate_metadata_entries (entries metadata))"

section \<open>Job environment\<close>

datatype env_error =
    TooManyVars nat
  | NameLength string nat
  | NameCharset string
  | EnvValueTooLarge string nat
  | ValueNul string
  | EnvTooLarge nat
  | ReservedName string

definition MAX_VARS :: nat where "MAX_VARS = 64"
definition MAX_NAME_BYTES :: nat where "MAX_NAME_BYTES = 128"
definition ENV_MAX_VALUE_BYTES :: nat where "ENV_MAX_VALUE_BYTES = 4096"
definition MAX_TOTAL_BYTES :: nat where "MAX_TOTAL_BYTES = 32 * 1024"
definition RESERVED_PREFIX :: string where "RESERVED_PREFIX = ''COPPICE_''"

definition validate_name :: "string \<Rightarrow> env_error + unit" where
  "validate_name name =
     (if name = [] \<or> length name > MAX_NAME_BYTES then Inl (NameLength name (length name))
      else if strip_prefix RESERVED_PREFIX name \<noteq> None then Inl (ReservedName name)
      else if \<not> (is_ascii_alphabetic (hd name) \<or> hd name = CHR ''_'')
           \<or> \<not> list_all (\<lambda>b. is_ascii_alphanumeric b \<or> b = CHR ''_'') (tl name)
           then Inl (NameCharset name)
      else Inr ())"

fun validate_env_entries :: "(string \<times> string) list \<Rightarrow> nat \<Rightarrow> env_error + nat" where
  "validate_env_entries [] bytes = Inr bytes"
| "validate_env_entries ((name, v) # rest) bytes =
     (case validate_name name of
        Inl e \<Rightarrow> Inl e
      | Inr _ \<Rightarrow>
          if length v > ENV_MAX_VALUE_BYTES then Inl (EnvValueTooLarge name (length v))
          else if CHR 0x00 \<in> set v then Inl (ValueNul name)
          else validate_env_entries rest (bytes + length name + length v))"

definition validate_env :: "job_env \<Rightarrow> env_error + unit" where
  "validate_env env =
     (if length (entries env) > MAX_VARS then Inl (TooManyVars (length (entries env)))
      else case validate_env_entries (entries env) 0 of
        Inl e \<Rightarrow> Inl e
      | Inr bytes \<Rightarrow> if bytes > MAX_TOTAL_BYTES then Inl (EnvTooLarge bytes) else Inr ())"

section \<open>Quota-entity names, paths and references\<close>

definition MAX_SEGMENT_LEN :: nat where "MAX_SEGMENT_LEN = 63"
definition PATH_SEPARATOR :: char where "PATH_SEPARATOR = CHR ''/''"

definition quota_id_from_str :: "externals \<Rightarrow> string \<Rightarrow> quota_entity_id option" where
  "quota_id_from_str ext s =
     (case strip_prefix ''quota-'' s of
        None \<Rightarrow> None
      | Some rest \<Rightarrow> map_option Tid (uuid_try_parse ext rest))"

definition quota_id_display :: "externals \<Rightarrow> quota_entity_id \<Rightarrow> string" where
  "quota_id_display ext e = ''quota-'' @ uuid_display ext (tid_uuid e)"

datatype invalid_segment =
    SegmentEmpty
  | SegmentTooLong
  | SegmentBadStart
  | SegmentBadChar
  | SegmentIsId

definition is_segment_char :: "char \<Rightarrow> bool" where
  "is_segment_char c \<longleftrightarrow> is_ascii_alphanumeric c \<or> c \<in> set ''._-''"

definition validate_segment :: "externals \<Rightarrow> string \<Rightarrow> invalid_segment + unit" where
  "validate_segment ext segment =
     (case segment of
        [] \<Rightarrow> Inl SegmentEmpty
      | first # _ \<Rightarrow>
          if length segment > MAX_SEGMENT_LEN then Inl SegmentTooLong
          else if \<not> is_ascii_alphanumeric first then Inl SegmentBadStart
          else if \<not> list_all is_segment_char segment then Inl SegmentBadChar
          else if quota_id_from_str ext segment \<noteq> None then Inl SegmentIsId
          else Inr ())"

datatype quota_entity_path = QuotaEntityPath (path_str: string)

datatype parse_path_error = PathEmpty | PathSegment invalid_segment

definition path_segments :: "quota_entity_path \<Rightarrow> string list" where
  "path_segments p = split_on PATH_SEPARATOR (path_str p)"

definition path_depth :: "quota_entity_path \<Rightarrow> nat" where
  "path_depth p = length (path_segments p)"

definition rsplit_once :: "char \<Rightarrow> string \<Rightarrow> (string \<times> string) option" where
  "rsplit_once sep s =
     (if sep \<in> set s
      then Some (rev (tl (dropWhile ((\<noteq>) sep) (rev s))), rev (takeWhile ((\<noteq>) sep) (rev s)))
      else None)"

definition path_leaf :: "quota_entity_path \<Rightarrow> string" where
  "path_leaf p = (case rsplit_once PATH_SEPARATOR (path_str p) of None \<Rightarrow> path_str p | Some (_, leaf) \<Rightarrow> leaf)"

definition path_parent :: "quota_entity_path \<Rightarrow> quota_entity_path option" where
  "path_parent p = map_option (\<lambda>(parent, _). QuotaEntityPath parent) (rsplit_once PATH_SEPARATOR (path_str p))"

definition path_child :: "externals \<Rightarrow> quota_entity_path \<Rightarrow> string \<Rightarrow> invalid_segment + quota_entity_path" where
  "path_child ext p segment =
     (case validate_segment ext segment of
        Inl e \<Rightarrow> Inl e
      | Inr _ \<Rightarrow> Inr (QuotaEntityPath (path_str p @ PATH_SEPARATOR # segment)))"

fun validate_segments :: "externals \<Rightarrow> string list \<Rightarrow> parse_path_error + unit" where
  "validate_segments ext [] = Inr ()"
| "validate_segments ext (segment # rest) =
     (case validate_segment ext segment of
        Inl e \<Rightarrow> Inl (PathSegment e)
      | Inr _ \<Rightarrow> validate_segments ext rest)"

definition path_from_segments :: "externals \<Rightarrow> string list \<Rightarrow> parse_path_error + quota_entity_path" where
  "path_from_segments ext segments =
     (if segments = [] then Inl PathEmpty
      else case validate_segments ext segments of
        Inl e \<Rightarrow> Inl e
      | Inr _ \<Rightarrow> Inr (QuotaEntityPath (join_with PATH_SEPARATOR segments)))"

definition path_from_str :: "externals \<Rightarrow> string \<Rightarrow> parse_path_error + quota_entity_path" where
  "path_from_str ext s =
     (if s = [] then Inl PathEmpty
      else case validate_segments ext (split_on PATH_SEPARATOR s) of
        Inl e \<Rightarrow> Inl e
      | Inr _ \<Rightarrow> Inr (QuotaEntityPath s))"

datatype quota_entity_ref = RefId quota_entity_id | RefPath quota_entity_path

definition ref_display :: "externals \<Rightarrow> quota_entity_ref \<Rightarrow> string" where
  "ref_display ext r = (case r of RefId e \<Rightarrow> quota_id_display ext e | RefPath p \<Rightarrow> path_str p)"

definition ref_from_str :: "externals \<Rightarrow> string \<Rightarrow> parse_path_error + quota_entity_ref" where
  "ref_from_str ext s =
     (case quota_id_from_str ext s of
        Some e \<Rightarrow> Inr (RefId e)
      | None \<Rightarrow> (case path_from_str ext s of Inl e \<Rightarrow> Inl e | Inr p \<Rightarrow> Inr (RefPath p)))"

section \<open>What the validators accept\<close>

lemma inr_unit: "x = Inr (u :: unit) \<longleftrightarrow> (\<exists>v. x = Inr v)"
  by auto

lemma validate_key_ok:
  "validate_key key = Inr u \<longleftrightarrow> key \<noteq> [] \<and> length key \<le> MAX_KEY_BYTES \<and> list_all is_key_byte key"
  by (auto simp: validate_key_def)

lemma validate_metadata_entries_ok:
  "validate_metadata_entries kvs = Inr u \<longleftrightarrow>
     (\<forall>(k, v) \<in> set kvs. validate_key k = Inr () \<and> length v \<le> METADATA_MAX_VALUE_BYTES)"
  by (induction kvs rule: validate_metadata_entries.induct) (auto split: sum.splits)

lemma validate_env_entries_ok:
  "validate_env_entries kvs n = Inr m \<longleftrightarrow>
     (\<forall>(k, v) \<in> set kvs. validate_name k = Inr () \<and> length v \<le> ENV_MAX_VALUE_BYTES \<and> CHR 0x00 \<notin> set v)
     \<and> m = n + sum_list (map (\<lambda>(k, v). length k + length v) kvs)"
  by (induction kvs n rule: validate_env_entries.induct) (auto split: sum.splits)

lemma validate_metadata_ok:
  "validate_metadata m = Inr u \<longleftrightarrow> fcard (fmdom m) \<le> MAX_KEYS \<and>
     (\<forall>k v. fmlookup m k = Some v \<longrightarrow> validate_key k = Inr () \<and> length v \<le> METADATA_MAX_VALUE_BYTES)"
  by (auto simp: validate_metadata_def validate_metadata_entries_ok set_entries length_entries)

lemma validate_name_ok:
  "validate_name name = Inr u \<longleftrightarrow> name \<noteq> [] \<and> length name \<le> MAX_NAME_BYTES \<and>
     (\<forall>rest. name \<noteq> RESERVED_PREFIX @ rest) \<and>
     (is_ascii_alphabetic (hd name) \<or> hd name = CHR ''_'') \<and>
     list_all (\<lambda>b. is_ascii_alphanumeric b \<or> b = CHR ''_'') (tl name)"
  by (auto simp: validate_name_def dest: strip_prefix_SomeD)

lemma validate_env_ok:
  "validate_env env = Inr u \<longleftrightarrow> length (entries env) \<le> MAX_VARS \<and>
     (\<exists>n. validate_env_entries (entries env) 0 = Inr n \<and> n \<le> MAX_TOTAL_BYTES)"
  by (cases "validate_env_entries (entries env) 0") (auto simp: validate_env_def)

text \<open>
  C30: the environment check accepts exactly the maps of at most 64 variables whose names are
  portable, at most 128 bytes and outside the platform's reserved prefix, whose values are at most
  4096 bytes without a NUL, and whose names and values total at most 32 KiB.
\<close>

theorem validate_env_ok_iff:
  "validate_env env = Inr () \<longleftrightarrow>
     fcard (fmdom env) \<le> 64 \<and>
     (\<Sum>k \<in> fset (fmdom env). length k + length (the (fmlookup env k))) \<le> 32768 \<and>
     (\<forall>name v. fmlookup env name = Some v \<longrightarrow>
        name \<noteq> [] \<and> length name \<le> 128 \<and>
        (\<forall>rest. name \<noteq> ''COPPICE_'' @ rest) \<and>
        (is_ascii_alphabetic (hd name) \<or> hd name = CHR ''_'') \<and>
        list_all (\<lambda>b. is_ascii_alphanumeric b \<or> b = CHR ''_'') (tl name) \<and>
        length v \<le> 4096 \<and> CHR 0x00 \<notin> set v)"
proof -
  have "validate_env env = Inr () \<longleftrightarrow> fcard (fmdom env) \<le> 64 \<and>
      sum_list (map (\<lambda>(k, v). length k + length v) (entries env)) \<le> 32768 \<and>
      (\<forall>k v. fmlookup env k = Some v \<longrightarrow>
        validate_name k = Inr () \<and> length v \<le> 4096 \<and> CHR 0x00 \<notin> set v)"
    unfolding validate_env_ok validate_env_entries_ok length_entries MAX_VARS_def
      MAX_TOTAL_BYTES_def ENV_MAX_VALUE_BYTES_def
    by (auto simp: set_entries)
  then show ?thesis
    unfolding sum_list_entries validate_name_ok MAX_NAME_BYTES_def RESERVED_PREFIX_def
    by (simp only: conj_assoc)
qed

theorem validate_env_ok_iff_witness:
  "validate_env (fmupd ''PATH'' ''/bin'' fmempty) = Inr () \<and>
   validate_env (fmupd ''COPPICE_X'' ''7'' fmempty) \<noteq> Inr ()"
proof
  show "validate_env (fmupd ''PATH'' ''/bin'' fmempty) = Inr ()"
    unfolding validate_env_ok_iff
    by (intro conjI allI impI) (auto simp: ascii_defs fcard.rep_eq split: if_splits)
  have "fmlookup (fmupd ''COPPICE_X'' ''7'' fmempty) (''COPPICE_'' @ ''X'') = Some ''7''" by simp
  then show "validate_env (fmupd ''COPPICE_X'' ''7'' fmempty) \<noteq> Inr ()"
    unfolding validate_env_ok_iff by blast
qed

section \<open>Paths\<close>

lemma validate_segment_ok:
  "validate_segment ext s = Inr u \<longleftrightarrow>
     s \<noteq> [] \<and> length s \<le> MAX_SEGMENT_LEN \<and> is_ascii_alphanumeric (hd s) \<and>
     list_all is_segment_char s \<and> quota_id_from_str ext s = None"
  by (auto simp: validate_segment_def split: list.split)

lemma validate_segments_ok:
  "validate_segments ext segs = Inr u \<longleftrightarrow> (\<forall>s \<in> set segs. validate_segment ext s = Inr ())"
  by (induction segs) (auto split: sum.splits)

lemma separator_not_segment_char: "\<not> is_segment_char PATH_SEPARATOR"
  by (simp add: is_segment_char_def ascii_defs PATH_SEPARATOR_def)

lemma segment_separator_free: "validate_segment ext s = Inr u \<Longrightarrow> PATH_SEPARATOR \<notin> set s"
  using separator_not_segment_char by (auto simp: validate_segment_ok list_all_iff)

lemma split_on_snoc:
  "sep \<notin> set t \<Longrightarrow> split_on sep (s @ sep # t) = split_on sep s @ [t]"
  by (induction s) (auto simp: split_on_free split: list.split)

lemma rsplit_once_snoc: "sep \<notin> set t \<Longrightarrow> rsplit_once sep (s @ sep # t) = Some (s, t)"
proof -
  assume "sep \<notin> set t"
  then have "takeWhile ((\<noteq>) sep) (rev t @ sep # rev s) = rev t" "dropWhile ((\<noteq>) sep) (rev t @ sep # rev s) = sep # rev s"
    by (subst takeWhile_append2 dropWhile_append2; auto)+
  then show ?thesis by (simp add: rsplit_once_def)
qed

lemma path_from_str_ok:
  "path_from_str ext s = Inr p \<longleftrightarrow>
     p = QuotaEntityPath s \<and> (\<forall>seg \<in> set (split_on PATH_SEPARATOR s). validate_segment ext seg = Inr ())"
proof (cases "s = []")
  case True
  then show ?thesis by (simp add: path_from_str_def validate_segment_def)
next
  case False
  then show ?thesis
    using validate_segments_ok [of ext "split_on PATH_SEPARATOR s"]
    by (cases "validate_segments ext (split_on PATH_SEPARATOR s)") (auto simp: path_from_str_def)
qed

lemma path_from_segments_ok:
  "path_from_segments ext segs = Inr p \<longleftrightarrow>
     segs \<noteq> [] \<and> (\<forall>seg \<in> set segs. validate_segment ext seg = Inr ()) \<and>
     p = QuotaEntityPath (join_with PATH_SEPARATOR segs)"
  using validate_segments_ok [of ext segs]
  by (cases "validate_segments ext segs") (auto simp: path_from_segments_def)

text \<open>
  C31: the segments of a path and its text determine each other. A path built from a list of
  segments reads back as that list and as its own text, its leaf and parent are the last segment and
  the path of the others, and extending the parent by the leaf gives the path back.
\<close>

theorem path_round_trip:
  assumes "path_from_segments ext (segs @ [leaf]) = Inr p"
  shows "path_segments p = segs @ [leaf] \<and> path_from_str ext (path_str p) = Inr p \<and>
    path_leaf p = leaf \<and>
    path_parent p = (if segs = [] then None else Some (QuotaEntityPath (join_with PATH_SEPARATOR segs))) \<and>
    (\<forall>q. path_parent p = Some q \<longrightarrow> path_child ext q leaf = Inr p)"
proof -
  have ok: "\<forall>seg \<in> set (segs @ [leaf]). validate_segment ext seg = Inr ()"
    and p: "p = QuotaEntityPath (join_with PATH_SEPARATOR (segs @ [leaf]))"
    using assms by (simp_all add: path_from_segments_ok)
  then have free: "PATH_SEPARATOR \<notin> set leaf" "\<And>seg. seg \<in> set (segs @ [leaf]) \<Longrightarrow> PATH_SEPARATOR \<notin> set seg"
    using segment_separator_free by (auto simp del: set_append) auto
  have seg: "path_segments p = segs @ [leaf]"
    unfolding path_segments_def p quota_entity_path.sel by (rule split_join) (use free in auto)
  then have parse: "path_from_str ext (path_str p) = Inr p"
    using ok by (simp add: path_from_str_ok path_segments_def)
  have str: "path_str p = (if segs = [] then leaf else join_with PATH_SEPARATOR segs @ PATH_SEPARATOR # leaf)"
    unfolding p quota_entity_path.sel
    by (induction segs) (simp_all add: join_Cons)
  with free have leaf: "path_leaf p = leaf"
    by (simp add: path_leaf_def rsplit_once_snoc) (simp add: rsplit_once_def)
  from str free have parent: "path_parent p =
      (if segs = [] then None else Some (QuotaEntityPath (join_with PATH_SEPARATOR segs)))"
    by (simp add: path_parent_def rsplit_once_snoc) (simp add: rsplit_once_def)
  have "path_child ext q leaf = Inr p" if "path_parent p = Some q" for q
    using that parent str ok by (auto simp: path_child_def split: if_splits intro: quota_entity_path.expand)
  with seg parse leaf parent show ?thesis by simp
qed

text \<open>A stand-in for the uuid crate, for evaluation: one uuid, spelt with its nil digits.\<close>

definition nil_uuid_text :: string where
  "nil_uuid_text = ''00000000-0000-0000-0000-000000000000''"

definition ext_nil :: externals where
  "ext_nil = \<lparr>uuid_try_parse = (\<lambda>s. if s = nil_uuid_text then Some 0 else None),
     uuid_display = (\<lambda>u. nil_uuid_text), x509_from_base64 = (\<lambda>s. None)\<rparr>"

theorem path_round_trip_witness:
  "\<exists>p. path_from_segments ext_nil [''acme'', ''eng''] = Inr p \<and> path_segments p = [''acme'', ''eng''] \<and>
     path_parent p = Some (QuotaEntityPath ''acme'')"
proof -
  have "path_from_segments ext_nil ([''acme''] @ [''eng'']) = Inr (QuotaEntityPath ''acme/eng'')"
    by (simp add: path_from_segments_def validate_segment_def MAX_SEGMENT_LEN_def ascii_defs
        is_segment_char_def quota_id_from_str_def PATH_SEPARATOR_def)
  from this path_round_trip [OF this] show ?thesis by simp
qed

text \<open>
  C32: a quota-entity reference survives its text form. Printing an id or any well-formed path and
  parsing the text gives the same reference back, so an id can never be read as a path nor a path as
  an id. This relies on the uuid crate parsing what it prints and never accepting a \<open>/\<close>.
\<close>

theorem entity_ref_round_trip:
  assumes print: "\<And>u. uuid_try_parse ext (uuid_display ext u) = Some u"
    and no_slash: "\<And>s. CHR ''/'' \<in> set s \<Longrightarrow> uuid_try_parse ext s = None"
    and wf: "case r of RefId e \<Rightarrow> True | RefPath p \<Rightarrow> path_from_str ext (path_str p) = Inr p"
  shows "ref_from_str ext (ref_display ext r) = Inr r"
proof (cases r)
  case (RefId e)
  then show ?thesis
    by (simp add: ref_from_str_def ref_display_def quota_id_display_def quota_id_from_str_def print)
next
  case (RefPath p)
  then have ok: "path_from_str ext (path_str p) = Inr p" using wf by simp
  have "quota_id_from_str ext (path_str p) = None"
  proof (cases "PATH_SEPARATOR \<in> set (path_str p)")
    case True
    have "uuid_try_parse ext rest = None" if "strip_prefix ''quota-'' (path_str p) = Some rest" for rest
      by (rule no_slash) (use True strip_prefix_SomeD [OF that] in \<open>auto simp: PATH_SEPARATOR_def\<close>)
    then show ?thesis by (simp add: quota_id_from_str_def split: option.split)
  next
    case False
    then show ?thesis using ok by (simp add: path_from_str_ok split_on_free validate_segment_ok)
  qed
  then show ?thesis using RefPath ok by (simp add: ref_from_str_def ref_display_def)
qed

text \<open>An injective printer of uuids and its inverse, for evaluating the round trip.\<close>

definition unary_uuid :: externals where
  "unary_uuid = \<lparr>uuid_try_parse =
       (\<lambda>s. if set s \<subseteq> {CHR ''1''} \<and> length s < 2 ^ 128 then Some (word_of_nat (length s)) else None),
     uuid_display = (\<lambda>u. replicate (unat u) (CHR ''1'')), x509_from_base64 = (\<lambda>s. None)\<rparr>"

theorem entity_ref_round_trip_witness:
  "ref_from_str unary_uuid (ref_display unary_uuid (RefId (Tid 5))) = Inr (RefId (Tid 5)) \<and>
   ref_from_str unary_uuid (ref_display unary_uuid (RefPath (QuotaEntityPath ''a/b''))) =
     Inr (RefPath (QuotaEntityPath ''a/b''))"
proof -
  have u: "uuid_try_parse unary_uuid (uuid_display unary_uuid u) = Some u" for u
    using unsigned_less [of u] by (auto simp: unary_uuid_def)
  have s: "CHR ''/'' \<in> set s \<Longrightarrow> uuid_try_parse unary_uuid s = None" for s
    by (auto simp: unary_uuid_def)
  have "path_from_str unary_uuid ''a/b'' = Inr (QuotaEntityPath ''a/b'')"
    by (simp add: path_from_str_def validate_segment_def MAX_SEGMENT_LEN_def ascii_defs
        is_segment_char_def quota_id_from_str_def PATH_SEPARATOR_def)
  then show ?thesis
    using entity_ref_round_trip [of unary_uuid "RefId (Tid 5)"]
      entity_ref_round_trip [of unary_uuid "RefPath (QuotaEntityPath ''a/b'')"] u s by simp
qed

end
