(* ===== verification/Quota_Arith.thy ===== *)
theory Quota_Arith
  imports Resources Complex_Main
begin

text \<open>
  The quota arithmetic of \<open>coppice-core/src/quota.rs\<close>: cost units, the per-tick decay of an
  entity's usage, pricing of a job, and the true-up that settles a charge against what an attempt
  used. \<open>CostUnits\<close> and \<open>PriorityMultiplier\<close> are the \<^typ>\<open>u64\<close> they wrap. A \<open>u128\<close> intermediate
  is a natural number, cut at \<open>2^128 - 1\<close> where the source calls \<open>saturating_mul\<close>; a plain
  \<open>u128\<close> product or sum of the source never reaches that bound.
\<close>

type_synonym cost_units = u64
type_synonym priority_multiplier = u64

section \<open>Decay policy\<close>

record decay_policy =
  tick :: duration
  decay_per_tick :: u64

datatype policy_error = NonPositiveTick duration | DecayTooSlow u64

definition MAX_DECAY_PER_TICK :: u64 where
  "MAX_DECAY_PER_TICK = (- 1) - ((2 ^ 48) - 1)"

definition DEFAULT_DECAY_POLICY :: decay_policy where
  "DEFAULT_DECAY_POLICY = \<lparr>tick = dur_from_secs 60, decay_per_tick = 18437866829417916986\<rparr>"

definition decay_validate :: "decay_policy \<Rightarrow> policy_error + unit" where
  "decay_validate p =
     (if \<not> dur_is_positive (tick p) then Inl (NonPositiveTick (tick p))
      else if decay_per_tick p > MAX_DECAY_PER_TICK then Inl (DecayTooSlow (decay_per_tick p))
      else Inr ())"

text \<open>\<open>i64::div_euclid\<close>: the remainder is never negative.\<close>

definition div_euclid :: "int \<Rightarrow> int \<Rightarrow> int" where
  "div_euclid a b = (if 0 < b then a div b else - (a div (- b)))"

definition tick_index :: "decay_policy \<Rightarrow> timestamp \<Rightarrow> int" where
  "tick_index p t = div_euclid (ts_micros t) (dur_micros (tick p))"

definition elapsed_ticks :: "decay_policy \<Rightarrow> timestamp \<Rightarrow> timestamp \<Rightarrow> u64" where
  "elapsed_ticks p from to =
     word_of_int (max 0 (i64_sat (tick_index p to - tick_index p from)))"

definition decay_step :: "u64 \<Rightarrow> u64 \<Rightarrow> u64" where
  "decay_step lam u = word_of_nat ((unat u * unat lam) div 2 ^ 64)"

fun decay_loop :: "u64 \<Rightarrow> u64 \<Rightarrow> nat \<Rightarrow> u64" where
  "decay_loop lam u 0 = u"
| "decay_loop lam u (Suc n) = (if u = 0 then u else decay_loop lam (decay_step lam u) n)"

definition decay_ticks :: "decay_policy \<Rightarrow> cost_units \<Rightarrow> u64 \<Rightarrow> cost_units" where
  "decay_ticks p usage ticks = decay_loop (decay_per_tick p) usage (unat ticks)"

definition decay_between :: "decay_policy \<Rightarrow> cost_units \<Rightarrow> timestamp \<Rightarrow> timestamp \<Rightarrow> cost_units" where
  "decay_between p usage from to = decay_ticks p usage (elapsed_ticks p from to)"

section \<open>Prices\<close>

record cost_weights =
  per_cpu_milli_second :: u64
  per_memory_byte_second :: u64
  per_disk_byte_second :: u64

definition sat_u128 :: "nat \<Rightarrow> nat" where
  "sat_u128 n = min n (2 ^ 128 - 1)"

definition MULTIPLIER_ONE :: priority_multiplier where
  "MULTIPLIER_ONE = 2 ^ 32"

definition multiplier_mul :: "priority_multiplier \<Rightarrow> priority_multiplier \<Rightarrow> priority_multiplier" where
  "multiplier_mul a b = sat_word (sat_u128 (unat a * unat b) div 2 ^ 32)"

definition FULL_REFUND_MILLI :: u32 where "FULL_REFUND_MILLI = 1000"
definition DEFAULT_REFUND_FRACTION_MILLI :: u32 where "DEFAULT_REFUND_FRACTION_MILLI = 750"
definition DEFAULT_UNBOUNDED_CHARGE_INTERVAL_S :: u64 where "DEFAULT_UNBOUNDED_CHARGE_INTERVAL_S = 1800"
definition DEFAULT_UNBOUNDED_RUNTIME_MULTIPLIER :: priority_multiplier where
  "DEFAULT_UNBOUNDED_RUNTIME_MULTIPLIER = 2 * 2 ^ 32"
definition DEFAULT_PREEMPTIBLE_MULTIPLIER :: priority_multiplier where
  "DEFAULT_PREEMPTIBLE_MULTIPLIER = 3 * 2 ^ 30"

definition rate_term :: "u64 \<Rightarrow> u64 \<Rightarrow> nat" where
  "rate_term quantity weight = (unat quantity * unat weight) div 2 ^ 32"

definition resource_rate :: "resources \<Rightarrow> cost_weights \<Rightarrow> u64" where
  "resource_rate requests weights = sat_word
     (rate_term (cpu_millis requests) (per_cpu_milli_second weights)
      + rate_term (memory requests) (per_memory_byte_second weights)
      + rate_term (disk requests) (per_disk_byte_second weights))"

definition runtime_seconds_ceil :: "duration \<Rightarrow> u64" where
  "runtime_seconds_ceil runtime =
     (let micros = nat (max 0 (dur_micros runtime)) in word_of_nat ((micros + 999999) div 1000000))"

definition cost_from_rate :: "u64 \<Rightarrow> u64 \<Rightarrow> priority_multiplier \<Rightarrow> cost_units" where
  "cost_from_rate rate runtime_seconds multiplier =
     sat_word (sat_u128 (sat_u128 (unat rate * unat runtime_seconds) * unat multiplier) div 2 ^ 32)"

definition job_cost :: "resources \<Rightarrow> cost_weights \<Rightarrow> u64 \<Rightarrow> priority_multiplier \<Rightarrow> cost_units" where
  "job_cost requests weights runtime_seconds multiplier =
     cost_from_rate (resource_rate requests weights) runtime_seconds multiplier"

section \<open>Charges and true-up\<close>

record charge_interval =
  ci_seconds :: u64
  ci_paid :: u32
  ci_last_tranche :: cost_units
  ci_prior_charged_at :: timestamp

record charge_record =
  ch_amount :: cost_units
  ch_charged_at :: timestamp
  ch_refund_fraction_milli :: u32
  ch_interval :: "charge_interval option"

definition intervals_due :: "duration \<Rightarrow> u64 \<Rightarrow> u32" where
  "intervals_due elapsed interval_s =
     (if interval_s = 0 \<or> dur_micros elapsed < 0 then 0
      else let elapsed_s = nat (dur_micros elapsed) div 1000000 in
        sat_word (min (elapsed_s div unat interval_s + 1) (2 ^ 64 - 1)))"

datatype true_up = Refund cost_units | Surcharge cost_units

record settlement =
  st_actual_cost :: cost_units
  st_true_up :: true_up

definition refundable :: "charge_record \<Rightarrow> cost_units \<Rightarrow> bool \<Rightarrow> cost_units" where
  "refundable ch actual_cost retain =
     (let unused = sat_sub (ch_amount ch) actual_cost;
          f = (if retain then min (ch_refund_fraction_milli ch) FULL_REFUND_MILLI
               else FULL_REFUND_MILLI)
      in word_of_nat (unat unused * unat f div 1000))"

definition settle_true_up ::
  "charge_record \<Rightarrow> cost_units \<Rightarrow> timestamp \<Rightarrow> decay_policy \<Rightarrow> bool \<Rightarrow> true_up" where
  "settle_true_up ch actual_cost resolved_at policy retain =
     (if actual_cost \<le> ch_amount ch then
        (let r = refundable ch actual_cost retain in
         Refund (case ch_interval ch of
           None \<Rightarrow> decay_between policy r (ch_charged_at ch) resolved_at
         | Some i \<Rightarrow>
             (let recent = min r (ci_last_tranche i);
                  older = sat_sub r recent
              in sat_add (decay_between policy recent (ch_charged_at ch) resolved_at)
                   (decay_between policy older (ci_prior_charged_at i) resolved_at))))
      else Surcharge (sat_sub actual_cost (ch_amount ch)))"

section \<open>The usage accumulator\<close>

record usage_state =
  us_usage :: cost_units
  us_last_update :: timestamp

definition usage_new :: "timestamp \<Rightarrow> usage_state" where
  "usage_new created_at = \<lparr>us_usage = 0, us_last_update = created_at\<rparr>"

definition usage_touch :: "timestamp \<Rightarrow> decay_policy \<Rightarrow> usage_state \<Rightarrow> usage_state" where
  "usage_touch t policy s =
     \<lparr>us_usage = decay_between policy (us_usage s) (us_last_update s) t,
      us_last_update = max (us_last_update s) t\<rparr>"

definition usage_charge :: "cost_units \<Rightarrow> timestamp \<Rightarrow> decay_policy \<Rightarrow> usage_state \<Rightarrow> usage_state" where
  "usage_charge amount t policy s =
     (let s = usage_touch t policy s in s\<lparr>us_usage := sat_add (us_usage s) amount\<rparr>)"

definition usage_refund :: "cost_units \<Rightarrow> timestamp \<Rightarrow> decay_policy \<Rightarrow> usage_state \<Rightarrow> usage_state" where
  "usage_refund amount t policy s =
     (let s = usage_touch t policy s in s\<lparr>us_usage := sat_sub (us_usage s) amount\<rparr>)"

definition usage_settle :: "true_up \<Rightarrow> timestamp \<Rightarrow> decay_policy \<Rightarrow> usage_state \<Rightarrow> usage_state" where
  "usage_settle adjustment t policy s =
     (case adjustment of
        Refund amount \<Rightarrow> usage_refund amount t policy s
      | Surcharge amount \<Rightarrow> usage_charge amount t policy s)"

section \<open>Decay as an action of elapsed ticks\<close>

text \<open>
  What the accounting relies on: decaying is an action of the natural numbers on usage, it never
  increases usage, it is monotone, and it treats a sum at least as well as its parts, losing at
  most one unit per tick to rounding. The lemmas of the locale are about any such decay; the
  iterated fixed-point step of the source is the instance.
\<close>

locale tick_decay =
  fixes decay :: "u64 \<Rightarrow> nat \<Rightarrow> u64"
  assumes decay_zero: "decay u 0 = u"
    and decay_plus: "decay u (m + n) = decay (decay u m) n"
    and decay_tick_le: "unat (decay u 1) \<le> unat u"
    and decay_tick_super: "unat u + unat v = unat w \<Longrightarrow>
      unat (decay u 1) + unat (decay v 1) \<le> unat (decay w 1)"
    and decay_tick_sub: "unat u + unat v + k = unat w \<Longrightarrow>
      unat (decay w 1) \<le> unat (decay u 1) + unat (decay v 1) + k + 1"
begin

lemma decay_Suc: "decay u (Suc n) = decay (decay u n) 1"
  by (simp only: decay_plus [symmetric] Suc_eq_plus1)

lemma decay_le: "unat (decay u n) \<le> unat u"
proof (induction n)
  case (Suc n)
  then show ?case unfolding decay_Suc by (rule order_trans [OF decay_tick_le])
qed (simp add: decay_zero)

lemma decay_antimono: "m \<le> n \<Longrightarrow> unat (decay u n) \<le> unat (decay u m)"
  by (metis decay_le decay_plus le_add_diff_inverse)

lemma decay_zero_stays: "decay 0 n = 0"
  by (rule word_nat_eqI) (use decay_le [of 0 n] in simp)

lemma decay_tick_mono:
  assumes "unat u \<le> unat w"
  shows "unat (decay u 1) \<le> unat (decay w 1)"
proof -
  have "unat u + unat (w - u) = unat w" using assms by (simp add: unat_sub word_le_nat_alt)
  from decay_tick_super [OF this] show ?thesis by linarith
qed

lemma decay_mono: "unat u \<le> unat w \<Longrightarrow> unat (decay u n) \<le> unat (decay w n)"
  by (induction n) (simp_all only: decay_zero decay_Suc decay_tick_mono)

lemma decay_super:
  assumes "unat u + unat v \<le> unat w"
  shows "unat (decay u n) + unat (decay v n) \<le> unat (decay w n)"
proof (induction n)
  case (Suc n)
  let ?s = "word_of_nat (unat (decay u n) + unat (decay v n)) :: u64"
  have s: "unat ?s = unat (decay u n) + unat (decay v n)"
    by (rule unat_word_of_nat_id) (use Suc unat_u64_less [of "decay w n"] in simp)
  have "unat (decay (decay u n) 1) + unat (decay (decay v n) 1) \<le> unat (decay ?s 1)"
    using s by (intro decay_tick_super) simp
  also have "\<dots> \<le> unat (decay (decay w n) 1)"
    using Suc s by (intro decay_tick_mono) simp
  finally show ?case by (simp only: decay_Suc)
qed (use assms in \<open>simp add: decay_zero\<close>)

lemma decay_sub:
  assumes "unat u + unat v = unat w"
  shows "unat (decay w n) \<le> unat (decay u n) + unat (decay v n) + n"
proof (induction n)
  case (Suc n)
  define k where "k = unat (decay w n) - (unat (decay u n) + unat (decay v n))"
  have "unat (decay u n) + unat (decay v n) \<le> unat (decay w n)"
    by (rule decay_super) (simp only: assms)
  then have "unat (decay u n) + unat (decay v n) + k = unat (decay w n)" "k \<le> n"
    using Suc by (simp_all add: k_def)
  with decay_tick_sub [OF this(1)] show ?case unfolding decay_Suc by linarith
qed (use assms in \<open>simp add: decay_zero\<close>)

end

lemma mul_div_le: "l \<le> c \<Longrightarrow> u * l div c \<le> (u :: nat)"
  by (metis div_le_mono div_mult_self_is_m le0 le_less mult_le_mono2 div_by_0)

lemma decay_product_le: "unat u * unat (lam :: u64) div 2 ^ 64 \<le> unat u"
  by (rule mul_div_le) (use unat_u64_less [of lam] in simp)

lemma unat_decay_step: "unat (decay_step lam u) = unat u * unat lam div 2 ^ 64"
  unfolding decay_step_def
  by (rule unat_word_of_nat_id) (use decay_product_le [of u lam] unat_u64_less [of u] in simp)

lemma decay_step_le: "unat (decay_step lam u) \<le> unat u"
  unfolding unat_decay_step by (rule decay_product_le)

lemma decay_step_0 [simp]: "decay_step lam 0 = 0"
  by (simp add: decay_step_def)

lemma decay_loop_0 [simp]: "decay_loop lam 0 n = 0"
  by (cases n) simp_all

lemma decay_loop_Suc: "decay_loop lam u (Suc n) = decay_loop lam (decay_step lam u) n"
  by simp

lemma decay_loop_add: "decay_loop lam u (m + n) = decay_loop lam (decay_loop lam u m) n"
  by (induction m arbitrary: u) simp_all

lemma decay_loop_numeral [om_eval]:
  "decay_loop lam u (numeral k) = decay_loop lam (decay_step lam u) (pred_numeral k)"
  by (simp add: numeral_eq_Suc)

lemma decay_loop_1: "decay_loop lam u 1 = decay_step lam u"
  by simp

lemma decay_step_sub:
  assumes "unat u + unat v + k = unat w"
  shows "unat (decay_step lam w) \<le> unat (decay_step lam u) + unat (decay_step lam v) + k + 1"
proof -
  let ?l = "unat lam" and ?c = "2 ^ 64 :: nat"
  have "k * ?l \<le> k * ?c" using unat_u64_less [of lam] by (intro mult_le_mono) simp_all
  moreover have "unat w * ?l = unat u * ?l + unat v * ?l + k * ?l"
    unfolding assms [symmetric] distrib_right ..
  ultimately have "unat w * ?l \<le> unat u * ?l + unat v * ?l + k * ?c"
    by linarith
  then have "unat w * ?l div ?c \<le> (unat u * ?l + unat v * ?l + k * ?c) div ?c"
    by (rule div_le_mono)
  also have "\<dots> \<le> unat u * ?l div ?c + unat v * ?l div ?c + k + 1"
    by (rule div_add_ge)
  finally show ?thesis by (simp only: unat_decay_step)
qed

interpretation dl: tick_decay "decay_loop lam" for lam
proof
  show "decay_loop lam u (m + n) = decay_loop lam (decay_loop lam u m) n" for u m n
    by (rule decay_loop_add)
  show "unat (decay_loop lam u 1) \<le> unat u" for u
    by (simp only: decay_loop_1 decay_step_le)
  show "unat (decay_loop lam u 1) + unat (decay_loop lam v 1) \<le> unat (decay_loop lam w 1)"
    if "unat u + unat v = unat w" for u v w
    unfolding decay_loop_1 unat_decay_step that [symmetric] distrib_right by (rule div_add_le)
  show "unat (decay_loop lam w 1) \<le> unat (decay_loop lam u 1) + unat (decay_loop lam v 1) + k + 1"
    if "unat u + unat v + k = unat w" for u v w k
    using decay_step_sub [OF that] by (simp only: decay_loop_1)
qed simp

section \<open>Elapsed ticks\<close>

abbreviation policy_ok :: "decay_policy \<Rightarrow> bool" where
  "policy_ok p \<equiv> decay_validate p = Inr ()"

lemma policy_ok_iff:
  "policy_ok p \<longleftrightarrow> 0 < dur_micros (tick p) \<and> decay_per_tick p \<le> MAX_DECAY_PER_TICK"
  by (auto simp: decay_validate_def dur_is_positive_def)

lemma default_policy_ok: "policy_ok DEFAULT_DECAY_POLICY"
  by (simp add: policy_ok_iff DEFAULT_DECAY_POLICY_def MAX_DECAY_PER_TICK_def om_eval)

lemma div_euclid_between:
  assumes "1 \<le> b" "lo \<le> a" "a \<le> hi" "lo \<le> 0" "0 \<le> hi"
  shows "lo \<le> div_euclid a b" "div_euclid a b \<le> hi"
proof -
  have "lo * b \<le> lo" "hi \<le> hi * b"
    using assms(1,4,5) by (simp_all add: mult_le_cancel_left1 mult_le_cancel_left2)
  then have "lo * b div b \<le> a div b" "a div b \<le> hi * b div b"
    using assms by (intro zdiv_mono1; linarith)+
  then show "lo \<le> div_euclid a b" "div_euclid a b \<le> hi"
    using assms(1) by (simp_all add: div_euclid_def)
qed

lemma tick_index_between:
  "0 < dur_micros (tick p) \<Longrightarrow> MIN_MICROS \<le> tick_index p t \<and> tick_index p t \<le> MAX_MICROS"
  using div_euclid_between [of "dur_micros (tick p)" MIN_MICROS "ts_micros t" MAX_MICROS]
    ts_micros_bounds [of t]
  by (simp add: tick_index_def time_const_defs)

lemma tick_index_mono:
  "0 < dur_micros (tick p) \<Longrightarrow> s \<le> t \<Longrightarrow> tick_index p s \<le> tick_index p t"
  by (simp add: tick_index_def div_euclid_def zdiv_mono1 ts_cmp)

lemma unat_elapsed_ticks:
  assumes "0 < dur_micros (tick p)"
  shows "unat (elapsed_ticks p from to) = nat (tick_index p to - tick_index p from)"
proof -
  let ?d = "tick_index p to - tick_index p from"
  have b: "I64_MIN \<le> ?d" "?d \<le> I64_MAX"
    using tick_index_between [OF assms, of to] tick_index_between [OF assms, of "from"]
    by (simp_all add: time_const_defs)
  have "uint (word_of_int (max 0 ?d) :: u64) = max 0 ?d"
    using b by (simp add: uint_word_of_int take_bit_int_eq_self I64_MAX_def)
  then show ?thesis
    unfolding elapsed_ticks_def i64_sat_id [OF b] by (simp only: unat_eq_nat_uint)
qed

lemma decay_between_eq:
  "0 < dur_micros (tick p) \<Longrightarrow>
     decay_between p u from to = decay_loop (decay_per_tick p) u (nat (tick_index p to - tick_index p from))"
  by (simp add: decay_between_def decay_ticks_def unat_elapsed_ticks)

lemma decay_between_le: "unat (decay_between p u from to) \<le> unat u"
  by (simp add: decay_between_def decay_ticks_def dl.decay_le)

lemma decay_between_past:
  "0 < dur_micros (tick p) \<Longrightarrow> to \<le> from \<Longrightarrow> decay_between p u from to = u"
  using tick_index_mono [of p to "from"] by (simp add: decay_between_eq)

lemma decay_between_trans:
  assumes p: "0 < dur_micros (tick p)" and "r \<le> s" "s \<le> t"
  shows "decay_between p (decay_between p u r s) s t = decay_between p u r t"
proof -
  have "nat (tick_index p t - tick_index p r) =
      nat (tick_index p s - tick_index p r) + nat (tick_index p t - tick_index p s)"
    using tick_index_mono [OF p assms(2)] tick_index_mono [OF p assms(3)] by simp
  then show ?thesis by (simp add: decay_between_eq [OF p] dl.decay_plus)
qed

lemma touch_now [simp]: "usage_touch (us_last_update s) p s = s"
  by (simp add: usage_touch_def decay_between_def decay_ticks_def elapsed_ticks_def i64_sat_def I64_MIN_def I64_MAX_def)

lemma touch_touch:
  assumes p: "0 < dur_micros (tick p)"
  shows "usage_touch t p (usage_touch r p s) = usage_touch (max r t) p s"
proof -
  consider "t \<le> us_last_update s" | "us_last_update s < t" "t \<le> r" | "us_last_update s < t" "r < t"
    by fastforce
  then show ?thesis
  proof cases
    case 1
    then show ?thesis
      by (cases "r \<le> us_last_update s") (auto simp: usage_touch_def decay_between_past [OF p] max_def)
  next
    case 2
    then show ?thesis by (auto simp: usage_touch_def decay_between_past [OF p] max_def)
  next
    case 3
    then show ?thesis
      by (cases "r \<le> us_last_update s")
        (auto simp: usage_touch_def decay_between_past [OF p] decay_between_trans [OF p] max_def)
  qed
qed

text \<open>
  C20: lazy decay is exact and immune to clock skew. Bringing an accumulator forward through any
  sequence of command timestamps, in any order and with any regressions, leaves it exactly where a
  single touch at the latest of them would: no decay interval is lost to rounding, applied twice,
  or rewound.
\<close>

theorem touch_path_independent:
  assumes "policy_ok p"
  shows "fold (\<lambda>t. usage_touch t p) ts s = usage_touch (fold max ts (us_last_update s)) p s"
proof (induction ts rule: rev_induct)
  case (snoc t ts)
  then show ?case using assms by (simp add: policy_ok_iff touch_touch max.commute)
qed simp

theorem touch_path_independent_witness:
  "policy_ok DEFAULT_DECAY_POLICY \<and>
   fold (\<lambda>t. usage_touch t DEFAULT_DECAY_POLICY) [ts_of 120000000, ts_of 5, ts_of 60000000]
     \<lparr>us_usage = 1000, us_last_update = ts_of 0\<rparr> =
   \<lparr>us_usage = 998, us_last_update = ts_of 120000000\<rparr>"
proof -
  have "usage_touch (ts_of 120000000) DEFAULT_DECAY_POLICY \<lparr>us_usage = 1000, us_last_update = ts_of 0\<rparr> =
      \<lparr>us_usage = 998, us_last_update = ts_of 120000000\<rparr>"
    using default_policy_ok
    by (simp add: usage_touch_def policy_ok_iff decay_between_eq DEFAULT_DECAY_POLICY_def tick_index_def
        div_euclid_def om_eval decay_step_def max_def)
  with touch_path_independent [OF default_policy_ok, of "[ts_of 120000000, ts_of 5, ts_of 60000000]"
      "\<lparr>us_usage = 1000, us_last_update = ts_of 0\<rparr>"]
  show ?thesis using default_policy_ok by (simp add: om_eval max_def)
qed

section \<open>A bounded number of ticks clears any usage\<close>

lemma decay_loop_real_le:
  "real (unat (decay_loop lam u n)) \<le> real (unat u) * (real (unat lam) / 2 ^ 64) ^ n"
proof (induction n arbitrary: u)
  case (Suc n)
  have "real (unat (decay_step lam u)) \<le> real (unat u * unat lam) / real (2 ^ 64)"
    unfolding unat_decay_step by (rule of_nat_div_le_of_nat)
  then have "real (unat (decay_step lam u)) * (real (unat lam) / 2 ^ 64) ^ n
      \<le> real (unat u) * (real (unat lam) / 2 ^ 64) * (real (unat lam) / 2 ^ 64) ^ n"
    by (intro mult_right_mono) (simp_all del: of_nat_unat)
  with Suc [of "decay_step lam u"] show ?case
    unfolding decay_loop_Suc by (simp add: ac_simps)
qed simp

lemma max_decay_factor:
  assumes "lam \<le> MAX_DECAY_PER_TICK"
  shows "real (unat lam) / 2 ^ 64 \<le> exp (- (1 / 65536))"
proof -
  have "unat lam \<le> 18446462598732840960"
    using assms by (simp add: MAX_DECAY_PER_TICK_def word_le_nat_alt)
  then have "real (unat lam) \<le> 18446462598732840960"
    unfolding of_nat_numeral [symmetric, where 'a = real] of_nat_le_iff .
  then have "real (unat lam) / 2 ^ 64 \<le> 1 + - (1 / 65536)" by (simp del: of_nat_unat)
  also have "\<dots> \<le> exp (- (1 / 65536))" by (rule exp_ge_add_one_self)
  finally show ?thesis .
qed

lemma two_le_exp: "(2 :: real) \<le> exp (25 / 36)"
proof -
  have "(2 :: real) \<le> (1 + 25 / 1152 + (25 / 1152)\<^sup>2 / 2) ^ 32"
    by (simp add: power2_eq_square power_divide)
  also have "\<dots> \<le> exp (25 / 1152) ^ 32"
    by (intro power_mono exp_lower_Taylor_quadratic) simp_all
  also have "\<dots> = exp (25 / 36)"
    by (simp add: exp_of_nat_mult [symmetric])
  finally show ?thesis .
qed

lemma decay_loop_reaches_zero:
  assumes "lam \<le> MAX_DECAY_PER_TICK" "2912712 \<le> n"
  shows "decay_loop lam u n = 0"
proof -
  have "real (unat (decay_loop lam u n)) \<le> real (unat u) * exp (- (1 / 65536)) ^ n"
    by (rule order_trans [OF decay_loop_real_le])
      (intro mult_left_mono power_mono max_decay_factor assms divide_nonneg_nonneg of_nat_0_le_iff; simp)
  also have "\<dots> = real (unat u) * exp (- (real n / 65536))"
    by (simp add: exp_of_nat_mult [symmetric])
  also have "\<dots> < 2 ^ 64 * exp (- (real n / 65536))"
    using unat_u64_less [of u] by (intro mult_strict_right_mono) (simp_all del: of_nat_unat)
  also have "\<dots> \<le> exp (25 / 36) ^ 64 * exp (- (real n / 65536))"
    by (intro mult_right_mono power_mono two_le_exp) simp_all
  also have "\<dots> = exp (400 / 9 - real n / 65536)"
    by (simp add: exp_of_nat_mult [symmetric] exp_add [symmetric])
  also have "\<dots> \<le> exp 0"
    using assms(2) by (subst exp_le_cancel_iff) linarith
  finally show ?thesis by (intro word_nat_eqI) (simp del: of_nat_unat)
qed

text \<open>
  C21: the work of a lazy-decay touch is bounded. Under every policy that passes validation, any
  usage has decayed to zero after about 2.9 million ticks, where the loop stops early.
\<close>

theorem decay_reaches_zero:
  assumes "policy_ok p" "2912712 \<le> unat ticks"
  shows "decay_ticks p usage ticks = 0"
  using assms by (simp add: decay_ticks_def policy_ok_iff decay_loop_reaches_zero)

theorem decay_reaches_zero_witness: "decay_ticks DEFAULT_DECAY_POLICY (- 1) 2912712 = 0"
  by (rule decay_reaches_zero) (simp_all add: default_policy_ok)

section \<open>Settling a charge\<close>

lemma unat_FULL_REFUND_MILLI [simp]: "unat FULL_REFUND_MILLI = 1000"
  by (simp add: FULL_REFUND_MILLI_def)

lemma unat_refundable:
  "unat (refundable ch actual retain) =
     (unat (ch_amount ch) - unat actual) *
     (if retain then min (unat (ch_refund_fraction_milli ch)) 1000 else 1000) div 1000"
  (is "_ = ?u * ?f div 1000")
proof -
  have "?u * ?f div 1000 \<le> ?u" by (rule mul_div_le) simp
  then have "?u * ?f div 1000 < 2 ^ 64"
    using unat_u64_less [of "ch_amount ch"] by simp
  then have "unat (word_of_nat (?u * ?f div 1000) :: u64) = ?u * ?f div 1000"
    by (intro unat_word_of_nat_id) simp
  moreover have "refundable ch actual retain = word_of_nat (?u * ?f div 1000)"
    by (simp add: refundable_def Let_def u64_nat)
  ultimately show ?thesis by simp
qed

lemma refundable_le: "unat (refundable ch actual retain) \<le> unat (ch_amount ch) - unat actual"
  unfolding unat_refundable by (rule mul_div_le) simp

lemma refundable_full: "unat (refundable ch actual False) = unat (ch_amount ch) - unat actual"
  by (simp add: unat_refundable)

lemma true_up_refund_le:
  assumes "actual \<le> ch_amount ch" "settle_true_up ch actual t p retain = Refund r"
  shows "unat r \<le> unat (refundable ch actual retain)"
proof (cases "ch_interval ch")
  case None
  then show ?thesis
    using assms decay_between_le [of p] by (auto simp: settle_true_up_def Let_def)
next
  case (Some i)
  let ?r = "refundable ch actual retain" and ?l = "ci_last_tranche i"
  have "unat (decay_between p (min ?r ?l) (ch_charged_at ch) t) \<le> min (unat ?r) (unat ?l)"
    "unat (decay_between p (sat_sub ?r (min ?r ?l)) (ci_prior_charged_at i) t)
      \<le> unat ?r - min (unat ?r) (unat ?l)"
    using decay_between_le [of p "min ?r ?l"] decay_between_le [of p "sat_sub ?r (min ?r ?l)"]
    by (simp_all add: u64_nat)
  then show ?thesis
    using assms Some by (auto simp: settle_true_up_def Let_def unat_sat_add)
qed

text \<open>
  C22: a true-up closes the gap between the charge and the actual cost and no more. A refund never
  exceeds the unused part of the charge, whatever the retention fraction, the tranches and the
  resolution time; a surcharge is exactly the part of the cost beyond the charge, and is made only
  when there is one.
\<close>

theorem true_up_bounded:
  "case settle_true_up ch actual resolved_at p retain of
     Refund r \<Rightarrow> unat actual + unat r \<le> unat (ch_amount ch)
   | Surcharge x \<Rightarrow> x \<noteq> 0 \<and> unat (ch_amount ch) + unat x = unat actual"
proof (cases "actual \<le> ch_amount ch")
  case True
  then obtain r where r: "settle_true_up ch actual resolved_at p retain = Refund r"
    by (simp add: settle_true_up_def Let_def)
  have "unat r \<le> unat (ch_amount ch) - unat actual"
    by (rule order_trans [OF true_up_refund_le [OF True r] refundable_le])
  with r True show ?thesis by (simp add: word_le_nat_alt)
next
  case False
  then have "unat (sat_sub actual (ch_amount ch)) = unat actual - unat (ch_amount ch)"
    "unat (ch_amount ch) < unat actual"
    by (simp_all add: u64_nat)
  with False show ?thesis by (auto simp: settle_true_up_def)
qed

text \<open>
  C19: a refund leaves usage as if only the kept part had been charged. For a charge made at once (not by
  intervals) that covers the actual cost, with stamps in chronological order and no saturation of the
  accumulator at the charge: charged up front and trued up later, the accumulator stands where a charge of
  only the kept part (the amount without the refundable part) would have left it, and above it by at most
  one unit per elapsed tick of rounding. So such a refund never eats into usage that other jobs put there,
  and when the charge is fully refundable the kept part is the actual cost.
\<close>

theorem settle_as_if_charged_kept:
  fixes s ch actual retain
  defines "kept \<equiv> ch_amount ch - refundable ch actual retain"
    and "t0 \<equiv> ch_charged_at ch"
  assumes p: "policy_ok p" and chron: "us_last_update s \<le> t0" "t0 \<le> t1"
    and single: "ch_interval ch = None" and used: "actual \<le> ch_amount ch"
    and room: "unat (us_usage (usage_touch t0 p s)) + unat (ch_amount ch) < 2 ^ 64"
  shows "let settled = us_usage (usage_settle (settle_true_up ch actual t1 p retain) t1 p
             (usage_charge (ch_amount ch) t0 p s));
           ideal = us_usage (usage_touch t1 p (usage_charge kept t0 p s))
         in unat ideal \<le> unat settled \<and>
            unat settled \<le> unat ideal + unat (elapsed_ticks p t0 t1) \<and>
            (\<not> retain \<longrightarrow> kept = actual)"
proof -
  have tick: "0 < dur_micros (tick p)" using p by (simp add: policy_ok_iff)
  let ?r = "refundable ch actual retain" and ?lam = "decay_per_tick p"
  let ?n = "unat (elapsed_ticks p t0 t1)" and ?u = "us_usage (usage_touch t0 p s)"
  have r: "unat ?r \<le> unat (ch_amount ch)"
    using refundable_le [of ch actual retain] by simp
  then have kept: "unat kept = unat (ch_amount ch) - unat ?r"
    by (simp add: kept_def unat_sub word_le_nat_alt)
  have sums: "unat (sat_add ?u (ch_amount ch)) = unat ?u + unat (ch_amount ch)"
    "unat (sat_add ?u kept) = unat ?u + unat kept"
    using room kept by (simp_all add: unat_sat_add)
  then have split: "unat (sat_add ?u kept) + unat ?r = unat (sat_add ?u (ch_amount ch))"
    using kept r by simp
  have settled: "us_usage (usage_settle (settle_true_up ch actual t1 p retain) t1 p
      (usage_charge (ch_amount ch) t0 p s)) =
      sat_sub (decay_loop ?lam (sat_add ?u (ch_amount ch)) ?n) (decay_loop ?lam ?r ?n)"
    using chron used single
    by (simp add: usage_settle_def settle_true_up_def usage_refund_def usage_charge_def usage_touch_def
        Let_def t0_def decay_between_def decay_ticks_def max_def)
  have ideal: "us_usage (usage_touch t1 p (usage_charge kept t0 p s)) =
      decay_loop ?lam (sat_add ?u kept) ?n"
    using chron by (simp add: usage_charge_def usage_touch_def Let_def decay_between_def decay_ticks_def max_def)
  have "unat kept = unat actual" if "\<not> retain"
    using that used kept refundable_full [of ch actual] by (simp add: word_le_nat_alt)
  then show ?thesis
    unfolding Let_def settled ideal unat_sat_sub
    using dl.decay_super [of "sat_add ?u kept" ?r "sat_add ?u (ch_amount ch)" ?lam ?n]
      dl.decay_sub [OF split, of ?lam ?n] split
    by (auto intro: word_nat_eqI)
qed

theorem settle_as_if_charged_kept_witness:
  "\<exists>ch. ch_amount ch = 4000 \<and> refundable ch 1000 True = 2250 \<and>
     (let settled = us_usage (usage_settle (settle_true_up ch 1000 (ts_of 90000000) DEFAULT_DECAY_POLICY True)
            (ts_of 90000000) DEFAULT_DECAY_POLICY (usage_charge 4000 (ts_of 60000000) DEFAULT_DECAY_POLICY
              (usage_new (ts_of 0))))
      in unat settled \<le> 1750 + unat (elapsed_ticks DEFAULT_DECAY_POLICY (ts_of 60000000) (ts_of 90000000)))"
proof (intro exI conjI)
  let ?ch = "\<lparr>ch_amount = 4000, ch_charged_at = ts_of 60000000, ch_refund_fraction_milli = 750,
    ch_interval = None\<rparr>"
  let ?p = DEFAULT_DECAY_POLICY and ?s = "usage_new (ts_of 0)"
  show r: "refundable ?ch 1000 True = 2250"
    by (simp add: refundable_def FULL_REFUND_MILLI_def sat_sub_def)
  have u: "us_usage (usage_touch (ts_of 60000000) ?p ?s) = 0"
    by (simp add: usage_touch_def usage_new_def decay_between_def decay_ticks_def)
  have "us_usage (usage_charge 1750 (ts_of 60000000) ?p ?s) = 1750"
    using u by (simp add: usage_charge_def Let_def)
  then have "unat (us_usage (usage_touch (ts_of 90000000) ?p (usage_charge 1750 (ts_of 60000000) ?p ?s))) \<le> 1750"
    using decay_between_le [of ?p 1750] by (simp add: usage_touch_def)
  with settle_as_if_charged_kept [of ?p ?s ?ch "ts_of 90000000" 1000 True] r u
  show "let settled = us_usage (usage_settle (settle_true_up ?ch 1000 (ts_of 90000000) ?p True)
            (ts_of 90000000) ?p (usage_charge 4000 (ts_of 60000000) ?p ?s))
      in unat settled \<le> 1750 + unat (elapsed_ticks ?p (ts_of 60000000) (ts_of 90000000))"
    by (simp add: Let_def default_policy_ok) (simp add: usage_new_def om_eval)
qed simp

section \<open>Prices are monotone\<close>

lemma sat_word_mono: "m \<le> n \<Longrightarrow> (sat_word m :: 'a::len word) \<le> sat_word n"
  by (simp add: u64_nat min.coboundedI1)

lemma sat_u128_mono: "m \<le> n \<Longrightarrow> sat_u128 m \<le> sat_u128 n"
  by (simp add: sat_u128_def min.coboundedI1)

lemma cost_from_rate_mono:
  assumes "rate \<le> rate'" "secs \<le> secs'" "mul \<le> mul'"
  shows "cost_from_rate rate secs mul \<le> cost_from_rate rate' secs' mul'"
  unfolding cost_from_rate_def
  using assms by (intro sat_word_mono div_le_mono sat_u128_mono mult_le_mono) (simp_all add: word_le_nat_alt)

lemma resource_rate_mono:
  assumes "fits_within r r'"
  shows "resource_rate r w \<le> resource_rate r' w"
  unfolding resource_rate_def rate_term_def
  using assms by (intro sat_word_mono div_le_mono add_mono mult_le_mono)
    (simp_all add: fits_within_def word_le_nat_alt)

text \<open>
  C29: a larger request, a longer runtime or a higher priority never costs less, also where the
  products saturate.
\<close>

theorem job_cost_mono:
  assumes "fits_within r r'" "secs \<le> secs'" "mul \<le> mul'"
  shows "job_cost r w secs mul \<le> job_cost r' w secs' mul'"
  unfolding job_cost_def using assms by (intro cost_from_rate_mono resource_rate_mono)

theorem job_cost_mono_witness:
  "job_cost \<lparr>cpu_millis = 1000, memory = 1, disk = 0\<rparr> \<lparr>per_cpu_milli_second = 2 ^ 32,
      per_memory_byte_second = 5, per_disk_byte_second = 0\<rparr> 60 MULTIPLIER_ONE
   \<le> job_cost \<lparr>cpu_millis = 2000, memory = 1, disk = 0\<rparr> \<lparr>per_cpu_milli_second = 2 ^ 32,
      per_memory_byte_second = 5, per_disk_byte_second = 0\<rparr> 90 MULTIPLIER_ONE"
  by (rule job_cost_mono) (simp_all add: fits_within_def)

end
