(* ===== verification/Lifecycle.thy ===== *)
theory Lifecycle
  imports Validation Quota_Arith
begin

text \<open>
  The domain types of \<open>coppice-core\<close>: jobs, attempts, allocations, nodes and preemption
  declarations, with the legal transition tables of the three state machines (\<open>job.rs\<close>,
  \<open>attempt.rs\<close>, \<open>allocation.rs\<close>, \<open>node.rs\<close>, \<open>preemption.rs\<close>). Field names carry a prefix per
  record, since record fields are global.
\<close>

section \<open>Preemption declarations\<close>

datatype notice_signal = Sighup | Sigint | Sigusr1 | Sigusr2 | Sigterm

definition notice_signals :: "notice_signal list" where
  "notice_signals = [Sighup, Sigint, Sigusr1, Sigusr2, Sigterm]"

fun signal_name :: "notice_signal \<Rightarrow> string" where
  "signal_name Sighup = ''SIGHUP''"
| "signal_name Sigint = ''SIGINT''"
| "signal_name Sigusr1 = ''SIGUSR1''"
| "signal_name Sigusr2 = ''SIGUSR2''"
| "signal_name Sigterm = ''SIGTERM''"

definition signal_from_str :: "string \<Rightarrow> notice_signal option" where
  "signal_from_str s = find (\<lambda>sig. signal_name sig = s) notice_signals"

lemma signal_round_trip: "signal_from_str (signal_name sig) = Some sig"
  by (cases sig) (simp_all add: signal_from_str_def notice_signals_def)

record preemption_spec =
  ps_preemptible :: bool
  ps_notice :: "duration option"
  ps_notice_signal :: notice_signal

datatype notice_error = BelowFloor int int | AboveCap int int

definition validate_notice :: "duration \<Rightarrow> duration \<Rightarrow> duration \<Rightarrow> notice_error + unit" where
  "validate_notice notice lo cap =
     (if notice < lo then Inl (BelowFloor (dur_as_secs notice) (dur_as_secs lo))
      else if notice > cap then Inl (AboveCap (dur_as_secs notice) (dur_as_secs cap))
      else Inr ())"

definition resolve_notice :: "duration option \<Rightarrow> duration \<Rightarrow> duration" where
  "resolve_notice declared lo = (case declared of None \<Rightarrow> lo | Some n \<Rightarrow> n)"

section \<open>Jobs\<close>

record retry_policy =
  max_retries :: u32
  retry_user_errors :: bool

record abort_request =
  ar_reason :: "string option"
  ar_requested_at :: timestamp

record job =
  j_id :: job_id
  j_image :: string
  j_command :: "string list"
  j_entrypoint :: "string list option"
  j_env :: job_env
  j_requests :: resources
  j_priority :: int
  j_max_runtime :: "duration option"
  j_quota_entity :: quota_entity_id
  j_retry :: retry_policy
  j_abort_requested :: "abort_request option"
  j_submitted_by :: "string option"
  j_metadata :: job_metadata
  j_preemption :: preemption_spec

datatype job_state =
    Submitted
  | Accepted
  | Queued
  | Attempting attempt_id
  | Succeeded
  | Failed
  | JobAborted

fun job_terminal :: "job_state \<Rightarrow> bool" where
  "job_terminal Succeeded = True"
| "job_terminal Failed = True"
| "job_terminal JobAborted = True"
| "job_terminal _ = False"

fun state_attempt :: "job_state \<Rightarrow> attempt_id option" where
  "state_attempt (Attempting a) = Some a"
| "state_attempt _ = None"

fun job_may_transition :: "job_state \<Rightarrow> job_state \<Rightarrow> bool" where
  "job_may_transition Submitted Accepted = True"
| "job_may_transition Accepted Queued = True"
| "job_may_transition Queued (Attempting _) = True"
| "job_may_transition (Attempting _) Succeeded = True"
| "job_may_transition (Attempting _) Failed = True"
| "job_may_transition (Attempting _) JobAborted = True"
| "job_may_transition (Attempting _) Queued = True"
| "job_may_transition Submitted JobAborted = True"
| "job_may_transition Accepted JobAborted = True"
| "job_may_transition Queued JobAborted = True"
| "job_may_transition _ _ = False"

section \<open>Attempts\<close>

datatype preempt_reason =
    Priority job_id
  | Relocation job_id
  | DrainReason
  | Interruption

fun reason_for_job :: "preempt_reason \<Rightarrow> job_id option" where
  "reason_for_job (Priority j) = Some j"
| "reason_for_job (Relocation j) = Some j"
| "reason_for_job DrainReason = None"
| "reason_for_job Interruption = None"

datatype attempt_outcome =
    Exited int
  | MemoryLimitExceeded
  | RuntimeLimitExceeded
  | DiskLimitExceeded
  | OutcomeAborted
  | Revoked
  | PullFailed bool
  | StartFailed bool
  | NodeLost
  | AgentError
  | Preempted preempt_reason

datatype outcome_class = ClassSuccess | ClassUserError | ClassUserRequest | ClassPlatform

fun outcome_class_of :: "attempt_outcome \<Rightarrow> outcome_class" where
  "outcome_class_of (Exited code) = (if code = 0 then ClassSuccess else ClassUserError)"
| "outcome_class_of MemoryLimitExceeded = ClassUserError"
| "outcome_class_of RuntimeLimitExceeded = ClassUserError"
| "outcome_class_of DiskLimitExceeded = ClassUserError"
| "outcome_class_of OutcomeAborted = ClassUserRequest"
| "outcome_class_of (PullFailed user_error) = (if user_error then ClassUserError else ClassPlatform)"
| "outcome_class_of (StartFailed user_error) = (if user_error then ClassUserError else ClassPlatform)"
| "outcome_class_of Revoked = ClassPlatform"
| "outcome_class_of NodeLost = ClassPlatform"
| "outcome_class_of AgentError = ClassPlatform"
| "outcome_class_of (Preempted _) = ClassPlatform"

datatype attempt_state =
    AttAccruing
  | Ready
  | Dispatching
  | Running
  | Finalizing
  | Terminal attempt_outcome

fun attempt_terminal :: "attempt_state \<Rightarrow> bool" where
  "attempt_terminal (Terminal _) = True"
| "attempt_terminal _ = False"

fun attempt_may_transition :: "attempt_state \<Rightarrow> attempt_state \<Rightarrow> bool" where
  "attempt_may_transition (Terminal _) _ = False"
| "attempt_may_transition _ (Terminal _) = True"
| "attempt_may_transition AttAccruing Ready = True"
| "attempt_may_transition Ready Dispatching = True"
| "attempt_may_transition Dispatching Running = True"
| "attempt_may_transition Running Finalizing = True"
| "attempt_may_transition _ _ = False"

record attempt =
  att_id :: attempt_id
  att_job :: job_id
  att_allocation :: allocation_id
  att_node :: node_id
  att_state :: attempt_state

record acknowledged =
  ack_notified_at :: timestamp
  ack_deadline :: timestamp
  ack_notice_shortfall :: duration

record preemption =
  pre_reason :: preempt_reason
  pre_requested_at :: timestamp
  pre_acknowledged :: "acknowledged option"

section \<open>Allocations\<close>

datatype allocation_state = Accruing | Funded | Active | Released

fun allocation_terminal :: "allocation_state \<Rightarrow> bool" where
  "allocation_terminal Released = True"
| "allocation_terminal _ = False"

fun allocation_may_transition :: "allocation_state \<Rightarrow> allocation_state \<Rightarrow> bool" where
  "allocation_may_transition Accruing Funded = True"
| "allocation_may_transition Funded Active = True"
| "allocation_may_transition Accruing Released = True"
| "allocation_may_transition Funded Released = True"
| "allocation_may_transition Active Released = True"
| "allocation_may_transition _ _ = False"

record allocation =
  al_id :: allocation_id
  al_job :: job_id
  al_attempt :: attempt_id
  al_node :: node_id
  al_requested :: resources
  al_funded :: resources
  al_state :: allocation_state

section \<open>Nodes\<close>

record drain =
  dr_requested_at :: timestamp
  dr_deadline :: "timestamp option"

record host_facts =
  hf_os :: string
  hf_os_version :: string
  hf_kernel_version :: string
  hf_arch :: string
  hf_cpu_model :: string
  hf_physical_cores :: u32
  hf_logical_cores :: u32
  hf_total_memory_bytes :: u64
  hf_total_disk_bytes :: u64
  hf_agent_version :: string

record node =
  nd_id :: node_id
  nd_capacity :: resources
  nd_labels :: "(string, string) fmap"
  nd_drain :: "drain option"
  nd_service_addr :: "string option"
  nd_host_facts :: "host_facts option"
  nd_detected_capacity :: "resources option"
  nd_preemptible_only :: bool

section \<open>The transition tables\<close>

lemma job_terminal_no_transition: "job_terminal s \<Longrightarrow> \<not> job_may_transition s s'"
  by (cases s; cases s') simp_all

lemma attempt_terminal_no_transition: "attempt_terminal s \<Longrightarrow> \<not> attempt_may_transition s s'"
  by (cases s) simp_all

lemma attempt_to_terminal: "attempt_may_transition s (Terminal out) \<longleftrightarrow> \<not> attempt_terminal s"
  by (cases s) simp_all

lemma allocation_terminal_no_transition: "allocation_terminal s \<Longrightarrow> \<not> allocation_may_transition s s'"
  by (cases s; cases s') simp_all

fun_cases job_may_transition_elims: "job_may_transition s s'"
fun_cases attempt_may_transition_elims: "attempt_may_transition s s'"

end
