(* ===== verification/Quota_Tree.thy ===== *)
theory Quota_Tree
  imports Lifecycle
begin

text \<open>
  The quota-entity tree (\<open>QuotaEntity\<close> and the tree walks of \<open>StateMachine\<close> in
  \<open>coppice-state/src/lib.rs\<close>). The walks are functions of the \<open>quota_entities\<close> map, the only
  field they read. A \<open>while\<close> walk that stops after \<open>QUOTA_TREE_DEPTH_CAP\<close> steps is a recursion on
  the number of steps left, so the cap of the source is the fuel of the model.
\<close>

record quota_entity =
  qe_parent :: "quota_entity_id option"
  qe_name :: string
  qe_quota :: cost_units
  qe_usage :: usage_state
  qe_created_at :: timestamp
  qe_updated_at :: timestamp
  qe_preemptible :: bool

type_synonym quota_tree = "(quota_entity_id, quota_entity) fmap"

definition QUOTA_TREE_DEPTH_CAP :: nat where
  "QUOTA_TREE_DEPTH_CAP = 32"

definition parent_of :: "quota_tree \<Rightarrow> quota_entity_id \<Rightarrow> quota_entity_id option" where
  "parent_of es e = Option.bind (fmlookup es e) qe_parent"

fun chain_from :: "nat \<Rightarrow> quota_tree \<Rightarrow> quota_entity_id option \<Rightarrow> quota_entity_id list" where
  "chain_from 0 es cur = []"
| "chain_from (Suc n) es None = []"
| "chain_from (Suc n) es (Some e) = e # chain_from n es (parent_of es e)"

definition entity_chain :: "quota_tree \<Rightarrow> quota_entity_id \<Rightarrow> quota_entity_id list" where
  "entity_chain es e = chain_from QUOTA_TREE_DEPTH_CAP es (Some e)"

definition effective_preemptible :: "quota_tree \<Rightarrow> job \<Rightarrow> bool" where
  "effective_preemptible es j \<longleftrightarrow>
     ps_preemptible (j_preemption j) \<and>
     list_all (\<lambda>e. case fmlookup es e of None \<Rightarrow> True | Some q \<Rightarrow> qe_preemptible q)
       (entity_chain es (j_quota_entity j))"

fun names_from :: "nat \<Rightarrow> quota_tree \<Rightarrow> quota_entity_id option \<Rightarrow> string list" where
  "names_from 0 es cur = []"
| "names_from (Suc n) es None = []"
| "names_from (Suc n) es (Some e) =
     (case fmlookup es e of None \<Rightarrow> [] | Some q \<Rightarrow> qe_name q # names_from n es (qe_parent q))"

definition quota_entity_path :: "quota_tree \<Rightarrow> quota_entity_id \<Rightarrow> string option" where
  "quota_entity_path es e =
     (if has_key e es
      then Some (join_with PATH_SEPARATOR (rev (names_from QUOTA_TREE_DEPTH_CAP es (Some e))))
      else None)"

definition child_named :: "quota_tree \<Rightarrow> quota_entity_id option \<Rightarrow> string \<Rightarrow> quota_entity_id option" where
  "child_named es parent segment =
     map_option fst (find (\<lambda>(e, q). qe_parent q = parent \<and> qe_name q = segment) (entries es))"

fun resolve_from :: "nat \<Rightarrow> quota_tree \<Rightarrow> quota_entity_id option \<Rightarrow> string list \<Rightarrow> quota_entity_id option" where
  "resolve_from n es parent [] = parent"
| "resolve_from 0 es parent (segment # rest) = None"
| "resolve_from (Suc n) es parent (segment # rest) =
     (case child_named es parent segment of
        None \<Rightarrow> None
      | Some e \<Rightarrow> resolve_from n es (Some e) rest)"

definition resolve_quota_entity_path :: "quota_tree \<Rightarrow> quota_entity_path \<Rightarrow> quota_entity_id option" where
  "resolve_quota_entity_path es p = resolve_from QUOTA_TREE_DEPTH_CAP es None (path_segments p)"

definition resolve_quota_entity_ref :: "quota_tree \<Rightarrow> quota_entity_ref \<Rightarrow> quota_entity_id option" where
  "resolve_quota_entity_ref es r =
     (case r of RefId e \<Rightarrow> Some e | RefPath p \<Rightarrow> resolve_quota_entity_path es p)"

section \<open>Well-formed trees\<close>

text \<open>
  An entity is rooted within \<open>n\<close> levels when its parent chain reaches a root in at most \<open>n\<close> steps,
  every entity on the way being in the tree. A tree is well formed when every entity is rooted
  within the depth cap, names obey the segment grammar, and siblings have different names.
\<close>

fun rooted :: "nat \<Rightarrow> quota_tree \<Rightarrow> quota_entity_id \<Rightarrow> bool" where
  "rooted 0 es e = False"
| "rooted (Suc n) es e =
     (case fmlookup es e of
        None \<Rightarrow> False
      | Some q \<Rightarrow> (case qe_parent q of None \<Rightarrow> True | Some p \<Rightarrow> rooted n es p))"

definition tree_wf :: "externals \<Rightarrow> quota_tree \<Rightarrow> bool" where
  "tree_wf ext es \<longleftrightarrow>
     (\<forall>e q. fmlookup es e = Some q \<longrightarrow>
        rooted QUOTA_TREE_DEPTH_CAP es e \<and> validate_segment ext (qe_name q) = Inr ()) \<and>
     (\<forall>e q e' q'. fmlookup es e = Some q \<longrightarrow> fmlookup es e' = Some q' \<longrightarrow>
        qe_parent q = qe_parent q' \<longrightarrow> qe_name q = qe_name q' \<longrightarrow> e = e')"

lemma tree_wf_rooted: "tree_wf ext es \<Longrightarrow> fmlookup es e = Some q \<Longrightarrow> rooted QUOTA_TREE_DEPTH_CAP es e"
  by (auto simp: tree_wf_def)

lemma rooted_mono: "rooted n es e \<Longrightarrow> n \<le> m \<Longrightarrow> rooted m es e"
proof (induction n es e arbitrary: m rule: rooted.induct)
  case (2 n es e)
  then show ?case by (cases m) (auto split: option.splits)
qed simp

lemma rooted_parent:
  "rooted (Suc n) es e \<Longrightarrow> fmlookup es e = Some q \<Longrightarrow> qe_parent q = Some p \<Longrightarrow> rooted n es p"
  by simp

text \<open>On a well-formed tree the chain is complete: it ends at a root and visits nothing twice.\<close>

inductive ancestor :: "quota_tree \<Rightarrow> quota_entity_id \<Rightarrow> quota_entity_id \<Rightarrow> bool" for es where
  self: "ancestor es e e"
| up: "parent_of es e = Some p \<Longrightarrow> ancestor es p a \<Longrightarrow> ancestor es e a"

lemma chain_ancestor: "a \<in> set (chain_from n es (Some e)) \<Longrightarrow> ancestor es e a"
proof (induction n arbitrary: e)
  case (Suc n)
  show ?case
  proof (cases "parent_of es e")
    case None
    then show ?thesis using Suc.prems by (cases n) (auto intro: self)
  next
    case (Some p)
    then show ?thesis using Suc.prems Suc.IH [of p] by (auto intro: self up)
  qed
qed simp

lemma rooted_chain: "rooted n es e \<Longrightarrow> ancestor es e a \<Longrightarrow> a \<in> set (chain_from n es (Some e))"
proof (induction n arbitrary: e)
  case (Suc n)
  from Suc.prems(2) show ?case
  proof cases
    case (up p)
    then obtain q where q: "fmlookup es e = Some q" "qe_parent q = Some p"
      by (auto simp: parent_of_def bind_eq_Some_conv)
    with Suc.prems(1) have "rooted n es p" by simp
    with Suc.IH up(2) show ?thesis using up(1) by simp
  qed simp
qed simp

lemma chain_iff_ancestor: "rooted n es e \<Longrightarrow> a \<in> set (chain_from n es (Some e)) \<longleftrightarrow> ancestor es e a"
  using chain_ancestor rooted_chain by blast

lemma rooted_chain_stable:
  "rooted n es e \<Longrightarrow> n \<le> m \<Longrightarrow> chain_from m es (Some e) = chain_from n es (Some e)"
proof (induction n arbitrary: e m)
  case (Suc n)
  then obtain m' where m: "m = Suc m'" "n \<le> m'" by (cases m) auto
  show ?case
  proof (cases "parent_of es e")
    case None
    then show ?thesis using m by (cases n; cases m') simp_all
  next
    case (Some p)
    then have "rooted n es p"
      using Suc.prems(1) by (auto simp: parent_of_def split: option.splits)
    then show ?thesis using Suc.IH [of p m'] m Some by simp
  qed
qed simp

end
