(* ===== verification/Authz.thy ===== *)
theory Authz
  imports Quota_Tree
begin

text \<open>
  The authorization model of \<open>coppice-state/src/authz.rs\<close>: actors, role bindings and the decision
  procedure \<open>evaluate\<close>. A \<open>Denial\<close> keeps its principal, the attempted verb and which requirement
  was missing, as values instead of rendered text.
\<close>

record actor =
  ac_principal :: string
  ac_groups :: "string list"
  ac_operator_cert :: bool
  ac_auth_disabled :: bool

definition is_implicit_admin :: "actor \<Rightarrow> bool" where
  "is_implicit_admin a \<longleftrightarrow> ac_operator_cert a \<or> ac_auth_disabled a"

datatype role = Submitter | Operator | Admin

fun role_rank :: "role \<Rightarrow> nat" where
  "role_rank Submitter = 0"
| "role_rank Operator = 1"
| "role_rank Admin = 2"

instantiation role :: linorder
begin

definition less_eq_role :: "role \<Rightarrow> role \<Rightarrow> bool" where
  "less_eq_role r s \<longleftrightarrow> role_rank r \<le> role_rank s"

definition less_role :: "role \<Rightarrow> role \<Rightarrow> bool" where
  "less_role r s \<longleftrightarrow> role_rank r < role_rank s"

instance
proof
  fix r s :: role
  show "r \<le> s \<Longrightarrow> s \<le> r \<Longrightarrow> r = s"
    by (cases r; cases s) (simp_all add: less_eq_role_def)
qed (auto simp: less_eq_role_def less_role_def)

end

lemmas role_ord [om_eval] = less_eq_role_def less_role_def

datatype subject = Group string | Principal string

fun subject_name :: "subject \<Rightarrow> string" where
  "subject_name (Group g) = g"
| "subject_name (Principal p) = p"

record binding =
  bd_subject :: subject
  bd_role :: role
  bd_scope :: "quota_entity_id option"

datatype verb =
    VSubmit quota_entity_id
  | VAbort quota_entity_id "string option"
  | VUpdateJobMetadata quota_entity_id "string option"
  | VDrain
  | VConfigureQuotaEntity quota_entity_id "quota_entity_id option"
  | VUpdatePolicy
  | VUpdateAuthorization
  | VBumpClusterVersion

datatype requirement =
    SubmitterOverEntity
  | OwnershipOrOperatorOverEntity
  | UnscopedOperator
  | UnscopedAdmin
  | AdminOverEntity
  | AdminOverParent

record denial =
  dn_principal :: string
  dn_attempted :: verb
  dn_required :: requirement

definition denial_new :: "actor \<Rightarrow> verb \<Rightarrow> requirement \<Rightarrow> denial" where
  "denial_new a v req = \<lparr>dn_principal = ac_principal a, dn_attempted = v, dn_required = req\<rparr>"

definition matches_subject :: "subject \<Rightarrow> actor \<Rightarrow> bool" where
  "matches_subject sub a \<longleftrightarrow>
     (case sub of Principal p \<Rightarrow> ac_principal a = p | Group g \<Rightarrow> g \<in> set (ac_groups a))"

definition matching_bindings :: "binding list \<Rightarrow> actor \<Rightarrow> binding list" where
  "matching_bindings bs a = filter (\<lambda>b. matches_subject (bd_subject b) a) bs"

fun covers_loop :: "nat \<Rightarrow> quota_tree \<Rightarrow> quota_entity_id \<Rightarrow> quota_entity_id option \<Rightarrow> bool" where
  "covers_loop 0 es scope cur = False"
| "covers_loop (Suc n) es scope None = False"
| "covers_loop (Suc n) es scope (Some e) = (e = scope \<or> covers_loop n es scope (parent_of es e))"

definition covers :: "binding \<Rightarrow> quota_entity_id \<Rightarrow> quota_tree \<Rightarrow> bool" where
  "covers b target es =
     (case bd_scope b of
        None \<Rightarrow> True
      | Some scope \<Rightarrow> covers_loop QUOTA_TREE_DEPTH_CAP es scope (Some target))"

definition holds_over :: "binding list \<Rightarrow> quota_tree \<Rightarrow> actor \<Rightarrow> role \<Rightarrow> quota_entity_id \<Rightarrow> bool" where
  "holds_over bs es a r target \<longleftrightarrow>
     list_ex (\<lambda>b. r \<le> bd_role b \<and> matches_subject (bd_subject b) a \<and> covers b target es) bs"

definition holds_unscoped :: "binding list \<Rightarrow> actor \<Rightarrow> role \<Rightarrow> bool" where
  "holds_unscoped bs a r \<longleftrightarrow>
     list_ex (\<lambda>b. r \<le> bd_role b \<and> bd_scope b = None \<and> matches_subject (bd_subject b) a) bs"

definition owns :: "actor \<Rightarrow> string option \<Rightarrow> bool" where
  "owns a submitted_by \<longleftrightarrow> ac_principal a \<noteq> [] \<and> submitted_by = Some (ac_principal a)"

definition evaluate :: "binding list \<Rightarrow> quota_tree \<Rightarrow> actor \<Rightarrow> verb \<Rightarrow> denial + unit" where
  "evaluate bs es a v =
     (if is_implicit_admin a then Inr ()
      else case v of
        VSubmit e \<Rightarrow>
          if holds_over bs es a Submitter e then Inr () else Inl (denial_new a v SubmitterOverEntity)
      | VAbort e submitter \<Rightarrow>
          if owns a submitter then Inr ()
          else if holds_over bs es a Operator e then Inr ()
          else Inl (denial_new a v OwnershipOrOperatorOverEntity)
      | VUpdateJobMetadata e submitter \<Rightarrow>
          if owns a submitter then Inr ()
          else if holds_over bs es a Operator e then Inr ()
          else Inl (denial_new a v OwnershipOrOperatorOverEntity)
      | VDrain \<Rightarrow>
          if holds_unscoped bs a Operator then Inr () else Inl (denial_new a v UnscopedOperator)
      | VUpdatePolicy \<Rightarrow>
          if holds_unscoped bs a Admin then Inr () else Inl (denial_new a v UnscopedAdmin)
      | VUpdateAuthorization \<Rightarrow>
          if holds_unscoped bs a Admin then Inr () else Inl (denial_new a v UnscopedAdmin)
      | VBumpClusterVersion \<Rightarrow>
          if holds_unscoped bs a Admin then Inr () else Inl (denial_new a v UnscopedAdmin)
      | VConfigureQuotaEntity e parent \<Rightarrow>
          if holds_unscoped bs a Admin then Inr ()
          else if has_key e es then
            (if holds_over bs es a Admin e then Inr () else Inl (denial_new a v AdminOverEntity))
          else (case parent of
              Some p \<Rightarrow> if holds_over bs es a Admin p then Inr () else Inl (denial_new a v AdminOverParent)
            | None \<Rightarrow> Inl (denial_new a v AdminOverParent)))"

section \<open>The decision, declaratively\<close>

text \<open>The role a verb takes, and the entity a scoped binding must cover to grant it, if any.\<close>

fun verb_role :: "verb \<Rightarrow> role" where
  "verb_role (VSubmit _) = Submitter"
| "verb_role (VAbort _ _) = Operator"
| "verb_role (VUpdateJobMetadata _ _) = Operator"
| "verb_role VDrain = Operator"
| "verb_role _ = Admin"

fun verb_target :: "quota_tree \<Rightarrow> verb \<Rightarrow> quota_entity_id option" where
  "verb_target es (VSubmit e) = Some e"
| "verb_target es (VAbort e _) = Some e"
| "verb_target es (VUpdateJobMetadata e _) = Some e"
| "verb_target es (VConfigureQuotaEntity e parent) = (if has_key e es then Some e else parent)"
| "verb_target es _ = None"

fun verb_owner :: "verb \<Rightarrow> string option" where
  "verb_owner (VAbort _ submitter) = submitter"
| "verb_owner (VUpdateJobMetadata _ submitter) = submitter"
| "verb_owner _ = None"

definition grants :: "quota_tree \<Rightarrow> actor \<Rightarrow> verb \<Rightarrow> binding \<Rightarrow> bool" where
  "grants es a v b \<longleftrightarrow> verb_role v \<le> bd_role b \<and> matches_subject (bd_subject b) a \<and>
     (case bd_scope b of
        None \<Rightarrow> True
      | Some scope \<Rightarrow> (case verb_target es v of None \<Rightarrow> False | Some t \<Rightarrow> ancestor es t scope))"

lemma covers_loop_chain: "covers_loop n es scope cur \<longleftrightarrow> scope \<in> set (chain_from n es cur)"
  by (induction n es scope cur rule: covers_loop.induct) auto

lemma absent_chain: "fmlookup es e = None \<Longrightarrow> chain_from (Suc n) es (Some e) = [e]"
  by (cases n) (simp_all add: parent_of_def)

lemma absent_ancestor: "fmlookup es e = None \<Longrightarrow> ancestor es e a \<longleftrightarrow> a = e"
  by (auto elim: ancestor.cases intro: self simp: parent_of_def)

lemma covers_iff:
  assumes "tree_wf ext es"
  shows "covers b t es \<longleftrightarrow> (case bd_scope b of None \<Rightarrow> True | Some scope \<Rightarrow> ancestor es t scope)"
proof (cases "fmlookup es t")
  case None
  then show ?thesis
    using absent_chain [OF None, of 31] absent_ancestor [OF None]
    by (auto simp: covers_def covers_loop_chain QUOTA_TREE_DEPTH_CAP_def split: option.split)
next
  case (Some q)
  then show ?thesis
    using chain_iff_ancestor [OF tree_wf_rooted [OF assms Some]]
    by (auto simp: covers_def covers_loop_chain split: option.split)
qed

lemma holds_unscoped_iff:
  "holds_unscoped bs a r \<longleftrightarrow> (\<exists>b \<in> set bs. r \<le> bd_role b \<and> bd_scope b = None \<and> matches_subject (bd_subject b) a)"
  by (simp add: holds_unscoped_def list_ex_iff)

lemma holds_over_iff:
  "tree_wf ext es \<Longrightarrow> holds_over bs es a r t \<longleftrightarrow>
     (\<exists>b \<in> set bs. r \<le> bd_role b \<and> matches_subject (bd_subject b) a \<and>
        (case bd_scope b of None \<Rightarrow> True | Some scope \<Rightarrow> ancestor es t scope))"
  by (simp add: holds_over_def list_ex_iff covers_iff)

text \<open>
  C18: who may do what. On a well-formed quota tree an actor is allowed a verb exactly when it is an
  implicit admin, or it submitted the job the verb acts on, or some binding names it with a role at
  least the verb's and a scope that is cluster-wide or an ancestor of the entity the verb acts on.
  Nothing else grants anything, and cluster verbs are never granted by a scoped binding.
\<close>

theorem evaluate_iff_granted:
  assumes "tree_wf ext es"
  shows "evaluate bs es a v = Inr () \<longleftrightarrow>
    is_implicit_admin a \<or> owns a (verb_owner v) \<or> (\<exists>b \<in> set bs. grants es a v b)"
proof -
  have unscoped: "(\<exists>b \<in> set bs. grants es a v b) \<longleftrightarrow> holds_unscoped bs a (verb_role v)"
    if "verb_target es v = None"
    using that by (auto simp: grants_def holds_unscoped_iff split: option.splits)
  have over: "(\<exists>b \<in> set bs. grants es a v b) \<longleftrightarrow> holds_over bs es a (verb_role v) t"
    if "verb_target es v = Some t" for t
    using that by (simp add: grants_def holds_over_iff [OF assms] cong: option.case_cong)
  have wider: "holds_unscoped bs a Admin \<Longrightarrow> holds_over bs es a Admin t" for t
    by (auto simp: holds_unscoped_iff holds_over_iff [OF assms])
  show ?thesis
  proof (cases v)
    case (VConfigureQuotaEntity e parent)
    then show ?thesis
      using unscoped over wider
      by (cases "has_key e es"; cases parent) (auto simp: evaluate_def owns_def)
  qed (use unscoped over in \<open>auto simp: evaluate_def owns_def\<close>)
qed

text \<open>A one-entity tree for evaluation.\<close>

definition demo_entity :: "quota_entity_id option \<Rightarrow> string \<Rightarrow> quota_entity" where
  "demo_entity parent name = \<lparr>qe_parent = parent, qe_name = name, qe_quota = 1000,
     qe_usage = usage_new (ts_of 0), qe_created_at = ts_of 0, qe_updated_at = ts_of 0,
     qe_preemptible = True\<rparr>"

definition demo_tree :: quota_tree where
  "demo_tree = fmupd (Tid 2) (demo_entity (Some (Tid 1)) ''eng'')
     (fmupd (Tid 1) (demo_entity None ''acme'') fmempty)"

lemma demo_segments: "validate_segment ext_nil ''acme'' = Inr ()" "validate_segment ext_nil ''eng'' = Inr ()"
  by (simp_all add: validate_segment_def MAX_SEGMENT_LEN_def ascii_defs is_segment_char_def quota_id_from_str_def)

lemma rooted_numeral:
  "rooted (numeral k) es e =
     (case fmlookup es e of
        None \<Rightarrow> False
      | Some q \<Rightarrow> (case qe_parent q of None \<Rightarrow> True | Some p \<Rightarrow> rooted (pred_numeral k) es p))"
  by (simp add: numeral_eq_Suc)

lemma demo_tree_wf: "tree_wf ext_nil demo_tree"
  by (auto simp: tree_wf_def demo_tree_def demo_entity_def QUOTA_TREE_DEPTH_CAP_def rooted_numeral
      demo_segments split: if_splits)

theorem evaluate_iff_granted_witness:
  "evaluate [\<lparr>bd_subject = Group ''ops'', bd_role = Admin, bd_scope = Some (Tid 1)\<rparr>] demo_tree
     \<lparr>ac_principal = ''ann'', ac_groups = [''ops''], ac_operator_cert = False, ac_auth_disabled = False\<rparr>
     (VSubmit (Tid 2)) = Inr () \<and>
   evaluate [\<lparr>bd_subject = Group ''ops'', bd_role = Admin, bd_scope = Some (Tid 1)\<rparr>] demo_tree
     \<lparr>ac_principal = ''ann'', ac_groups = [''ops''], ac_operator_cert = False, ac_auth_disabled = False\<rparr>
     VDrain \<noteq> Inr ()"
proof -
  have "ancestor demo_tree (Tid 2) (Tid 1)"
    by (rule up [OF _ self]) (simp add: demo_tree_def parent_of_def demo_entity_def)
  then show ?thesis
    unfolding evaluate_iff_granted [OF demo_tree_wf]
    by (simp add: is_implicit_admin_def owns_def grants_def matches_subject_def role_ord)
qed

end
