(* ===== verification/State_Model.thy ===== *)
theory State_Model
  imports Authz
begin

text \<open>
  The replicated state of \<open>coppice-state/src/lib.rs\<close>: the records it holds, the policy, the
  rejection reasons and the events. A rejection reason that the source carries as rendered text
  carries here the error value the text is rendered from.
\<close>

section \<open>Records\<close>

record job_record =
  jr_spec :: job
  jr_state :: job_state
  jr_multiplier :: priority_multiplier
  jr_submitted_at :: timestamp
  jr_terminal_at :: "timestamp option"
  jr_retries_used :: u32
  jr_attempts :: "attempt_id list"

definition current_attempt :: "job_record \<Rightarrow> attempt_id option" where
  "current_attempt r = state_attempt (jr_state r)"

record attempt_record =
  atr_attempt :: attempt
  atr_group :: group_id
  atr_charge :: charge_record
  atr_rate :: u64
  atr_multiplier :: priority_multiplier
  atr_started_at :: "timestamp option"
  atr_ended_at :: "timestamp option"
  atr_settlement :: "settlement option"
  atr_effective_preemptible :: bool
  atr_preemption :: "preemption option"
  atr_drain_cutoff :: "timestamp option"

record allocation_record =
  alr_allocation :: allocation
  alr_seq :: u64

record node_record =
  nr_node :: node
  nr_epoch :: u64
  nr_draining :: bool
  nr_interruption_deadline :: "timestamp option"

record policy_config =
  po_cost_weights :: cost_weights
  po_decay :: decay_policy
  po_penalty_exponent_milli :: u32
  po_priority_multipliers :: "(int, priority_multiplier) fmap"
  po_accrual_limit :: u32
  po_unbounded_charge_interval_s :: u64
  po_unbounded_runtime_multiplier :: priority_multiplier
  po_refund_fraction_milli :: u32
  po_terminal_retention :: duration
  po_node_retention :: duration
  po_abort_grace :: duration
  po_preemptible_multiplier :: priority_multiplier
  po_preemption_notice_floor :: duration
  po_preemption_notice_cap :: duration
  po_drain_cleanup_margin :: duration
  po_groups_claim :: string

definition DEFAULT_PREEMPTION_NOTICE_FLOOR :: duration where
  "DEFAULT_PREEMPTION_NOTICE_FLOOR = dur_from_secs 60"
definition DEFAULT_PREEMPTION_NOTICE_CAP :: duration where
  "DEFAULT_PREEMPTION_NOTICE_CAP = dur_from_mins 5"
definition DEFAULT_DRAIN_CLEANUP_MARGIN :: duration where
  "DEFAULT_DRAIN_CLEANUP_MARGIN = dur_from_secs 30"
definition DEFAULT_PENALTY_EXPONENT_MILLI :: u32 where
  "DEFAULT_PENALTY_EXPONENT_MILLI = 2000"
definition DEFAULT_GROUPS_CLAIM :: string where
  "DEFAULT_GROUPS_CLAIM = ''groups''"

definition policy_default :: policy_config where
  "policy_default = \<lparr>
     po_cost_weights = \<lparr>per_cpu_milli_second = 0, per_memory_byte_second = 0, per_disk_byte_second = 0\<rparr>,
     po_decay = DEFAULT_DECAY_POLICY,
     po_penalty_exponent_milli = DEFAULT_PENALTY_EXPONENT_MILLI,
     po_priority_multipliers = fmempty,
     po_accrual_limit = 4,
     po_unbounded_charge_interval_s = DEFAULT_UNBOUNDED_CHARGE_INTERVAL_S,
     po_unbounded_runtime_multiplier = DEFAULT_UNBOUNDED_RUNTIME_MULTIPLIER,
     po_refund_fraction_milli = DEFAULT_REFUND_FRACTION_MILLI,
     po_terminal_retention = dur_from_hours 72,
     po_node_retention = dur_from_hours 24,
     po_abort_grace = dur_from_secs 30,
     po_preemptible_multiplier = DEFAULT_PREEMPTIBLE_MULTIPLIER,
     po_preemption_notice_floor = DEFAULT_PREEMPTION_NOTICE_FLOOR,
     po_preemption_notice_cap = DEFAULT_PREEMPTION_NOTICE_CAP,
     po_drain_cleanup_margin = DEFAULT_DRAIN_CLEANUP_MARGIN,
     po_groups_claim = DEFAULT_GROUPS_CLAIM\<rparr>"

record deadline_drain_times =
  t_stop :: timestamp
  t_notice :: timestamp

definition deadline_drain_times_of :: "policy_config \<Rightarrow> timestamp \<Rightarrow> deadline_drain_times" where
  "deadline_drain_times_of p deadline =
     (let stop = ts_sat_sub (ts_sat_sub deadline (po_drain_cleanup_margin p)) (po_abort_grace p)
      in \<lparr>t_stop = stop, t_notice = ts_sat_sub stop (po_preemption_notice_cap p)\<rparr>)"

definition deadline_drain_min_lead :: "policy_config \<Rightarrow> duration" where
  "deadline_drain_min_lead p =
     dur_sat_add (dur_sat_add (po_preemption_notice_cap p) (po_abort_grace p)) (po_drain_cleanup_margin p)"

section \<open>Cluster identity records\<close>

datatype ca_cert_bundle = CaCertBundle (bundle_pem: string)

record ca_certificate =
  ca_bundle :: ca_cert_bundle
  ca_recorded_at :: timestamp

record staged_root =
  sr_serial :: string
  sr_staged_at :: timestamp
  sr_holders :: "(u64, timestamp) fmap"
  sr_intents :: "(u64, timestamp) fmap"

record machine_binding =
  mb_raft_node_id :: u64
  mb_address :: string
  mb_bound_at :: timestamp
  mb_retired_at :: "timestamp option"

datatype enroll_role = CoordinatorRole | AgentRole

record enroll_token =
  et_hash :: string
  et_role :: enroll_role
  et_label :: string
  et_expires_at :: "timestamp option"
  et_minted_at :: timestamp
  et_revoked :: bool

datatype revoked_identity = RevMachine machine_id | RevNode node_id

section \<open>The state machine\<close>

record state_machine =
  jobs :: "(job_id, job_record) fmap"
  attempts :: "(attempt_id, attempt_record) fmap"
  allocations :: "(allocation_id, allocation_record) fmap"
  nodes :: "(node_id, node_record) fmap"
  quota_entities :: quota_tree
  accrual_queue :: "(node_id \<times> u64, allocation_id) fmap"
  next_allocation_seq :: u64
  policy :: policy_config
  bindings :: "binding list"
  cluster_version :: u32
  ca :: "ca_certificate option"
  staged_root :: "staged_root option"
  machine_bindings :: "(machine_id, machine_binding) fmap"
  enroll_tokens :: "(enroll_token_id, enroll_token) fmap"
  revoked_identities :: "revoked_identity fset"
  key_confirmations :: "(u64, timestamp) fmap"
  key_transfer_intents :: "(u64, timestamp) fmap"
  enrolled_identities :: "(machine_id, timestamp) fmap"
  version :: u64

definition state_default :: state_machine where
  "state_default = \<lparr>jobs = fmempty, attempts = fmempty, allocations = fmempty, nodes = fmempty,
     quota_entities = fmempty, accrual_queue = fmempty, next_allocation_seq = 0,
     policy = policy_default, bindings = [], cluster_version = 0, ca = None, staged_root = None,
     machine_bindings = fmempty, enroll_tokens = fmempty, revoked_identities = {||},
     key_confirmations = fmempty, key_transfer_intents = fmempty, enrolled_identities = fmempty,
     version = 0\<rparr>"

section \<open>Rejections and events\<close>

datatype preemption_refusal =
    Duplicate | WrongNode | NotActive | NotRunning | AlreadyTerminating | NotPreemptible
  | RefuseDraining | NotOutranked | NotRelocatable | Guarded | DoesNotFit

datatype invalid_command =
    PresetAbortFlag
  | RevokedOutcome
  | LostOutcomeRevoked
  | EmptyTokenHash

datatype invalid_authorization = EmptySubject nat subject | BlankGroupsClaim

datatype invalid_policy = PolicyDecay policy_error | PolicyRule string

datatype rejection_reason =
    UnknownJob job_id
  | UnknownNode node_id
  | UnknownAttempt attempt_id
  | UnknownAllocation allocation_id
  | UnknownQuotaEntity quota_entity_id
  | SubmitSpecMismatch job_id
  | DuplicateAttempt attempt_id
  | DuplicateAllocation allocation_id
  | InvalidJobMetadata metadata_error
  | InvalidJobEnv env_error
  | InvalidJobPreemption notice_error
  | JobTerminal job_id
  | JobNotQueued job_id
  | JobNotTerminal job_id
  | StaleAttemptState attempt_id
  | AttemptNotOnNode attempt_id node_id
  | AllocationNotAccruing allocation_id
  | NodeDraining node_id
  | NodeRequiresPreemptible node_id
  | DrainDeadlineTooSoon node_id duration
  | DrainNoticeStarted node_id timestamp
  | NodeNotDraining node_id
  | InvalidPreemption allocation_id preemption_refusal
  | NodeNotEmpty node_id
  | AttemptNotIntervalCharged attempt_id
  | StaleNodeEpoch node_id u64 u64
  | RequestExceedsNodeCapacity allocation_id
  | AccrualLimitExceeded u32
  | PerNodeAccrualExceeded node_id
  | UnsupportedPlacementShape
  | QuotaEntityTooDeep quota_entity_id
  | QuotaEntityImmutable quota_entity_id
  | InvalidQuotaEntityName invalid_segment
  | QuotaEntityNameTaken string quota_entity_id
  | InvalidPolicy invalid_policy
  | PermissionDenied denial
  | InvalidAuthorization invalid_authorization
  | AuthorizationLockout
  | ClusterVersionNotMonotonic u32 u32
  | MachineIdentityConflict machine_id u64
  | MachineAddressConflict machine_id u64
  | UnknownMachineBinding u64
  | UnknownMachineIdentity machine_id
  | MachineIdentityRetired machine_id
  | DuplicateEnrollToken enroll_token_id
  | UnknownEnrollToken enroll_token_id
  | InvalidCommand invalid_command
  | InvalidBatch "(u32 \<times> rejection_reason) list"
  | UnknownStagedRoot string
  | StagedRootMismatch "string option" string

record job_scope =
  sc_entity_chain :: "quota_entity_id list"
  sc_submitted_by :: "string option"
  sc_metadata :: job_metadata

datatype event =
    JobSubmitted job_id
  | JobStateChanged job_id job_state job_state
  | AttemptStateChanged attempt_id job_id node_id attempt_state
  | AllocationFunded allocation_id job_id node_id
  | StopRequested node_id allocation_id job_id
  | PreemptRequested attempt_id allocation_id job_id node_id preempt_reason duration
  | AttemptNotified attempt_id job_id node_id
  | NodeEpochBumped node_id u64
  | JobEvicted job_id job_scope
  | JobMetadataUpdated job_id job_metadata
  | QuotaEntityConfigured quota_entity_id
  | PolicyUpdated
  | AuthorizationUpdated
  | ClusterVersionBumped u32

fun event_job :: "event \<Rightarrow> job_id option" where
  "event_job (JobSubmitted j) = Some j"
| "event_job (JobStateChanged j _ _) = Some j"
| "event_job (AttemptStateChanged _ j _ _) = Some j"
| "event_job (AllocationFunded _ j _) = Some j"
| "event_job (StopRequested _ _ j) = Some j"
| "event_job (PreemptRequested _ _ j _ _ _) = Some j"
| "event_job (AttemptNotified _ j _) = Some j"
| "event_job (JobEvicted j _) = Some j"
| "event_job (JobMetadataUpdated j _) = Some j"
| "event_job _ = None"

text \<open>
  The result of a command handler: the state it leaves, and either the reason it refused or the
  events of an accepted command. Every handler returns the state in both cases, so that a refused
  command leaves no trace is something to prove and not a convention of the model.
\<close>

type_synonym apply_result = "state_machine \<times> (rejection_reason + event list)"

section \<open>Lookups\<close>

definition job_scope_of :: "state_machine \<Rightarrow> job_id \<Rightarrow> job_scope option" where
  "job_scope_of s j =
     map_option (\<lambda>r. \<lparr>sc_entity_chain = entity_chain (quota_entities s) (j_quota_entity (jr_spec r)),
         sc_submitted_by = j_submitted_by (jr_spec r), sc_metadata = j_metadata (jr_spec r)\<rparr>)
       (fmlookup (jobs s) j)"

definition machine_for_raft_node :: "state_machine \<Rightarrow> u64 \<Rightarrow> machine_id option" where
  "machine_for_raft_node s raft_node_id =
     map_option fst (find (\<lambda>(_, b). mb_raft_node_id b = raft_node_id) (entries (machine_bindings s)))"

definition is_identity_revoked :: "state_machine \<Rightarrow> revoked_identity \<Rightarrow> bool" where
  "is_identity_revoked s i \<longleftrightarrow> i |\<in>| revoked_identities s"

definition live_enroll_tokens :: "state_machine \<Rightarrow> timestamp \<Rightarrow> (enroll_token_id \<times> enroll_token) list" where
  "live_enroll_tokens s now = filter (\<lambda>(_, t). \<not> et_revoked t \<and>
     (case et_expires_at t of None \<Rightarrow> True | Some expiry \<Rightarrow> expiry > now)) (entries (enroll_tokens s))"

definition has_staged_key_confirmation :: "state_machine \<Rightarrow> u64 \<Rightarrow> bool" where
  "has_staged_key_confirmation s n \<longleftrightarrow>
     (case staged_root s of None \<Rightarrow> False | Some r \<Rightarrow> has_key n (sr_holders r))"

definition has_staged_key_transfer_intent :: "state_machine \<Rightarrow> u64 \<Rightarrow> bool" where
  "has_staged_key_transfer_intent s n \<longleftrightarrow>
     (case staged_root s of None \<Rightarrow> False | Some r \<Rightarrow> has_key n (sr_intents r))"

definition staged_key_coverage_gap :: "state_machine \<Rightarrow> u64 list \<Rightarrow> u64 list" where
  "staged_key_coverage_gap s voters =
     remdups_adj (sort (filter (\<lambda>n. \<not> has_staged_key_confirmation s n) voters))"

definition nr_is_draining :: "node_record \<Rightarrow> bool" where
  "nr_is_draining r \<longleftrightarrow> nd_drain (nr_node r) \<noteq> None \<or> nr_draining r"

end
