(* ===== verification/Funding.thy ===== *)
theory Funding
  imports State_Model
begin

text \<open>
  The shared effect helpers at the end of \<open>coppice-state/src/apply.rs\<close>: state transitions that emit
  events, the funding of accruing allocations from free capacity, the ready barrier, quota charges
  along the ancestor path, and the terminal path of an attempt.

  A helper that takes \<open>&mut self\<close> and \<open>&mut events\<close> is a function on the pair of both
  (\<open>effects\<close>). The optional capacity memo (\<open>Option<&mut BTreeMap>\<close>) is passed and returned.
\<close>

type_synonym effects = "state_machine \<times> event list"
type_synonym capacity_memo = "(node_id, resources) fmap"

section \<open>Transitions\<close>

fun job_transition :: "job_id \<Rightarrow> job_state \<Rightarrow> effects \<Rightarrow> effects" where
  "job_transition j to (s, evs) =
     (case fmlookup (jobs s) j of
        None \<Rightarrow> (s, evs)
      | Some r \<Rightarrow>
          if jr_state r \<noteq> to
          then (s\<lparr>jobs := fmupd j (r\<lparr>jr_state := to\<rparr>) (jobs s)\<rparr>, evs @ [JobStateChanged j (jr_state r) to])
          else (s, evs))"

fun job_terminal_transition :: "job_id \<Rightarrow> job_state \<Rightarrow> timestamp \<Rightarrow> effects \<Rightarrow> effects" where
  "job_terminal_transition j to t (s, evs) =
     job_transition j to
       (s\<lparr>jobs := fmmodify j (\<lambda>r. if jr_terminal_at r = None then r\<lparr>jr_terminal_at := Some t\<rparr> else r) (jobs s)\<rparr>,
        evs)"

definition set_attempt_state :: "attempt_state \<Rightarrow> attempt_record \<Rightarrow> attempt_record" where
  "set_attempt_state to a = a\<lparr>atr_attempt := (atr_attempt a)\<lparr>att_state := to\<rparr>\<rparr>"

definition set_allocation_state :: "allocation_state \<Rightarrow> allocation_record \<Rightarrow> allocation_record" where
  "set_allocation_state to r = r\<lparr>alr_allocation := (alr_allocation r)\<lparr>al_state := to\<rparr>\<rparr>"

fun attempt_transition :: "attempt_id \<Rightarrow> attempt_state \<Rightarrow> effects \<Rightarrow> effects" where
  "attempt_transition a to (s, evs) =
     (case fmlookup (attempts s) a of
        None \<Rightarrow> (s, evs)
      | Some r \<Rightarrow>
          if att_state (atr_attempt r) \<noteq> to
          then (s\<lparr>attempts := fmupd a (set_attempt_state to r) (attempts s)\<rparr>,
                evs @ [AttemptStateChanged a (att_job (atr_attempt r)) (att_node (atr_attempt r)) to])
          else (s, evs))"

fun mark_attempt_running :: "attempt_id \<Rightarrow> timestamp \<Rightarrow> effects \<Rightarrow> effects" where
  "mark_attempt_running a observed_at (s, evs) =
     (case fmlookup (attempts s) a of
        None \<Rightarrow> (s, evs)
      | Some r \<Rightarrow>
          let r' = (if atr_started_at r = None then r\<lparr>atr_started_at := Some observed_at\<rparr> else r);
              s = s\<lparr>attempts := fmupd a r' (attempts s)\<rparr>;
              (s, evs) = attempt_transition a Running (s, evs)
          in (s\<lparr>allocations := fmmodify (att_allocation (atr_attempt r))
                 (\<lambda>al. if al_state (alr_allocation al) = Funded then set_allocation_state Active al else al)
                 (allocations s)\<rparr>, evs))"

section \<open>Free capacity\<close>

definition live_allocation :: "allocation_record \<Rightarrow> bool" where
  "live_allocation r \<longleftrightarrow> al_state (alr_allocation r) \<noteq> Released"

definition used_scan :: "state_machine \<Rightarrow> node_id \<Rightarrow> resources" where
  "used_scan s n =
     fold (\<lambda>r u. if al_node (alr_allocation r) = n \<and> live_allocation r
                 then res_add u (al_funded (alr_allocation r)) else u)
       (vals (allocations s)) res_zero"

definition memo_get :: "capacity_memo \<Rightarrow> node_id \<Rightarrow> resources" where
  "memo_get memo n = (case fmlookup memo n of None \<Rightarrow> res_zero | Some r \<Rightarrow> r)"

definition free_capacity :: "state_machine \<Rightarrow> node_id \<Rightarrow> capacity_memo option \<Rightarrow> resources" where
  "free_capacity s n used =
     (case fmlookup (nodes s) n of
        None \<Rightarrow> res_zero
      | Some rec \<Rightarrow>
          res_sub (nd_capacity (nr_node rec))
            (case used of Some memo \<Rightarrow> memo_get memo n | None \<Rightarrow> used_scan s n))"

definition memo_add :: "node_id \<Rightarrow> resources \<Rightarrow> capacity_memo \<Rightarrow> capacity_memo" where
  "memo_add n amount used =
     fmmodify n (\<lambda>e. res_add e amount) (fm_or_insert n res_zero used)"

definition memo_sub :: "node_id \<Rightarrow> resources \<Rightarrow> capacity_memo \<Rightarrow> capacity_memo" where
  "memo_sub n amount used = fmmodify n (\<lambda>e. res_sub e amount) used"

definition used_capacity_memo :: "state_machine \<Rightarrow> capacity_memo" where
  "used_capacity_memo s =
     fold (\<lambda>r used. if live_allocation r
            then memo_add (al_node (alr_allocation r)) (al_funded (alr_allocation r)) used else used)
       (vals (allocations s)) fmempty"

section \<open>Funding\<close>

definition node_queue :: "state_machine \<Rightarrow> node_id \<Rightarrow> (u64 \<times> allocation_id) list" where
  "node_queue s n =
     map (\<lambda>((_, seq), al). (seq, al)) (filter (\<lambda>((m, _), _). m = n) (entries (accrual_queue s)))"

definition allocation_need :: "allocation_record \<Rightarrow> resources" where
  "allocation_need r = res_sub (al_requested (alr_allocation r)) (al_funded (alr_allocation r))"

fun pledge_loop :: "node_id \<Rightarrow> (u64 \<times> allocation_id) list \<Rightarrow> resources \<Rightarrow> capacity_memo option \<Rightarrow>
    effects \<Rightarrow> effects \<times> capacity_memo option \<times> allocation_id list" where
  "pledge_loop n [] free used eff = (eff, used, [])"
| "pledge_loop n ((seq, al) # queue) free used (s, evs) =
     (if res_is_zero free then ((s, evs), used, [])
      else case fmlookup (allocations s) al of
        None \<Rightarrow> pledge_loop n queue free used (s, evs)
      | Some rec \<Rightarrow>
          let pledge = component_min free (allocation_need rec) in
          if res_is_zero pledge then pledge_loop n queue free used (s, evs)
          else
            let funded = res_add (al_funded (alr_allocation rec)) pledge;
                full = (funded = al_requested (alr_allocation rec));
                rec' = rec\<lparr>alr_allocation := (alr_allocation rec)\<lparr>al_funded := funded,
                         al_state := (if full then Funded else al_state (alr_allocation rec))\<rparr>\<rparr>;
                s' = s\<lparr>allocations := fmupd al rec' (allocations s),
                       accrual_queue := (if full then fmdrop (n, seq) (accrual_queue s) else accrual_queue s)\<rparr>;
                evs' = (if full then evs @ [AllocationFunded al (al_job (alr_allocation rec)) n] else evs);
                (eff, used', newly) =
                  pledge_loop n queue (res_sub free pledge) (map_option (memo_add n pledge) used) (s', evs')
            in (eff, used', if full then al # newly else newly))"

definition group_members :: "state_machine \<Rightarrow> group_id \<Rightarrow> attempt_id list" where
  "group_members s g =
     map fst (filter (\<lambda>(_, r). atr_group r = g \<and> \<not> attempt_terminal (att_state (atr_attempt r)))
       (entries (attempts s)))"

definition attempt_funded :: "state_machine \<Rightarrow> attempt_id \<Rightarrow> bool" where
  "attempt_funded s a =
     (case fmlookup (attempts s) a of
        None \<Rightarrow> False
      | Some r \<Rightarrow>
          (case fmlookup (allocations s) (att_allocation (atr_attempt r)) of
             None \<Rightarrow> False
           | Some al \<Rightarrow> al_state (alr_allocation al) \<in> {Funded, Active}))"

definition attempt_accruing :: "state_machine \<Rightarrow> attempt_id \<Rightarrow> bool" where
  "attempt_accruing s a =
     (case fmlookup (attempts s) a of None \<Rightarrow> False | Some r \<Rightarrow> att_state (atr_attempt r) = AttAccruing)"

definition ready_if_accruing :: "attempt_id \<Rightarrow> effects \<Rightarrow> effects" where
  "ready_if_accruing a eff = (if attempt_accruing (fst eff) a then attempt_transition a Ready eff else eff)"

definition check_ready_barrier :: "attempt_id \<Rightarrow> effects \<Rightarrow> effects" where
  "check_ready_barrier a eff =
     (case fmlookup (attempts (fst eff)) a of
        None \<Rightarrow> eff
      | Some r \<Rightarrow>
          let members = group_members (fst eff) (atr_group r) in
          if list_all (attempt_funded (fst eff)) members then fold ready_if_accruing members eff else eff)"

definition barrier_of :: "allocation_id \<Rightarrow> effects \<Rightarrow> effects" where
  "barrier_of al eff =
     (case fmlookup (allocations (fst eff)) al of
        None \<Rightarrow> eff
      | Some r \<Rightarrow> check_ready_barrier (al_attempt (alr_allocation r)) eff)"

definition pledge_node :: "node_id \<Rightarrow> capacity_memo option \<Rightarrow> effects \<Rightarrow> effects \<times> capacity_memo option" where
  "pledge_node n used eff =
     (let free = free_capacity (fst eff) n used in
      if res_is_zero free then (eff, used)
      else
        let (eff, used, newly) = pledge_loop n (node_queue (fst eff) n) free used eff
        in (fold barrier_of newly eff, used))"

fun release_allocation :: "allocation_id \<Rightarrow> bool \<Rightarrow> capacity_memo option \<Rightarrow> effects \<Rightarrow>
    effects \<times> capacity_memo option" where
  "release_allocation al pledge used (s, evs) =
     (case fmlookup (allocations s) al of
        None \<Rightarrow> ((s, evs), used)
      | Some rec \<Rightarrow>
          if al_state (alr_allocation rec) = Released then ((s, evs), used)
          else
            let n = al_node (alr_allocation rec);
                s' = s\<lparr>allocations := fmupd al (set_allocation_state Released rec) (allocations s),
                       accrual_queue := fmdrop (n, alr_seq rec) (accrual_queue s)\<rparr>;
                used' = map_option (memo_sub n (al_funded (alr_allocation rec))) used
            in if pledge then pledge_node n used' (s', evs) else ((s', evs), used'))"

section \<open>Quota along the ancestor path\<close>

fun update_ancestors :: "nat \<Rightarrow> (usage_state \<Rightarrow> usage_state) \<Rightarrow> quota_entity_id option \<Rightarrow> quota_tree \<Rightarrow> quota_tree" where
  "update_ancestors 0 f cur es = es"
| "update_ancestors (Suc n) f None es = es"
| "update_ancestors (Suc n) f (Some e) es =
     (case fmlookup es e of
        None \<Rightarrow> es
      | Some q \<Rightarrow> update_ancestors n f (qe_parent q) (fmupd e (q\<lparr>qe_usage := f (qe_usage q)\<rparr>) es))"

definition charge_ancestors :: "quota_entity_id \<Rightarrow> cost_units \<Rightarrow> timestamp \<Rightarrow> state_machine \<Rightarrow> state_machine" where
  "charge_ancestors e amount t s =
     s\<lparr>quota_entities := update_ancestors QUOTA_TREE_DEPTH_CAP (usage_charge amount t (po_decay (policy s)))
         (Some e) (quota_entities s)\<rparr>"

definition settle_ancestors :: "quota_entity_id \<Rightarrow> true_up \<Rightarrow> timestamp \<Rightarrow> state_machine \<Rightarrow> state_machine" where
  "settle_ancestors e adjustment t s =
     s\<lparr>quota_entities := update_ancestors QUOTA_TREE_DEPTH_CAP (usage_settle adjustment t (po_decay (policy s)))
         (Some e) (quota_entities s)\<rparr>"

section \<open>The terminal path\<close>

datatype resolution = ResolveTerminal job_state | Requeue bool

definition resolution_of :: "job_record \<Rightarrow> attempt_outcome \<Rightarrow> resolution" where
  "resolution_of r outcome =
     (let abort_pending = (j_abort_requested (jr_spec r) \<noteq> None);
          retry = j_retry (jr_spec r)
      in if outcome = OutcomeAborted then ResolveTerminal JobAborted
         else if outcome_class_of outcome = ClassSuccess then ResolveTerminal Succeeded
         else if (case outcome of Revoked \<Rightarrow> True | Preempted _ \<Rightarrow> True | _ \<Rightarrow> False) then
           (if abort_pending then ResolveTerminal JobAborted else Requeue False)
         else
           let eligible = (case outcome_class_of outcome of
                 ClassPlatform \<Rightarrow> True
               | ClassUserError \<Rightarrow> retry_user_errors retry
               | _ \<Rightarrow> False)
           in if eligible \<and> \<not> abort_pending \<and> jr_retries_used r < max_retries retry
              then Requeue True else ResolveTerminal Failed)"

fun resolve_job :: "job_id \<Rightarrow> attempt_outcome \<Rightarrow> timestamp \<Rightarrow> effects \<Rightarrow> effects" where
  "resolve_job j outcome t (s, evs) =
     (case fmlookup (jobs s) j of
        None \<Rightarrow> (s, evs)
      | Some r \<Rightarrow>
          if job_terminal (jr_state r) then (s, evs)
          else case resolution_of r outcome of
            ResolveTerminal to \<Rightarrow> job_terminal_transition j to t (s, evs)
          | Requeue consume_budget \<Rightarrow>
              job_transition j Queued
                (if consume_budget
                 then s\<lparr>jobs := fmmodify j (\<lambda>r. r\<lparr>jr_retries_used := jr_retries_used r + 1\<rparr>) (jobs s)\<rparr>
                 else s, evs))"

definition actual_cost_of :: "attempt_record \<Rightarrow> duration \<Rightarrow> cost_units" where
  "actual_cost_of a actual_runtime =
     (if atr_started_at a \<noteq> None
      then cost_from_rate (atr_rate a) (runtime_seconds_ceil actual_runtime) (atr_multiplier a)
      else 0)"

definition retains :: "attempt_record \<Rightarrow> attempt_outcome \<Rightarrow> bool" where
  "retains a outcome \<longleftrightarrow> atr_started_at a \<noteq> None \<and> outcome_class_of outcome \<noteq> ClassPlatform"

fun terminate_attempt :: "attempt_id \<Rightarrow> attempt_outcome \<Rightarrow> duration \<Rightarrow> timestamp \<Rightarrow> bool \<Rightarrow>
    capacity_memo option \<Rightarrow> effects \<Rightarrow> effects \<times> capacity_memo option" where
  "terminate_attempt aid outcome actual_runtime t pledge used (s, evs) =
     (case fmlookup (attempts s) aid of
        None \<Rightarrow> ((s, evs), used)
      | Some a \<Rightarrow>
          if attempt_terminal (att_state (atr_attempt a)) then ((s, evs), used)
          else
            let (s, evs) = attempt_transition aid (Terminal outcome) (s, evs);
                s = s\<lparr>attempts := fmmodify aid
                       (\<lambda>a. if atr_ended_at a = None then a\<lparr>atr_ended_at := Some t\<rparr> else a) (attempts s)\<rparr>;
                ((s, evs), used) = release_allocation (att_allocation (atr_attempt a)) pledge used (s, evs);
                actual = actual_cost_of a actual_runtime;
                adjustment = settle_true_up (atr_charge a) actual t (po_decay (policy s)) (retains a outcome);
                s = s\<lparr>attempts := fmmodify aid
                       (\<lambda>a. if atr_settlement a = None
                            then a\<lparr>atr_settlement := Some \<lparr>st_actual_cost = actual, st_true_up = adjustment\<rparr>\<rparr>
                            else a) (attempts s)\<rparr>;
                j = att_job (atr_attempt a);
                s = (case fmlookup (jobs s) j of
                       None \<Rightarrow> s
                     | Some r \<Rightarrow> settle_ancestors (j_quota_entity (jr_spec r)) adjustment t s)
            in (resolve_job j outcome t (s, evs), used))"

end
