(* ===== verification/Admission.thy ===== *)
theory Admission
  imports Funding
begin

text \<open>
  Admission on a draining node (\<open>coppice-state/src/drain.rs\<close>): the horizon of a node, what a node
  admits, and the verdict for one job. The lazily computed horizon of \<open>admission\<close> is an ordinary
  argument, read only in the branch that asks for it.
\<close>

datatype node_horizon = HorizonEmpty | HorizonUnbounded | HorizonBounded timestamp

fun absorb :: "node_horizon \<Rightarrow> timestamp option \<Rightarrow> node_horizon" where
  "absorb HorizonUnbounded _ = HorizonUnbounded"
| "absorb _ None = HorizonUnbounded"
| "absorb HorizonEmpty (Some b) = HorizonBounded b"
| "absorb (HorizonBounded h) (Some b) = HorizonBounded (max h b)"

datatype node_admission = AdmitOpen | AdmitBackfill timestamp | AdmitClosed

datatype admission = AdmissionOpen | AdmissionBackfill timestamp | AdmissionRefused

definition admission_admits :: "node_admission \<Rightarrow> job \<Rightarrow> timestamp \<Rightarrow> duration \<Rightarrow> admission" where
  "admission_admits na j now abort_grace =
     (case na of
        AdmitOpen \<Rightarrow> AdmissionOpen
      | AdmitClosed \<Rightarrow> AdmissionRefused
      | AdmitBackfill cutoff \<Rightarrow>
          (case j_max_runtime j of
             Some runtime \<Rightarrow>
               if ts_sat_add (ts_sat_add now runtime) abort_grace \<le> cutoff
               then AdmissionBackfill cutoff else AdmissionRefused
           | None \<Rightarrow> AdmissionRefused))"

definition node_admission_of :: "node_record \<Rightarrow> policy_config \<Rightarrow> node_horizon \<Rightarrow> node_admission" where
  "node_admission_of r p horizon =
     (if nr_draining r then AdmitClosed
      else case nd_drain (nr_node r) of
        None \<Rightarrow> AdmitOpen
      | Some d \<Rightarrow>
          (case dr_deadline d of
             Some deadline \<Rightarrow> AdmitBackfill (t_notice (deadline_drain_times_of p deadline))
           | None \<Rightarrow>
               (case horizon of
                  HorizonBounded cutoff \<Rightarrow> AdmitBackfill cutoff
                | HorizonEmpty \<Rightarrow> AdmitClosed
                | HorizonUnbounded \<Rightarrow> AdmitClosed)))"

definition node_admits :: "node_record \<Rightarrow> job \<Rightarrow> timestamp \<Rightarrow> policy_config \<Rightarrow> node_horizon \<Rightarrow> admission" where
  "node_admits r j now p horizon =
     admission_admits (node_admission_of r p horizon) j now (po_abort_grace p)"

definition opt_min :: "timestamp option list \<Rightarrow> timestamp option" where
  "opt_min ts = (case List.map_filter id ts of [] \<Rightarrow> None | x # xs \<Rightarrow> Some (fold min xs x))"

definition acknowledged_bound :: "state_machine \<Rightarrow> attempt_record \<Rightarrow> timestamp option" where
  "acknowledged_bound s a =
     map_option (\<lambda>ack. ts_sat_add (ack_deadline ack) (po_abort_grace (policy s)))
       (Option.bind (atr_preemption a) pre_acknowledged)"

definition commitment_bound :: "state_machine \<Rightarrow> allocation_record \<Rightarrow> timestamp option" where
  "commitment_bound s r =
     (if al_state (alr_allocation r) = Accruing then None
      else case fmlookup (attempts s) (al_attempt (alr_allocation r)) of
        None \<Rightarrow> None
      | Some a \<Rightarrow>
          let max_runtime = Option.bind (fmlookup (jobs s) (al_job (alr_allocation r)))
                (\<lambda>j. j_max_runtime (jr_spec j));
              grace = po_abort_grace (policy s)
          in case atr_started_at a of
               None \<Rightarrow> atr_drain_cutoff a
             | Some started \<Rightarrow>
                 let running = map_option (\<lambda>m. ts_sat_add (ts_sat_add started m) grace) max_runtime
                 in opt_min [running, acknowledged_bound s a, atr_drain_cutoff a])"

definition node_horizons :: "state_machine \<Rightarrow> node_id fset \<Rightarrow> (node_id, node_horizon) fmap" where
  "node_horizons s ns =
     (let out = fold (\<lambda>n m. fmupd n HorizonEmpty m) (sorted_list_of_fset ns) fmempty in
      if ns = {||} then out
      else fold (\<lambda>r out.
          case fmlookup out (al_node (alr_allocation r)) of
            None \<Rightarrow> out
          | Some h \<Rightarrow>
              if al_state (alr_allocation r) = Released then out
              else fmupd (al_node (alr_allocation r)) (absorb h (commitment_bound s r)) out)
        (vals (allocations s)) out)"

definition node_horizon_of :: "state_machine \<Rightarrow> node_id \<Rightarrow> node_horizon" where
  "node_horizon_of s n =
     (case fmlookup (node_horizons s {|n|}) n of None \<Rightarrow> HorizonEmpty | Some h \<Rightarrow> h)"

end
