(* ===== verification/Commands.thy ===== *)
theory Commands
  imports State_Model
begin

text \<open>
  The commands of \<open>coppice-state/src/command.rs\<close>, the only inputs that change replicated state. A
  command with several fields is a record; a command of two or three fields is a constructor that
  takes them in the source's order.
\<close>

record submit_job_cmd =
  sj_job :: job
  sj_multiplier :: priority_multiplier
  sj_actor :: "actor option"
  sj_submitted_at :: timestamp

record abort_job_cmd =
  aj_job :: job_id
  aj_reason :: "string option"
  aj_actor :: "actor option"
  aj_requested_at :: timestamp

datatype job_metadata_update =
    ReplaceMetadata job_metadata
  | PatchMetadata job_metadata "string fset"

record update_job_metadata_cmd =
  um_job :: job_id
  um_update :: job_metadata_update
  um_actor :: "actor option"
  um_updated_at :: timestamp

datatype eviction_rule = RulePriority | RuleRelocation

record eviction =
  ev_allocation :: allocation_id
  ev_rule :: eviction_rule

record allocation_spec =
  as_id :: allocation_id
  as_node :: node_id
  as_requested :: resources

record placement =
  pl_job :: job_id
  pl_attempt :: attempt_id
  pl_group :: group_id
  pl_allocations :: "allocation_spec list"
  pl_preemptions :: "eviction list"

record commit_placements_cmd =
  cp_expected_version :: u64
  cp_revocations :: "allocation_id list"
  cp_placements :: "placement list"
  cp_proposed_at :: timestamp

record record_attempt_outcome_cmd =
  ro_attempt :: attempt_id
  ro_outcome :: attempt_outcome
  ro_actual_runtime :: duration
  ro_observed_at :: timestamp

record record_attempt_notified_cmd =
  rn_attempt :: attempt_id
  rn_reason :: preempt_reason
  rn_remaining :: duration
  rn_shortfall :: duration
  rn_observed_at :: timestamp

record lost_attempt =
  la_attempt :: attempt_id
  la_outcome :: attempt_outcome
  la_actual_runtime :: duration

record reconcile_node_cmd =
  rc_node :: node_id
  rc_node_epoch :: u64
  rc_adopted :: "attempt_id list"
  rc_lost :: "lost_attempt list"
  rc_observed_at :: timestamp

record register_node_cmd =
  rg_node :: node_id
  rg_capacity :: resources
  rg_labels :: "(string, string) fmap"
  rg_registered_at :: timestamp
  rg_service_addr :: "string option"
  rg_host_facts :: "host_facts option"
  rg_detected_capacity :: "resources option"
  rg_draining :: bool
  rg_preemptible_only :: bool
  rg_interruption_deadline :: "timestamp option"

record set_node_drain_cmd =
  sd_node :: node_id
  sd_drain :: "drain option"
  sd_actor :: "actor option"
  sd_updated_at :: timestamp

record set_node_draining_cmd =
  sg_node :: node_id
  sg_draining :: bool
  sg_interruption_deadline :: "timestamp option"
  sg_at :: timestamp

record evict_nodes_cmd =
  en_nodes :: "node_id list"
  en_actor :: "actor option"
  en_evicted_at :: timestamp

record interval_renewal =
  ir_attempt :: attempt_id
  ir_paid :: u32

record configure_quota_entity_cmd =
  cq_entity :: quota_entity_id
  cq_parent :: "quota_entity_id option"
  cq_name :: string
  cq_quota :: cost_units
  cq_preemptible :: "bool option"
  cq_actor :: "actor option"
  cq_updated_at :: timestamp

record update_policy_cmd =
  up_policy :: policy_config
  up_actor :: "actor option"
  up_updated_at :: timestamp

record update_authorization_cmd =
  ua_bindings :: "binding list"
  ua_actor :: "actor option"
  ua_updated_at :: timestamp
  ua_groups_claim :: "string option"

record record_ca_certificate_cmd =
  rca_bundle :: ca_cert_bundle
  rca_staged_root_serial :: "string option"
  rca_recorded_at :: timestamp

record bind_machine_identity_cmd =
  bm_machine :: machine_id
  bm_raft_node_id :: u64
  bm_address :: string
  bm_bound_at :: timestamp

record mint_enroll_token_cmd =
  mt_token :: enroll_token_id
  mt_hash :: string
  mt_role :: enroll_role
  mt_label :: string
  mt_expires_at :: "timestamp option"
  mt_minted_at :: timestamp

datatype command =
    SubmitJob submit_job_cmd
  | AbortJob abort_job_cmd
  | UpdateJobMetadata update_job_metadata_cmd
  | CommitPlacements commit_placements_cmd
  | DispatchAttempt attempt_id timestamp
  | RecordAttemptStarted attempt_id timestamp
  | RecordAttemptExited attempt_id timestamp
  | RecordAttemptOutcome record_attempt_outcome_cmd
  | ReconcileNode reconcile_node_cmd
  | RecordAttemptNotified record_attempt_notified_cmd
  | RegisterNode register_node_cmd
  | DeclareNodeLost node_id timestamp
  | SetNodeDrain set_node_drain_cmd
  | SetNodeDraining set_node_draining_cmd
  | EvictTerminalJobs "job_id list" timestamp
  | EvictNodes evict_nodes_cmd
  | RenewIntervalCharges "interval_renewal list" timestamp
  | ConfigureQuotaEntity configure_quota_entity_cmd
  | UpdatePolicy update_policy_cmd
  | UpdateAuthorization update_authorization_cmd
  | BumpClusterVersion u32 "actor option" timestamp
  | RecordCaCertificate record_ca_certificate_cmd
  | BindMachineIdentity bind_machine_identity_cmd
  | MintEnrollToken mint_enroll_token_cmd
  | RevokeEnrollToken enroll_token_id timestamp
  | RevokeIdentity revoked_identity timestamp
  | ConfirmKeyPossession u64 timestamp
  | RecordEnrolledIdentity machine_id timestamp
  | RebindMachineAddress u64 string timestamp
  | RetireMachineBinding machine_id timestamp
  | RecordKeyTransferIntent u64 timestamp
  | RecordStagedKeyTransferIntent u64 string timestamp
  | ConfirmStagedKeyPossession u64 string timestamp

fun stamped_at :: "command \<Rightarrow> timestamp" where
  "stamped_at (SubmitJob c) = sj_submitted_at c"
| "stamped_at (AbortJob c) = aj_requested_at c"
| "stamped_at (UpdateJobMetadata c) = um_updated_at c"
| "stamped_at (CommitPlacements c) = cp_proposed_at c"
| "stamped_at (DispatchAttempt _ t) = t"
| "stamped_at (RecordAttemptStarted _ t) = t"
| "stamped_at (RecordAttemptExited _ t) = t"
| "stamped_at (RecordAttemptOutcome c) = ro_observed_at c"
| "stamped_at (ReconcileNode c) = rc_observed_at c"
| "stamped_at (RecordAttemptNotified c) = rn_observed_at c"
| "stamped_at (RegisterNode c) = rg_registered_at c"
| "stamped_at (DeclareNodeLost _ t) = t"
| "stamped_at (SetNodeDrain c) = sd_updated_at c"
| "stamped_at (SetNodeDraining c) = sg_at c"
| "stamped_at (EvictTerminalJobs _ t) = t"
| "stamped_at (EvictNodes c) = en_evicted_at c"
| "stamped_at (RenewIntervalCharges _ t) = t"
| "stamped_at (ConfigureQuotaEntity c) = cq_updated_at c"
| "stamped_at (UpdatePolicy c) = up_updated_at c"
| "stamped_at (UpdateAuthorization c) = ua_updated_at c"
| "stamped_at (BumpClusterVersion _ _ t) = t"
| "stamped_at (RecordCaCertificate c) = rca_recorded_at c"
| "stamped_at (BindMachineIdentity c) = bm_bound_at c"
| "stamped_at (MintEnrollToken c) = mt_minted_at c"
| "stamped_at (RevokeEnrollToken _ t) = t"
| "stamped_at (RevokeIdentity _ t) = t"
| "stamped_at (ConfirmKeyPossession _ t) = t"
| "stamped_at (RecordEnrolledIdentity _ t) = t"
| "stamped_at (RebindMachineAddress _ _ t) = t"
| "stamped_at (RetireMachineBinding _ t) = t"
| "stamped_at (RecordKeyTransferIntent _ t) = t"
| "stamped_at (RecordStagedKeyTransferIntent _ _ t) = t"
| "stamped_at (ConfirmStagedKeyPossession _ _ t) = t"

end
