(* ===== verification/Preempt.thy ===== *)
theory Preempt
  imports Admission Commands
begin

text \<open>
  Scheduler preemption (\<open>coppice-state/src/preempt.rs\<close>): the ledger of outstanding terminations, the
  guaranteed release of an allocation, and the re-validation of a placement's eviction group. The
  mutable \<open>PreemptCheck\<close> context is a record that the validation returns updated.
\<close>

record preemption_ledger =
  lg_guarded :: "node_id fset"
  lg_beneficiaries :: "job_id fset"
  lg_latest_request :: "(node_id, timestamp) fmap"

definition ledger_step :: "attempt_record \<Rightarrow> preemption_ledger \<Rightarrow> preemption_ledger" where
  "ledger_step r l =
     (case atr_preemption r of
        None \<Rightarrow> l
      | Some p \<Rightarrow>
          (case reason_for_job (pre_reason p) of
             None \<Rightarrow> l
           | Some for_job \<Rightarrow>
               let n = att_node (atr_attempt r);
                   l = l\<lparr>lg_latest_request :=
                          fmmodify n (\<lambda>t. max t (pre_requested_at p))
                            (fm_or_insert n (pre_requested_at p) (lg_latest_request l))\<rparr>
               in if \<not> attempt_terminal (att_state (atr_attempt r))
                  then l\<lparr>lg_guarded := finsert n (lg_guarded l),
                         lg_beneficiaries := finsert for_job (lg_beneficiaries l)\<rparr>
                  else l))"

definition preemption_ledger_of :: "state_machine \<Rightarrow> preemption_ledger" where
  "preemption_ledger_of s =
     fold ledger_step (vals (attempts s))
       \<lparr>lg_guarded = {||}, lg_beneficiaries = {||}, lg_latest_request = fmempty\<rparr>"

definition declared_notice :: "state_machine \<Rightarrow> job \<Rightarrow> duration" where
  "declared_notice s j =
     (case ps_notice (j_preemption j) of None \<Rightarrow> po_preemption_notice_floor (policy s) | Some n \<Rightarrow> n)"

definition guaranteed_release :: "state_machine \<Rightarrow> allocation_record \<Rightarrow> timestamp option" where
  "guaranteed_release s r =
     (if al_state (alr_allocation r) = Released then None
      else case fmlookup (attempts s) (al_attempt (alr_allocation r)) of
        None \<Rightarrow> None
      | Some a \<Rightarrow>
          if att_state (atr_attempt a) \<noteq> Running then None
          else case atr_started_at a of
            None \<Rightarrow> None
          | Some started \<Rightarrow>
              let runtime_bound =
                    map_option (ts_sat_add started)
                      (Option.bind (fmlookup (jobs s) (al_job (alr_allocation r)))
                        (\<lambda>j. j_max_runtime (jr_spec j)))
              in (case (runtime_bound, acknowledged_bound s a) of
                    (Some x, Some y) \<Rightarrow> Some (min x y)
                  | (Some x, None) \<Rightarrow> Some x
                  | (None, y) \<Rightarrow> y))"

record preempt_check =
  pc_now :: timestamp
  pc_ledger :: preemption_ledger
  pc_node_allocs :: "(node_id, (allocation_id \<times> resources \<times> timestamp option) list) fmap"
  pc_victims :: "allocation_id fset"
  pc_groups :: "node_id fset"
  pc_spot_reserved :: "(node_id, resources) fmap"

definition preempt_targets :: "commit_placements_cmd \<Rightarrow> node_id fset" where
  "preempt_targets c = fset_of_list
     (concat (map (\<lambda>p. if pl_preemptions p = [] then [] else map as_node (pl_allocations p))
       (cp_placements c)))"

definition target_allocs ::
  "state_machine \<Rightarrow> node_id fset \<Rightarrow> (node_id, (allocation_id \<times> resources \<times> timestamp option) list) fmap" where
  "target_allocs s targets =
     fold (\<lambda>r m.
        let n = al_node (alr_allocation r) in
        if n |\<notin>| targets \<or> al_state (alr_allocation r) = Released then m
        else fmmodify n
          (\<lambda>xs. xs @ [(al_id (alr_allocation r), al_funded (alr_allocation r), guaranteed_release s r)])
          (fm_or_insert n [] m))
       (vals (allocations s)) fmempty"

definition preempt_check_for_batch :: "state_machine \<Rightarrow> commit_placements_cmd \<Rightarrow> preempt_check option" where
  "preempt_check_for_batch s c =
     (let targets = preempt_targets c in
      if targets = {||} then None
      else Some \<lparr>pc_now = cp_proposed_at c, pc_ledger = preemption_ledger_of s,
        pc_node_allocs = target_allocs s targets, pc_victims = {||}, pc_groups = {||},
        pc_spot_reserved = fmempty\<rparr>)"

definition spot_node :: "state_machine \<Rightarrow> resources \<Rightarrow> capacity_memo \<Rightarrow> (node_id, resources) fmap \<Rightarrow> node_id option" where
  "spot_node s requested used reserved =
     map_option fst (find (\<lambda>(n, rec).
         nd_preemptible_only (nr_node rec) \<and> \<not> nr_is_draining rec \<and>
         fits_within requested (nd_capacity (nr_node rec)) \<and>
         fits_within requested (res_sub (free_capacity s n (Some used)) (memo_get reserved n)))
       (entries (nodes s)))"

definition reserve_spot_capacity ::
  "state_machine \<Rightarrow> job_record \<Rightarrow> allocation_record \<Rightarrow> capacity_memo \<Rightarrow> (node_id, resources) fmap \<Rightarrow>
     bool \<times> (node_id, resources) fmap" where
  "reserve_spot_capacity s victim_job al used reserved =
     (if \<not> effective_preemptible (quota_entities s) (jr_spec victim_job) then (False, reserved)
      else
        let requested = al_requested (alr_allocation al) in
        case spot_node s requested used reserved of
          None \<Rightarrow> (False, reserved)
        | Some n \<Rightarrow> (True, memo_add n requested reserved))"

definition refuse :: "allocation_id \<Rightarrow> preemption_refusal \<Rightarrow> rejection_reason + 'a" where
  "refuse al r = Inl (InvalidPreemption al r)"

text \<open>
  One victim of an eviction group. The result is the reason its termination records and the notice
  it is owed; the check is returned with the victim and any reserved spot capacity noted. The
  source notes the victim before its other tests, so a refused victim stays noted as well.
\<close>

definition validate_victim ::
  "state_machine \<Rightarrow> placement \<Rightarrow> job_record \<Rightarrow> node_id \<Rightarrow> bool \<Rightarrow> capacity_memo \<Rightarrow> eviction \<Rightarrow> preempt_check \<Rightarrow>
     preempt_check \<times> (rejection_reason + preempt_reason \<times> duration)" where
  "validate_victim s p j node_id relocating used e check =
     (let victim = ev_allocation e in
      if victim |\<in>| pc_victims check then (check, refuse victim Duplicate)
      else
        let check = check\<lparr>pc_victims := finsert victim (pc_victims check)\<rparr> in
        case fmlookup (allocations s) victim of
          None \<Rightarrow> (check, Inl (UnknownAllocation victim))
        | Some al \<Rightarrow>
            if al_node (alr_allocation al) \<noteq> node_id then (check, refuse victim WrongNode)
            else if al_state (alr_allocation al) \<noteq> Active then (check, refuse victim NotActive)
            else (case (fmlookup (attempts s) (al_attempt (alr_allocation al)),
                        fmlookup (jobs s) (al_job (alr_allocation al))) of
                (Some a, Some vj) \<Rightarrow>
                  if att_state (atr_attempt a) \<noteq> Running then (check, refuse victim NotRunning)
                  else if current_attempt vj \<noteq> Some (att_id (atr_attempt a)) then (check, refuse victim NotRunning)
                  else if atr_preemption a \<noteq> None then (check, refuse victim AlreadyTerminating)
                  else if \<not> atr_effective_preemptible a then (check, refuse victim NotPreemptible)
                  else (case ev_rule e of
                      RulePriority \<Rightarrow>
                        if j_priority (jr_spec vj) \<ge> j_priority (jr_spec j)
                        then (check, refuse victim NotOutranked)
                        else (check, Inr (Priority (pl_job p), declared_notice s (jr_spec vj)))
                    | RuleRelocation \<Rightarrow>
                        if \<not> relocating then (check, refuse victim NotRelocatable)
                        else
                          let (ok, reserved) = reserve_spot_capacity s vj al used (pc_spot_reserved check)
                          in if ok
                             then (check\<lparr>pc_spot_reserved := reserved\<rparr>,
                                   Inr (Relocation (pl_job p), declared_notice s (jr_spec vj)))
                             else (check, refuse victim NotRelocatable))
              | _ \<Rightarrow> (check, refuse victim NotRunning)))"

fun validate_victims ::
  "state_machine \<Rightarrow> placement \<Rightarrow> job_record \<Rightarrow> node_id \<Rightarrow> bool \<Rightarrow> capacity_memo \<Rightarrow> eviction list \<Rightarrow> preempt_check \<Rightarrow>
     preempt_check \<times> (rejection_reason + (allocation_id \<times> preempt_reason) list \<times> duration)" where
  "validate_victims s p j n relocating used [] check = (check, Inr ([], dur_zero))"
| "validate_victims s p j n relocating used (e # es) check =
     (case validate_victim s p j n relocating used e check of
        (check, Inl r) \<Rightarrow> (check, Inl r)
      | (check, Inr (reason, notice)) \<Rightarrow>
          (case validate_victims s p j n relocating used es check of
             (check, Inl r) \<Rightarrow> (check, Inl r)
           | (check, Inr (out, max_notice)) \<Rightarrow>
               (check, Inr ((ev_allocation e, reason) # out, max notice max_notice))))"

definition held_beyond ::
  "preempt_check \<Rightarrow> allocation_id fset \<Rightarrow> placement \<Rightarrow> node_id \<Rightarrow> timestamp \<Rightarrow> resources" where
  "held_beyond check revoked p n bound =
     fold (\<lambda>(al, funded, release) acc.
        if al |\<notin>| revoked \<and> \<not> list_ex (\<lambda>e. ev_allocation e = al) (pl_preemptions p)
           \<and> \<not> (case release of None \<Rightarrow> False | Some t \<Rightarrow> t \<le> bound)
        then res_add acc funded else acc)
       (case fmlookup (pc_node_allocs check) n of None \<Rightarrow> [] | Some xs \<Rightarrow> xs) res_zero"

definition validate_preemptions ::
  "state_machine \<Rightarrow> placement \<Rightarrow> allocation_id fset \<Rightarrow> capacity_memo \<Rightarrow> preempt_check \<Rightarrow>
     preempt_check \<times> (rejection_reason + (allocation_id \<times> preempt_reason) list)" where
  "validate_preemptions s p revoked used check =
     (case pl_preemptions p of
        [] \<Rightarrow> (check, Inr [])
      | e # _ \<Rightarrow>
          let first = ev_allocation e in
          case (fmlookup (jobs s) (pl_job p), pl_allocations p) of
            (Some j, spec # _) \<Rightarrow>
              let n = as_node spec in
              (case fmlookup (nodes s) n of
                 None \<Rightarrow> (check, Inl (UnknownNode n))
               | Some rec \<Rightarrow>
                   if nr_is_draining rec then (check, refuse first RefuseDraining)
                   else if n |\<in>| lg_guarded (pc_ledger check)
                        \<or> pl_job p |\<in>| lg_beneficiaries (pc_ledger check)
                        \<or> n |\<in>| pc_groups check
                   then (check, refuse first Guarded)
                   else
                     let check = check\<lparr>pc_groups := finsert n (pc_groups check)\<rparr>;
                         relocating = (\<not> nd_preemptible_only (nr_node rec) \<and>
                           \<not> effective_preemptible (quota_entities s) (jr_spec j))
                     in (case validate_victims s p j n relocating used (pl_preemptions p) check of
                           (check, Inl r) \<Rightarrow> (check, Inl r)
                         | (check, Inr (out, max_notice)) \<Rightarrow>
                             let bound = ts_sat_add (ts_sat_add (pc_now check) max_notice)
                                   (po_abort_grace (policy s));
                                 held = held_beyond check revoked p n bound
                             in if fits_within (as_requested spec) (res_sub (nd_capacity (nr_node rec)) held)
                                then (check, Inr out)
                                else (check, refuse first DoesNotFit)))
          | _ \<Rightarrow> (check, Inl (UnknownJob (pl_job p))))"

end
