(* ===== verification/Placement.thy ===== *)
theory Placement
  imports Preempt
begin

text \<open>
  \<open>commit_placements\<close> of \<open>coppice-state/src/apply.rs\<close>, the scheduler's batch: validation of every
  revocation and placement, the simulation behind the two accrual guards, and the effects.
\<close>

section \<open>Validation of one placement\<close>

record backfill_check =
  bc_now :: timestamp
  bc_horizons :: "(node_id, node_horizon) fmap"
  bc_used :: capacity_memo
  bc_seated :: "(node_id, resources) fmap"

definition is_reseat :: "state_machine \<Rightarrow> allocation_id fset \<Rightarrow> job_record \<Rightarrow> bool" where
  "is_reseat s revoked j =
     (case Option.bind (state_attempt (jr_state j)) (fmlookup (attempts s)) of
        None \<Rightarrow> False
      | Some a \<Rightarrow> att_allocation (atr_attempt a) |\<in>| revoked)"

definition validate_placement ::
  "state_machine \<Rightarrow> placement \<Rightarrow> allocation_id fset \<Rightarrow> job_id fset \<Rightarrow> attempt_id fset \<Rightarrow> allocation_id fset \<Rightarrow>
     backfill_check \<Rightarrow> backfill_check \<times> (rejection_reason + timestamp option)" where
  "validate_placement s p revoked seen_jobs seen_attempts seen_allocs bf =
     (case fmlookup (jobs s) (pl_job p) of
        None \<Rightarrow> (bf, Inl (UnknownJob (pl_job p)))
      | Some j \<Rightarrow>
          if (jr_state j \<noteq> Queued \<and> \<not> is_reseat s revoked j) \<or> pl_job p |\<in>| seen_jobs
          then (bf, Inl (JobNotQueued (pl_job p)))
          else if tid_uuid (pl_group p) \<noteq> tid_uuid (pl_job p) \<or> length (pl_allocations p) \<noteq> 1
          then (bf, Inl UnsupportedPlacementShape)
          else
            let spec = hd (pl_allocations p) in
            if has_key (pl_attempt p) (attempts s) \<or> pl_attempt p |\<in>| seen_attempts
            then (bf, Inl (DuplicateAttempt (pl_attempt p)))
            else if has_key (as_id spec) (allocations s) \<or> as_id spec |\<in>| seen_allocs
            then (bf, Inl (DuplicateAllocation (as_id spec)))
            else case fmlookup (nodes s) (as_node spec) of
              None \<Rightarrow> (bf, Inl (UnknownNode (as_node spec)))
            | Some rec \<Rightarrow>
                let horizon = (case fmlookup (bc_horizons bf) (as_node spec) of
                      None \<Rightarrow> HorizonUnbounded | Some h \<Rightarrow> h);
                    verdict = node_admits rec (jr_spec j) (bc_now bf) (policy s) horizon
                in
                if verdict = AdmissionRefused then (bf, Inl (NodeDraining (as_node spec)))
                else
                  let cutoff = (case verdict of AdmissionBackfill t \<Rightarrow> Some t | _ \<Rightarrow> None) in
                  if nd_preemptible_only (nr_node rec) \<and> \<not> effective_preemptible (quota_entities s) (jr_spec j)
                  then (bf, Inl (NodeRequiresPreemptible (as_node spec)))
                  else if \<not> fits_within (as_requested spec) (nd_capacity (nr_node rec))
                  then (bf, Inl (RequestExceedsNodeCapacity (as_id spec)))
                  else if \<not> has_key (j_quota_entity (jr_spec j)) (quota_entities s)
                  then (bf, Inl (UnknownQuotaEntity (j_quota_entity (jr_spec j))))
                  else if cutoff = None then (bf, Inr None)
                  else
                    let seated = memo_get (bc_seated bf) (as_node spec);
                        free = res_sub (free_capacity s (as_node spec) (Some (bc_used bf))) seated
                    in if \<not> fits_within (as_requested spec) free
                       then (bf, Inl (NodeDraining (as_node spec)))
                       else (bf\<lparr>bc_seated := fmupd (as_node spec) (res_add seated (as_requested spec)) (bc_seated bf)\<rparr>,
                             Inr cutoff))"

section \<open>The accrual guards\<close>

definition add_revoked_funded :: "state_machine \<Rightarrow> node_id \<Rightarrow> allocation_id list \<Rightarrow> resources \<Rightarrow> resources" where
  "add_revoked_funded s n revoked free =
     fold (\<lambda>al free.
        case fmlookup (allocations s) al of
          None \<Rightarrow> free
        | Some a \<Rightarrow>
            if al_node (alr_allocation a) = n then res_add free (al_funded (alr_allocation a)) else free)
       revoked free"

text \<open>
  The survivors of one node's queue: the walk returns the capacity left and the accruing-job sets of
  the cluster and of the node.
\<close>

definition sim_queue_step :: "state_machine \<Rightarrow> allocation_id fset \<Rightarrow> allocation_id \<Rightarrow>
    resources \<times> job_id fset \<times> job_id fset \<Rightarrow> resources \<times> job_id fset \<times> job_id fset" where
  "sim_queue_step s revoked al acc =
     (if al |\<in>| revoked then acc
      else case fmlookup (allocations s) al of
        None \<Rightarrow> acc
      | Some rec \<Rightarrow>
          let (free, accruing, node_jobs) = acc;
              need = allocation_need rec;
              pledge = component_min free need;
              j = al_job (alr_allocation rec)
          in if pledge = need then (res_sub free pledge, accruing |-| {|j|}, node_jobs)
             else (res_sub free pledge, accruing, finsert j node_jobs))"

definition sim_queue :: "state_machine \<Rightarrow> allocation_id fset \<Rightarrow> allocation_id list \<Rightarrow>
    resources \<times> job_id fset \<times> job_id fset \<Rightarrow> resources \<times> job_id fset \<times> job_id fset" where
  "sim_queue s revoked queue = fold (sim_queue_step s revoked) queue"

record accrual_sim =
  sim_accruing :: "job_id fset"
  sim_free :: "(node_id, resources) fmap"
  sim_per_node :: "(node_id, job_id fset) fmap"

definition sim_node :: "state_machine \<Rightarrow> allocation_id fset \<Rightarrow> capacity_memo \<Rightarrow> node_id \<Rightarrow> accrual_sim \<Rightarrow> accrual_sim" where
  "sim_node s revoked used n sim =
     (let free = add_revoked_funded s n (sorted_list_of_fset revoked) (free_capacity s n (Some used));
          (free, accruing, node_jobs) =
            sim_queue s revoked (map snd (node_queue s n)) (free, sim_accruing sim, {||})
      in sim\<lparr>sim_accruing := accruing, sim_free := fmupd n free (sim_free sim),
             sim_per_node := fmupd n node_jobs (sim_per_node sim)\<rparr>)"

definition sim_placement :: "placement \<Rightarrow> accrual_sim \<Rightarrow> accrual_sim" where
  "sim_placement p sim =
     (case pl_allocations p of
        [] \<Rightarrow> sim
      | spec # _ \<Rightarrow>
          (case fmlookup (sim_free sim) (as_node spec) of
             None \<Rightarrow> sim
           | Some free \<Rightarrow>
               let pledge = component_min free (as_requested spec);
                   sim = sim\<lparr>sim_free := fmupd (as_node spec) (res_sub free pledge) (sim_free sim)\<rparr>
               in if pledge \<noteq> as_requested spec
                  then sim\<lparr>sim_accruing := finsert (pl_job p) (sim_accruing sim),
                           sim_per_node := fmmodify (as_node spec) (finsert (pl_job p))
                             (fm_or_insert (as_node spec) {||} (sim_per_node sim))\<rparr>
                  else sim))"

definition accruing_jobs_before :: "state_machine \<Rightarrow> allocation_id fset \<Rightarrow> job_id fset" where
  "accruing_jobs_before s revoked =
     fold (\<lambda>al js.
        if al |\<in>| revoked then js
        else case fmlookup (allocations s) al of
          None \<Rightarrow> js
        | Some a \<Rightarrow> finsert (al_job (alr_allocation a)) js)
       (vals (accrual_queue s)) {||}"

definition touched_nodes :: "state_machine \<Rightarrow> commit_placements_cmd \<Rightarrow> allocation_id fset \<Rightarrow> node_id fset" where
  "touched_nodes s c revoked =
     fset_of_list (List.map_filter (\<lambda>al. map_option (\<lambda>a. al_node (alr_allocation a)) (fmlookup (allocations s) al))
         (sorted_list_of_fset revoked))
     |\<union>| fset_of_list (concat (map (\<lambda>p. map as_node (pl_allocations p)) (cp_placements c)))"

definition run_accrual_sim :: "state_machine \<Rightarrow> commit_placements_cmd \<Rightarrow> allocation_id fset \<Rightarrow> capacity_memo \<Rightarrow> accrual_sim" where
  "run_accrual_sim s c revoked used =
     fold sim_placement (cp_placements c)
       (fold (sim_node s revoked used) (sorted_list_of_fset (touched_nodes s c revoked))
         \<lparr>sim_accruing = accruing_jobs_before s revoked, sim_free = fmempty, sim_per_node = fmempty\<rparr>)"

definition check_accrual_limit ::
  "state_machine \<Rightarrow> commit_placements_cmd \<Rightarrow> allocation_id fset \<Rightarrow> capacity_memo \<Rightarrow> rejection_reason option" where
  "check_accrual_limit s c revoked used =
     (let prior = fcard (accruing_jobs_before s revoked);
          sim = run_accrual_sim s c revoked used;
          after = fcard (sim_accruing sim);
          limit = po_accrual_limit (policy s)
      in if after > unat limit \<and> after > prior then Some (AccrualLimitExceeded limit)
         else map_option (\<lambda>(n, _). PerNodeAccrualExceeded n)
           (find (\<lambda>(_, js). fcard js > 1) (entries (sim_per_node sim))))"

section \<open>Validation of the batch\<close>

fun validate_revocations ::
  "state_machine \<Rightarrow> allocation_id list \<Rightarrow> u32 \<Rightarrow> allocation_id fset \<Rightarrow>
     (u32 \<times> rejection_reason) list \<times> u32 \<times> allocation_id fset" where
  "validate_revocations s [] idx revoked = ([], idx, revoked)"
| "validate_revocations s (al # rest) idx revoked =
     (case fmlookup (allocations s) al of
        None \<Rightarrow>
          let (items, idx', revoked') = validate_revocations s rest (idx + 1) revoked
          in ((idx, UnknownAllocation al) # items, idx', revoked')
      | Some r \<Rightarrow>
          if al_state (alr_allocation r) \<noteq> Accruing \<or> al |\<in>| revoked then
            let (items, idx', revoked') = validate_revocations s rest (idx + 1) revoked
            in ((idx, AllocationNotAccruing al) # items, idx', revoked')
          else validate_revocations s rest (idx + 1) (finsert al revoked))"

type_synonym accepted_placement =
  "placement \<times> timestamp option \<times> (allocation_id \<times> preempt_reason) list"

definition validate_item ::
  "state_machine \<Rightarrow> placement \<Rightarrow> allocation_id fset \<Rightarrow> job_id fset \<Rightarrow> attempt_id fset \<Rightarrow> allocation_id fset \<Rightarrow>
     capacity_memo \<Rightarrow> backfill_check \<Rightarrow> preempt_check option \<Rightarrow>
     backfill_check \<times> preempt_check option \<times>
     (rejection_reason + timestamp option \<times> (allocation_id \<times> preempt_reason) list)" where
  "validate_item s p revoked seen_jobs seen_attempts seen_allocs used bf preempt =
     (case validate_placement s p revoked seen_jobs seen_attempts seen_allocs bf of
        (bf, Inl r) \<Rightarrow> (bf, preempt, Inl r)
      | (bf, Inr cutoff) \<Rightarrow>
          (case preempt of
             None \<Rightarrow> (bf, None, Inr (cutoff, []))
           | Some check \<Rightarrow>
               (case validate_preemptions s p revoked used check of
                  (check, Inl r) \<Rightarrow> (bf, Some check, Inl r)
                | (check, Inr grp) \<Rightarrow> (bf, Some check, Inr (cutoff, grp)))))"

fun validate_placements ::
  "state_machine \<Rightarrow> placement list \<Rightarrow> u32 \<Rightarrow> allocation_id fset \<Rightarrow> job_id fset \<Rightarrow> attempt_id fset \<Rightarrow> allocation_id fset \<Rightarrow>
     capacity_memo \<Rightarrow> backfill_check \<Rightarrow> preempt_check option \<Rightarrow>
     (u32 \<times> rejection_reason) list \<times> accepted_placement list" where
  "validate_placements s [] idx revoked seen_jobs seen_attempts seen_allocs used bf preempt = ([], [])"
| "validate_placements s (p # ps) idx revoked seen_jobs seen_attempts seen_allocs used bf preempt =
     (case validate_item s p revoked seen_jobs seen_attempts seen_allocs used bf preempt of
        (bf, preempt, Inl r) \<Rightarrow>
          let (items, acc) = validate_placements s ps (idx + 1) revoked seen_jobs seen_attempts seen_allocs used bf preempt
          in ((idx, r) # items, acc)
      | (bf, preempt, Inr (cutoff, grp)) \<Rightarrow>
          let (items, acc) = validate_placements s ps (idx + 1) revoked
                (finsert (pl_job p) seen_jobs) (finsert (pl_attempt p) seen_attempts)
                (case pl_allocations p of [] \<Rightarrow> seen_allocs | spec # _ \<Rightarrow> finsert (as_id spec) seen_allocs)
                used bf preempt
          in (items, (p, cutoff, grp) # acc))"

definition drained_targets :: "state_machine \<Rightarrow> commit_placements_cmd \<Rightarrow> node_id fset" where
  "drained_targets s c = fset_of_list (filter
     (\<lambda>n. case fmlookup (nodes s) n of
        None \<Rightarrow> False
      | Some r \<Rightarrow>
          (case nd_drain (nr_node r) of None \<Rightarrow> False | Some d \<Rightarrow> dr_deadline d = None) \<and> \<not> nr_draining r)
     (concat (map (\<lambda>p. map as_node (pl_allocations p)) (cp_placements c))))"

section \<open>Effects\<close>

definition revoke_allocation :: "timestamp \<Rightarrow> allocation_id \<Rightarrow> effects \<times> capacity_memo option \<Rightarrow> effects \<times> capacity_memo option" where
  "revoke_allocation t al st =
     (case fmlookup (allocations (fst (fst st))) al of
        None \<Rightarrow> st
      | Some r \<Rightarrow> terminate_attempt (al_attempt (alr_allocation r)) Revoked dur_zero t True (snd st) (fst st))"

text \<open>What a placement charges: runtime, multiplier, refund fraction and interval length.\<close>

definition placement_price :: "policy_config \<Rightarrow> priority_multiplier \<Rightarrow> duration option \<Rightarrow> bool \<Rightarrow>
    u64 \<times> priority_multiplier \<times> u32 \<times> u64 option" where
  "placement_price p multiplier max_runtime preemptible =
     (let (runtime_s, multiplier, refund_fraction_milli, interval) =
        (case max_runtime of
           Some bound \<Rightarrow> (runtime_seconds_ceil bound, multiplier, po_refund_fraction_milli p, None)
         | None \<Rightarrow>
             let seconds = po_unbounded_charge_interval_s p in
             (seconds, multiplier_mul multiplier (po_unbounded_runtime_multiplier p), FULL_REFUND_MILLI, Some seconds))
      in (runtime_s, if preemptible then multiplier_mul multiplier (po_preemptible_multiplier p) else multiplier,
          refund_fraction_milli, interval))"

definition request_preemption :: "timestamp \<Rightarrow> node_id \<Rightarrow> allocation_id \<times> preempt_reason \<Rightarrow> effects \<Rightarrow> effects" where
  "request_preemption t n vr eff =
     (let (victim, reason) = vr; (s, evs) = eff in
      case fmlookup (allocations s) victim of
        None \<Rightarrow> (s, evs)
      | Some a \<Rightarrow>
          let attempt = al_attempt (alr_allocation a);
              j = al_job (alr_allocation a);
              notice = (case fmlookup (jobs s) j of
                  None \<Rightarrow> po_preemption_notice_floor (policy s)
                | Some r \<Rightarrow> declared_notice s (jr_spec r))
          in (s\<lparr>attempts := fmmodify attempt
                (\<lambda>r. r\<lparr>atr_preemption := Some \<lparr>pre_reason = reason, pre_requested_at = t, pre_acknowledged = None\<rparr>\<rparr>)
                (attempts s)\<rparr>,
              evs @ [PreemptRequested attempt victim j n reason notice]))"

text \<open>
  The records a placement inserts: the allocation, funded from the node's free capacity, and the
  attempt with its charge.
\<close>

definition seat_allocation :: "placement \<Rightarrow> allocation_spec \<Rightarrow> resources \<Rightarrow> u64 \<Rightarrow> allocation_record" where
  "seat_allocation p spec funded seq =
     \<lparr>alr_allocation = \<lparr>al_id = as_id spec, al_job = pl_job p, al_attempt = pl_attempt p,
        al_node = as_node spec, al_requested = as_requested spec, al_funded = funded,
        al_state = (if funded = as_requested spec then Funded else Accruing)\<rparr>,
      alr_seq = seq\<rparr>"

definition seat_attempt :: "state_machine \<Rightarrow> job_record \<Rightarrow> placement \<Rightarrow> allocation_spec \<Rightarrow> bool \<Rightarrow> timestamp \<Rightarrow>
    timestamp option \<Rightarrow> attempt_record" where
  "seat_attempt s j p spec fully t cutoff =
     (let preemptible = effective_preemptible (quota_entities s) (jr_spec j);
          (runtime_s, multiplier, refund_fraction_milli, interval) =
            placement_price (policy s) (jr_multiplier j) (j_max_runtime (jr_spec j)) preemptible;
          rate = resource_rate (j_requests (jr_spec j)) (po_cost_weights (policy s));
          charge = cost_from_rate rate runtime_s multiplier
      in \<lparr>atr_attempt = \<lparr>att_id = pl_attempt p, att_job = pl_job p, att_allocation = as_id spec,
            att_node = as_node spec, att_state = (if fully then Ready else AttAccruing)\<rparr>,
          atr_group = pl_group p,
          atr_charge = \<lparr>ch_amount = charge, ch_charged_at = t, ch_refund_fraction_milli = refund_fraction_milli,
            ch_interval = map_option (\<lambda>seconds. \<lparr>ci_seconds = seconds, ci_paid = 1,
              ci_last_tranche = charge, ci_prior_charged_at = t\<rparr>) interval\<rparr>,
          atr_rate = rate, atr_multiplier = multiplier, atr_started_at = None, atr_ended_at = None,
          atr_settlement = None, atr_effective_preemptible = preemptible, atr_preemption = None,
          atr_drain_cutoff = cutoff\<rparr>)"

definition place :: "timestamp \<Rightarrow> accepted_placement \<Rightarrow> effects \<times> capacity_memo \<Rightarrow> effects \<times> capacity_memo" where
  "place t ap st =
     (let (p, cutoff, grp) = ap; ((s, evs), used) = st in
      case (pl_allocations p, fmlookup (jobs s) (pl_job p)) of
        (spec # _, Some j) \<Rightarrow>
          let seq = next_allocation_seq s;
              free = free_capacity s (as_node spec) (Some used);
              funded = component_min free (as_requested spec);
              fully = (funded = as_requested spec);
              a = seat_attempt s j p spec fully t cutoff;
              s = s\<lparr>next_allocation_seq := seq + 1,
                    allocations := fmupd (as_id spec) (seat_allocation p spec funded seq) (allocations s),
                    accrual_queue := (if fully then accrual_queue s
                      else fmupd (as_node spec, seq) (as_id spec) (accrual_queue s)),
                    attempts := fmupd (pl_attempt p) a (attempts s)\<rparr>;
              evs = evs @ [AttemptStateChanged (pl_attempt p) (pl_job p) (as_node spec) (att_state (atr_attempt a))]
                  @ (if fully then [AllocationFunded (as_id spec) (pl_job p) (as_node spec)] else []);
              s = s\<lparr>jobs := fmmodify (pl_job p) (\<lambda>j. j\<lparr>jr_attempts := jr_attempts j @ [pl_attempt p]\<rparr>) (jobs s)\<rparr>;
              (s, evs) = job_transition (pl_job p) (Attempting (pl_attempt p)) (s, evs);
              s = charge_ancestors (j_quota_entity (jr_spec j)) (ch_amount (atr_charge a)) t s
          in (fold (request_preemption t (as_node spec)) grp (s, evs), memo_add (as_node spec) funded used)
      | _ \<Rightarrow> st)"

definition commit_effects ::
  "commit_placements_cmd \<Rightarrow> accepted_placement list \<Rightarrow> capacity_memo \<Rightarrow> state_machine \<Rightarrow> effects" where
  "commit_effects c accepted used s =
     (let (eff, used) = fold (revoke_allocation (cp_proposed_at c)) (cp_revocations c) ((s, []), Some used)
      in fst (fold (place (cp_proposed_at c)) accepted (eff, case used of None \<Rightarrow> fmempty | Some m \<Rightarrow> m)))"

definition batch_validation ::
  "state_machine \<Rightarrow> commit_placements_cmd \<Rightarrow>
     allocation_id fset \<times> (u32 \<times> rejection_reason) list \<times> accepted_placement list" where
  "batch_validation s c =
     (let (items, idx, revoked) = validate_revocations s (cp_revocations c) 0 {||};
          used = used_capacity_memo s;
          bf = \<lparr>bc_now = cp_proposed_at c, bc_horizons = node_horizons s (drained_targets s c),
                bc_used = used, bc_seated = fmempty\<rparr>;
          (items', accepted) = validate_placements s (cp_placements c) idx revoked {||} {||} {||} used bf
            (preempt_check_for_batch s c)
      in (revoked, items @ items', accepted))"

definition commit_placements :: "commit_placements_cmd \<Rightarrow> state_machine \<Rightarrow> apply_result" where
  "commit_placements c s =
     (let (revoked, items, accepted) = batch_validation s c; used = used_capacity_memo s in
      if items \<noteq> [] then (s, Inl (InvalidBatch items))
      else case check_accrual_limit s c revoked used of
        Some reason \<Rightarrow> (s, Inl reason)
      | None \<Rightarrow> let (s', evs) = commit_effects c accepted used s in (s', Inr evs))"

end
