(* ===== verification/Capacity.thy ===== *)
theory Capacity
  imports Placement
begin

text \<open>
  The accounting behind funding decisions. \<open>held\<close> is what the live allocations of a node hold in one
  dimension, as a natural number; the scan of \<open>free_capacity\<close> and the batch memo that replaces it
  both read that sum, cut at the top of the \<open>u64\<close> range. As long as no node holds more than the
  range, the memo kept up to date by \<open>memo_add\<close> and \<open>memo_sub\<close> is the scan.
\<close>

definition hold :: "node_id \<Rightarrow> dim \<Rightarrow> allocation_record \<Rightarrow> nat" where
  "hold n d r = (if al_node (alr_allocation r) = n \<and> live_allocation r
     then rget d (al_funded (alr_allocation r)) else 0)"

definition held :: "(allocation_id, allocation_record) fmap \<Rightarrow> node_id \<Rightarrow> dim \<Rightarrow> nat" where
  "held als n d = fm_sum (hold n d) als"

definition cap_of :: "state_machine \<Rightarrow> node_id \<Rightarrow> dim \<Rightarrow> nat" where
  "cap_of s n d = (case fmlookup (nodes s) n of None \<Rightarrow> 0 | Some r \<Rightarrow> rget d (nd_capacity (nr_node r)))"

lemma cap_of_le: "cap_of s n d \<le> U64_MAX"
  by (auto simp: cap_of_def rget_le split: option.split)

lemma rget_fold_if:
  "rget d (fold (\<lambda>x acc. if P x then res_add acc (f x) else acc) xs a) =
     min (rget d a + sum_list (map (\<lambda>x. if P x then rget d (f x) else 0) xs)) U64_MAX"
proof (induction xs arbitrary: a)
  case Nil
  then show ?case using rget_le [of d a] by simp
next
  case (Cons x xs)
  then show ?case by (simp add: rget_add add.assoc min_add_distrib_left min.assoc)
qed

lemma rget_used_scan: "rget d (used_scan s n) = min (held (allocations s) n d) U64_MAX"
  by (simp add: used_scan_def rget_fold_if held_def fm_sum_vals hold_def [abs_def])

section \<open>The memo\<close>

lemma memo_get_add:
  "memo_get (memo_add m amount used) n = (if n = m then res_add (memo_get used m) amount else memo_get used n)"
  by (auto simp: memo_get_def memo_add_def split: option.split)

lemma memo_get_sub:
  "memo_get (memo_sub m amount used) n = (if n = m then res_sub (memo_get used m) amount else memo_get used n)"
  by (auto simp: memo_get_def memo_sub_def res_eq_iff rget_sub split: option.split)

lemma rget_memo_fold:
  "rget d (memo_get (fold (\<lambda>r used. if live_allocation r
       then memo_add (al_node (alr_allocation r)) (al_funded (alr_allocation r)) used else used) rs used) n) =
     min (rget d (memo_get used n) + sum_list (map (hold n d) rs)) U64_MAX"
proof (induction rs arbitrary: used)
  case Nil
  then show ?case using rget_le [of d "memo_get used n"] by simp
next
  case (Cons r rs)
  then show ?case by (auto simp: memo_get_add rget_add hold_def)
qed

lemma memo_get_empty [simp]: "memo_get fmempty n = res_zero"
  by (simp add: memo_get_def)

lemma used_capacity_memo_scan: "memo_get (used_capacity_memo s) n = used_scan s n"
  by (rule rget_eqI)
    (simp add: used_capacity_memo_def rget_memo_fold rget_used_scan held_def fm_sum_vals)

definition memo_ok :: "(allocation_id, allocation_record) fmap \<Rightarrow> capacity_memo option \<Rightarrow> bool" where
  "memo_ok als used \<longleftrightarrow>
     (case used of None \<Rightarrow> True | Some memo \<Rightarrow> \<forall>n d. rget d (memo_get memo n) = held als n d)"

definition no_overflow :: "(allocation_id, allocation_record) fmap \<Rightarrow> bool" where
  "no_overflow als \<longleftrightarrow> (\<forall>n d. held als n d \<le> U64_MAX)"

lemma no_overflowD: "no_overflow als \<Longrightarrow> held als n d \<le> U64_MAX"
  by (simp add: no_overflow_def)

lemma memo_ok_None [simp]: "memo_ok als None"
  by (simp add: memo_ok_def)

lemma memo_ok_scan: "no_overflow (allocations s) \<Longrightarrow> memo_ok (allocations s) (Some (used_capacity_memo s))"
  by (simp add: memo_ok_def used_capacity_memo_scan rget_used_scan no_overflow_def)

lemma rget_free:
  assumes "no_overflow (allocations s)" "memo_ok (allocations s) used"
  shows "rget d (free_capacity s n used) = cap_of s n d - held (allocations s) n d"
  using assms by (auto simp: free_capacity_def cap_of_def rget_sub rget_used_scan memo_ok_def
      no_overflow_def min_absorb1 split: option.split)

lemma free_memo_scan:
  assumes "no_overflow (allocations s)" "memo_ok (allocations s) used"
  shows "free_capacity s n used = free_capacity s n None"
  by (rule rget_eqI) (simp add: rget_free assms)

section \<open>How one allocation moves what a node holds\<close>

lemma held_upd_old:
  "fmlookup als k = Some r \<Longrightarrow> held (fmupd k r' als) n d + hold n d r = held als n d + hold n d r'"
  unfolding held_def by (rule fm_sum_upd_old)

lemma held_upd_new: "fmlookup als k = None \<Longrightarrow> held (fmupd k r als) n d = hold n d r + held als n d"
  unfolding held_def by (rule fm_sum_upd_new)

lemma held_same: "fmlookup als k = Some r \<Longrightarrow> hold n d r' = hold n d r \<Longrightarrow> held (fmupd k r' als) n d = held als n d"
  unfolding held_def by (rule fm_sum_same)

lemma hold_le_held: "fmlookup als k = Some r \<Longrightarrow> hold n d r \<le> held als n d"
  by (simp add: held_def fm_sum_drop [of als k r])

lemma held_drop: "fmlookup als k = Some r \<Longrightarrow> held als n d = hold n d r + held (fmdrop k als) n d"
  unfolding held_def by (rule fm_sum_drop)

end
