(* ===== verification/Pool.thy ===== *)
theory Pool
  imports Capacity
begin

text \<open>
  The pool: attempts, allocations and the accrual queue, and the invariant that ties them together.
  Every attempt owns exactly one allocation and every allocation belongs to exactly one attempt, on
  the same node and for the same job; the allocation's state is the one the attempt's state calls
  for; what is funded never exceeds what was requested; and the accrual queue lists exactly the
  accruing allocations under their node and commit sequence. The invariant is stated on the three
  maps, with a set \<open>X\<close> of allocations that a pledge pass has just funded and whose attempts are still
  to be promoted by the ready barrier; between commands \<open>X\<close> is empty.
\<close>

abbreviation astate :: "attempt_record \<Rightarrow> attempt_state" where
  "astate r \<equiv> att_state (atr_attempt r)"
abbreviation kstate :: "allocation_record \<Rightarrow> allocation_state" where
  "kstate al \<equiv> al_state (alr_allocation al)"
abbreviation knode :: "allocation_record \<Rightarrow> node_id" where
  "knode al \<equiv> al_node (alr_allocation al)"
abbreviation kfunded :: "allocation_record \<Rightarrow> resources" where
  "kfunded al \<equiv> al_funded (alr_allocation al)"
abbreviation krequested :: "allocation_record \<Rightarrow> resources" where
  "krequested al \<equiv> al_requested (alr_allocation al)"
abbreviation kattempt :: "allocation_record \<Rightarrow> attempt_id" where
  "kattempt al \<equiv> al_attempt (alr_allocation al)"
abbreviation aalloc :: "attempt_record \<Rightarrow> allocation_id" where
  "aalloc r \<equiv> att_allocation (atr_attempt r)"
abbreviation ajob :: "attempt_record \<Rightarrow> job_id" where
  "ajob r \<equiv> att_job (atr_attempt r)"

type_synonym attempt_map = "(attempt_id, attempt_record) fmap"
type_synonym allocation_map = "(allocation_id, allocation_record) fmap"
type_synonym accrual_map = "(node_id \<times> u64, allocation_id) fmap"

section \<open>The invariant\<close>

fun alloc_state_for :: "attempt_state \<Rightarrow> allocation_state" where
  "alloc_state_for AttAccruing = Accruing"
| "alloc_state_for Ready = Funded"
| "alloc_state_for Dispatching = Funded"
| "alloc_state_for Running = Active"
| "alloc_state_for Finalizing = Active"
| "alloc_state_for (Terminal _) = Released"

definition matched :: "bool \<Rightarrow> attempt_state \<Rightarrow> allocation_state \<Rightarrow> bool" where
  "matched promoting st k \<longleftrightarrow>
     (if promoting then st = AttAccruing \<and> k = Funded else k = alloc_state_for st)"

definition linked :: "attempt_id \<Rightarrow> attempt_record \<Rightarrow> allocation_id \<Rightarrow> allocation_record \<Rightarrow> bool" where
  "linked a r k al \<longleftrightarrow>
     att_id (atr_attempt r) = a \<and> aalloc r = k \<and> al_id (alr_allocation al) = k \<and> kattempt al = a \<and>
     al_job (alr_allocation al) = ajob r \<and> knode al = att_node (atr_attempt r) \<and>
     tid_uuid (atr_group r) = tid_uuid (ajob r)"

definition fund_ok :: "allocation_record \<Rightarrow> bool" where
  "fund_ok al \<longleftrightarrow> fits_within (kfunded al) (krequested al) \<and>
     (kstate al = Accruing \<longrightarrow> kfunded al \<noteq> krequested al) \<and>
     (kstate al \<in> {Funded, Active} \<longrightarrow> kfunded al = krequested al)"

definition attempts_linked :: "allocation_id set \<Rightarrow> attempt_map \<Rightarrow> allocation_map \<Rightarrow> bool" where
  "attempts_linked X ats als \<longleftrightarrow> (\<forall>a r. fmlookup ats a = Some r \<longrightarrow>
     (\<exists>al. fmlookup als (aalloc r) = Some al \<and> linked a r (aalloc r) al \<and>
        matched (aalloc r \<in> X) (astate r) (kstate al)))"

definition allocations_owned :: "attempt_map \<Rightarrow> allocation_map \<Rightarrow> bool" where
  "allocations_owned ats als \<longleftrightarrow> (\<forall>k al. fmlookup als k = Some al \<longrightarrow>
     fund_ok al \<and> (\<exists>r. fmlookup ats (kattempt al) = Some r \<and> aalloc r = k))"

definition queue_exact :: "allocation_map \<Rightarrow> accrual_map \<Rightarrow> bool" where
  "queue_exact als q \<longleftrightarrow> (\<forall>n seq k. fmlookup q (n, seq) = Some k \<longleftrightarrow>
     (\<exists>al. fmlookup als k = Some al \<and> kstate al = Accruing \<and> knode al = n \<and> alr_seq al = seq))"

definition seqs_distinct :: "allocation_map \<Rightarrow> bool" where
  "seqs_distinct als \<longleftrightarrow> (\<forall>k al k' al'. fmlookup als k = Some al \<longrightarrow> fmlookup als k' = Some al' \<longrightarrow>
     alr_seq al = alr_seq al' \<longrightarrow> k = k')"

definition one_live :: "attempt_map \<Rightarrow> bool" where
  "one_live ats \<longleftrightarrow> (\<forall>a r a' r'. fmlookup ats a = Some r \<longrightarrow> fmlookup ats a' = Some r' \<longrightarrow>
     \<not> attempt_terminal (astate r) \<longrightarrow> \<not> attempt_terminal (astate r') \<longrightarrow> ajob r = ajob r' \<longrightarrow> a = a')"

definition pool :: "allocation_id set \<Rightarrow> attempt_map \<Rightarrow> allocation_map \<Rightarrow> accrual_map \<Rightarrow> bool" where
  "pool X ats als q \<longleftrightarrow> attempts_linked X ats als \<and> allocations_owned ats als \<and> queue_exact als q \<and>
     seqs_distinct als \<and> one_live ats"

lemma poolD:
  assumes "pool X ats als q"
  shows pool_linked: "attempts_linked X ats als" and pool_owned: "allocations_owned ats als"
    and pool_exact: "queue_exact als q" and pool_seqs: "seqs_distinct als" and pool_live: "one_live ats"
  using assms by (simp_all add: pool_def)

lemma pool_fund_ok: "pool X ats als q \<Longrightarrow> fmlookup als k = Some al \<Longrightarrow> fund_ok al"
  using pool_owned by (auto simp: allocations_owned_def)

lemma pool_attempt:
  assumes "pool X ats als q" "fmlookup ats a = Some r"
  obtains al where "fmlookup als (aalloc r) = Some al" "linked a r (aalloc r) al"
    "matched (aalloc r \<in> X) (astate r) (kstate al)" "fund_ok al"
proof -
  obtain al where "fmlookup als (aalloc r) = Some al" "linked a r (aalloc r) al"
    "matched (aalloc r \<in> X) (astate r) (kstate al)"
    using pool_linked [OF assms(1)] assms(2) by (auto simp: attempts_linked_def)
  then show thesis using that pool_fund_ok [OF assms(1)] by simp
qed

lemma pool_allocation:
  assumes "pool X ats als q" "fmlookup als k = Some al"
  obtains r where "fmlookup ats (kattempt al) = Some r" "linked (kattempt al) r k al"
    "matched (k \<in> X) (astate r) (kstate al)" "fund_ok al"
proof -
  obtain r where r: "fmlookup ats (kattempt al) = Some r" "aalloc r = k"
    using pool_owned [OF assms(1)] assms(2) by (auto simp: allocations_owned_def)
  then show thesis using pool_attempt [OF assms(1) r(1)] assms(2) that by auto
qed

lemma pool_queue:
  "pool X ats als q \<Longrightarrow> fmlookup q (n, seq) = Some k \<longleftrightarrow>
     (\<exists>al. fmlookup als k = Some al \<and> kstate al = Accruing \<and> knode al = n \<and> alr_seq al = seq)"
  using pool_exact by (simp add: queue_exact_def)

lemma seqs_distinctD:
  "seqs_distinct als \<Longrightarrow> fmlookup als k = Some al \<Longrightarrow> fmlookup als k' = Some al' \<Longrightarrow>
     alr_seq al = alr_seq al' \<Longrightarrow> k = k'"
  unfolding seqs_distinct_def by metis

lemma one_liveD:
  "one_live ats \<Longrightarrow> fmlookup ats a = Some r \<Longrightarrow> fmlookup ats a' = Some r' \<Longrightarrow>
     \<not> attempt_terminal (astate r) \<Longrightarrow> \<not> attempt_terminal (astate r') \<Longrightarrow> ajob r = ajob r' \<Longrightarrow> a = a'"
  unfolding one_live_def by metis

lemmas pool_seq_inj = seqs_distinctD [OF pool_seqs]
lemmas pool_one_live = one_liveD [OF pool_live]

lemma pool_drop_id:
  assumes "pool X ats als q" "fmlookup als k = Some al" "kstate al \<noteq> Accruing"
  shows "fmdrop (knode al, alr_seq al) q = q"
proof (rule fm_sum_drop_None)
  show "fmlookup q (knode al, alr_seq al) = None"
  proof (rule ccontr)
    assume "fmlookup q (knode al, alr_seq al) \<noteq> None"
    then obtain k' where "fmlookup q (knode al, alr_seq al) = Some k'" by blast
    then obtain al' where "fmlookup als k' = Some al'" "kstate al' = Accruing" "alr_seq al' = alr_seq al"
      using assms(1) by (auto simp: pool_queue)
    then show False using pool_seq_inj [OF assms(1,2)] assms(2,3) by force
  qed
qed

section \<open>Primitive changes\<close>

definition same_seat :: "allocation_record \<Rightarrow> allocation_record \<Rightarrow> bool" where
  "same_seat al al' \<longleftrightarrow> al_id (alr_allocation al') = al_id (alr_allocation al) \<and>
     kattempt al' = kattempt al \<and> al_job (alr_allocation al') = al_job (alr_allocation al) \<and>
     knode al' = knode al \<and> krequested al' = krequested al \<and> alr_seq al' = alr_seq al"

definition same_attempt :: "attempt_record \<Rightarrow> attempt_record \<Rightarrow> bool" where
  "same_attempt r r' \<longleftrightarrow> att_id (atr_attempt r') = att_id (atr_attempt r) \<and> aalloc r' = aalloc r \<and>
     ajob r' = ajob r \<and> att_node (atr_attempt r') = att_node (atr_attempt r) \<and> atr_group r' = atr_group r"

lemma same_refl [simp]: "same_seat al al" "same_attempt r r"
  by (simp_all add: same_seat_def same_attempt_def)

text \<open>An attempt and its allocation move together; every change of the pool below is an instance.\<close>

lemma pool_pair:
  assumes P: "pool X ats als q"
    and r: "fmlookup ats a = Some r" and al: "fmlookup als (aalloc r) = Some al"
    and same: "same_attempt r r'" "same_seat al al'" and f: "fund_ok al'"
    and m: "matched (aalloc r \<in> X') (astate r') (kstate al')"
    and X': "X' - {aalloc r} = X - {aalloc r}"
    and live: "attempt_terminal (astate r) \<longrightarrow> attempt_terminal (astate r')"
    and acc: "kstate al' = Accruing \<longrightarrow> kstate al = Accruing"
  shows "pool X' (fmupd a r' ats) (fmupd (aalloc r) al' als)
    (if kstate al' = Accruing then q else fmdrop (knode al, alr_seq al) q)"
proof -
  have l: "linked a r (aalloc r) al" using pool_attempt [OF P r] al by auto
  then have l': "linked a r' (aalloc r) al'" using same
    by (auto simp: linked_def same_seat_def same_attempt_def)
  have ka: "kattempt al' = a" "aalloc r' = aalloc r" using l' by (auto simp: linked_def)
  have inX: "k \<in> X' \<longleftrightarrow> k \<in> X" if "k \<noteq> aalloc r" for k using X' that by blast
  have other: "aalloc rb \<noteq> aalloc r" if ne: "b \<noteq> a" and rb: "fmlookup ats b = Some rb" for b rb
  proof
    assume "aalloc rb = aalloc r"
    moreover obtain alb where "fmlookup als (aalloc rb) = Some alb" "linked b rb (aalloc rb) alb"
      using pool_attempt [OF P rb] by auto
    ultimately show False using l al ne by (simp add: linked_def)
  qed
  have seq: "alr_seq alk \<noteq> alr_seq al" if "k \<noteq> aalloc r" "fmlookup als k = Some alk" for k alk
    using pool_seq_inj [OF P al that(2)] that(1) by auto
  have "attempts_linked X' (fmupd a r' ats) (fmupd (aalloc r) al' als)"
    unfolding attempts_linked_def
  proof (intro allI impI)
    fix b rb assume b: "fmlookup (fmupd a r' ats) b = Some rb"
    show "\<exists>al. fmlookup (fmupd (aalloc r) al' als) (aalloc rb) = Some al \<and> linked b rb (aalloc rb) al \<and>
        matched (aalloc rb \<in> X') (astate rb) (kstate al)"
    proof (cases "b = a")
      case True
      then show ?thesis using b l' m ka by auto
    next
      case False
      with b have b: "fmlookup ats b = Some rb" by simp
      show ?thesis using pool_attempt [OF P b] other [OF False b] inX by auto
    qed
  qed
  moreover have "allocations_owned (fmupd a r' ats) (fmupd (aalloc r) al' als)"
    unfolding allocations_owned_def
  proof (intro allI impI)
    fix k alk assume k: "fmlookup (fmupd (aalloc r) al' als) k = Some alk"
    show "fund_ok alk \<and> (\<exists>rk. fmlookup (fmupd a r' ats) (kattempt alk) = Some rk \<and> aalloc rk = k)"
    proof (cases "k = aalloc r")
      case True
      then show ?thesis using k f ka by auto
    next
      case False
      with k have k: "fmlookup als k = Some alk" by simp
      obtain rk where "fmlookup ats (kattempt alk) = Some rk" "linked (kattempt alk) rk k alk" "fund_ok alk"
        using pool_allocation [OF P k] by auto
      then show ?thesis using False r by (auto simp: linked_def)
    qed
  qed
  moreover have "queue_exact (fmupd (aalloc r) al' als)
      (if kstate al' = Accruing then q else fmdrop (knode al, alr_seq al) q)"
    unfolding queue_exact_def
  proof (intro allI)
    fix n sq k
    note q = pool_queue [OF P, of n sq k]
    show "fmlookup (if kstate al' = Accruing then q else fmdrop (knode al, alr_seq al) q) (n, sq) = Some k \<longleftrightarrow>
        (\<exists>alk. fmlookup (fmupd (aalloc r) al' als) k = Some alk \<and> kstate alk = Accruing \<and> knode alk = n \<and> alr_seq alk = sq)"
    proof (cases "k = aalloc r")
      case True
      then show ?thesis using q al acc same(2) by (auto simp: same_seat_def)
    next
      case False
      then show ?thesis using q seq [OF False] by auto
    qed
  qed
  moreover have "seqs_distinct (fmupd (aalloc r) al' als)"
    unfolding seqs_distinct_def using pool_seq_inj [OF P] al same(2)
    by (auto simp: same_seat_def)
  moreover have "one_live (fmupd a r' ats)"
    unfolding one_live_def using pool_one_live [OF P] r live same(1)
    by (auto simp: same_attempt_def)
  ultimately show ?thesis by (simp add: pool_def)
qed

lemma fmupd_id: "fmlookup m k = Some v \<Longrightarrow> fmupd k v m = m"
  by (rule fmap_ext) auto

lemma seqs_distinct_upd:
  assumes "seqs_distinct als" "\<And>k' al'. fmlookup als k' = Some al' \<Longrightarrow> alr_seq al' \<noteq> alr_seq al"
  shows "seqs_distinct (fmupd k al als)"
  unfolding seqs_distinct_def
proof (intro allI impI)
  fix k1 al1 k2 al2
  assume *: "fmlookup (fmupd k al als) k1 = Some al1" "fmlookup (fmupd k al als) k2 = Some al2"
    "alr_seq al1 = alr_seq al2"
  consider "k1 = k" "k2 = k" | "k1 \<noteq> k" "k2 = k" | "k1 = k" "k2 \<noteq> k" | "k1 \<noteq> k" "k2 \<noteq> k" by blast
  then show "k1 = k2"
  proof cases
    case 2
    then show ?thesis using * assms(2) [of k1 al1] by simp
  next
    case 3
    then show ?thesis using * assms(2) [of k2 al2] by simp
  next
    case 4
    then have "fmlookup als k1 = Some al1" "fmlookup als k2 = Some al2" using * by simp_all
    then show ?thesis using seqs_distinctD [OF assms(1)] *(3) by blast
  qed simp
qed

lemma one_live_upd:
  assumes "one_live ats" "\<And>a' r'. fmlookup ats a' = Some r' \<Longrightarrow> ajob r' = ajob r \<Longrightarrow> attempt_terminal (astate r')"
  shows "one_live (fmupd a r ats)"
  unfolding one_live_def
proof (intro allI impI)
  fix a1 r1 a2 r2
  assume *: "fmlookup (fmupd a r ats) a1 = Some r1" "fmlookup (fmupd a r ats) a2 = Some r2"
    "\<not> attempt_terminal (astate r1)" "\<not> attempt_terminal (astate r2)" "ajob r1 = ajob r2"
  consider "a1 = a" "a2 = a" | "a1 \<noteq> a" "a2 = a" | "a1 = a" "a2 \<noteq> a" | "a1 \<noteq> a" "a2 \<noteq> a" by blast
  then show "a1 = a2"
  proof cases
    case 2
    then show ?thesis using * assms(2) [of a1 r1] by simp
  next
    case 3
    then show ?thesis using * assms(2) [of a2 r2] by simp
  next
    case 4
    then have "fmlookup ats a1 = Some r1" "fmlookup ats a2 = Some r2" using * by simp_all
    then show ?thesis using one_liveD [OF assms(1)] *(3-5) by blast
  qed simp
qed

lemma seqs_distinct_drop: "seqs_distinct als \<Longrightarrow> seqs_distinct (fmdrop k als)"
  unfolding seqs_distinct_def by (metis fmlookup_drop option.distinct(1))

lemma one_live_drop: "one_live ats \<Longrightarrow> one_live (fmdrop a ats)"
  unfolding one_live_def by (metis fmlookup_drop option.distinct(1))

text \<open>A new attempt with its allocation.\<close>

lemma pool_new:
  assumes P: "pool X ats als q" and fresh: "fmlookup ats a = None" "fmlookup als k = None" "k \<notin> X"
    and l: "linked a r k al" and f: "fund_ok al" and m: "matched False (astate r) (kstate al)"
    and seq: "\<And>k' al'. fmlookup als k' = Some al' \<Longrightarrow> alr_seq al' \<noteq> alr_seq al"
    and idle: "\<And>a' r'. fmlookup ats a' = Some r' \<Longrightarrow> ajob r' = ajob r \<Longrightarrow> attempt_terminal (astate r')"
  shows "pool X (fmupd a r ats) (fmupd k al als)
    (if kstate al = Accruing then fmupd (knode al, alr_seq al) k q else q)"
proof -
  have ka: "aalloc r = k" "kattempt al = a" using l by (auto simp: linked_def)
  have "attempts_linked X (fmupd a r ats) (fmupd k al als)"
    unfolding attempts_linked_def
  proof (intro allI impI)
    fix b rb assume b: "fmlookup (fmupd a r ats) b = Some rb"
    show "\<exists>al'. fmlookup (fmupd k al als) (aalloc rb) = Some al' \<and> linked b rb (aalloc rb) al' \<and>
        matched (aalloc rb \<in> X) (astate rb) (kstate al')"
    proof (cases "b = a")
      case True
      then show ?thesis using b l m ka fresh(3) by auto
    next
      case False
      with b have b: "fmlookup ats b = Some rb" by simp
      obtain alb where *: "fmlookup als (aalloc rb) = Some alb" "linked b rb (aalloc rb) alb"
        "matched (aalloc rb \<in> X) (astate rb) (kstate alb)" using pool_attempt [OF P b] by auto
      then have "aalloc rb \<noteq> k" using fresh(2) by auto
      with * show ?thesis by simp
    qed
  qed
  moreover have "allocations_owned (fmupd a r ats) (fmupd k al als)"
    unfolding allocations_owned_def
  proof (intro allI impI)
    fix k' al' assume k': "fmlookup (fmupd k al als) k' = Some al'"
    show "fund_ok al' \<and> (\<exists>rk. fmlookup (fmupd a r ats) (kattempt al') = Some rk \<and> aalloc rk = k')"
    proof (cases "k' = k")
      case True
      then show ?thesis using k' f ka by auto
    next
      case False
      with k' have k': "fmlookup als k' = Some al'" by simp
      obtain rk where "fmlookup ats (kattempt al') = Some rk" "linked (kattempt al') rk k' al'" "fund_ok al'"
        using pool_allocation [OF P k'] by auto
      then show ?thesis using fresh(1) by (auto simp: linked_def)
    qed
  qed
  moreover have "queue_exact (fmupd k al als) (if kstate al = Accruing then fmupd (knode al, alr_seq al) k q else q)"
    unfolding queue_exact_def
  proof (intro allI)
    fix n sq k'
    note q = pool_queue [OF P, of n sq k']
    show "fmlookup (if kstate al = Accruing then fmupd (knode al, alr_seq al) k q else q) (n, sq) = Some k' \<longleftrightarrow>
        (\<exists>al'. fmlookup (fmupd k al als) k' = Some al' \<and> kstate al' = Accruing \<and> knode al' = n \<and> alr_seq al' = sq)"
    proof (cases "k' = k")
      case True
      then show ?thesis using q fresh(2) by auto
    next
      case False
      have "fmlookup q (knode al, alr_seq al) \<noteq> Some k'"
        using seq [of k'] by (simp add: pool_queue [OF P])
      then show ?thesis using q False by auto
    qed
  qed
  moreover have "seqs_distinct (fmupd k al als)"
    using pool_seqs [OF P] seq by (auto intro: seqs_distinct_upd)
  moreover have "one_live (fmupd a r ats)"
    using pool_live [OF P] idle by (auto intro: one_live_upd)
  ultimately show ?thesis by (simp add: pool_def)
qed

text \<open>An evicted attempt leaves with its allocation.\<close>

lemma pool_evict:
  assumes P: "pool X ats als q" and r: "fmlookup ats a = Some r" and al: "fmlookup als (aalloc r) = Some al"
  shows "pool X (fmdrop a ats) (fmdrop (aalloc r) als) (fmdrop (knode al, alr_seq al) q)"
proof -
  have l: "linked a r (aalloc r) al" using pool_attempt [OF P r] al by auto
  have "attempts_linked X (fmdrop a ats) (fmdrop (aalloc r) als)"
    unfolding attempts_linked_def
  proof (intro allI impI)
    fix b rb assume "fmlookup (fmdrop a ats) b = Some rb"
    then have b: "fmlookup ats b = Some rb" "b \<noteq> a" by (auto split: if_splits)
    obtain alb where *: "fmlookup als (aalloc rb) = Some alb" "linked b rb (aalloc rb) alb"
      "matched (aalloc rb \<in> X) (astate rb) (kstate alb)" using pool_attempt [OF P b(1)] by auto
    then have "aalloc rb \<noteq> aalloc r" using l al b(2) by (auto simp: linked_def)
    with * show "\<exists>al'. fmlookup (fmdrop (aalloc r) als) (aalloc rb) = Some al' \<and> linked b rb (aalloc rb) al' \<and>
        matched (aalloc rb \<in> X) (astate rb) (kstate al')" by auto
  qed
  moreover have "allocations_owned (fmdrop a ats) (fmdrop (aalloc r) als)"
    unfolding allocations_owned_def
  proof (intro allI impI)
    fix k alk assume "fmlookup (fmdrop (aalloc r) als) k = Some alk"
    then have k: "fmlookup als k = Some alk" "k \<noteq> aalloc r" by (auto split: if_splits)
    obtain rk where *: "fmlookup ats (kattempt alk) = Some rk" "linked (kattempt alk) rk k alk" "fund_ok alk"
      using pool_allocation [OF P k(1)] by auto
    then have "kattempt alk \<noteq> a" using k(2) r by (auto simp: linked_def)
    with * show "fund_ok alk \<and> (\<exists>rk. fmlookup (fmdrop a ats) (kattempt alk) = Some rk \<and> aalloc rk = k)"
      by (auto simp: linked_def)
  qed
  moreover have "queue_exact (fmdrop (aalloc r) als) (fmdrop (knode al, alr_seq al) q)"
    unfolding queue_exact_def
  proof (intro allI)
    fix n sq k
    have seq: "alr_seq alk \<noteq> alr_seq al" if "k \<noteq> aalloc r" "fmlookup als k = Some alk" for alk
      using pool_seq_inj [OF P al that(2)] that(1) by auto
    show "fmlookup (fmdrop (knode al, alr_seq al) q) (n, sq) = Some k \<longleftrightarrow>
        (\<exists>alk. fmlookup (fmdrop (aalloc r) als) k = Some alk \<and> kstate alk = Accruing \<and> knode alk = n \<and> alr_seq alk = sq)"
    proof (cases "k = aalloc r")
      case True
      then show ?thesis using pool_queue [OF P, of n sq k] al by auto
    next
      case False
      then show ?thesis using pool_queue [OF P, of n sq k] seq [OF False] by auto
    qed
  qed
  moreover have "seqs_distinct (fmdrop (aalloc r) als)" "one_live (fmdrop a ats)"
    using pool_seqs [OF P] pool_live [OF P]
    by (simp_all add: seqs_distinct_drop one_live_drop)
  ultimately show ?thesis by (simp add: pool_def)
qed

end
