(* ===== verification/Pledge.thy ===== *)
theory Pledge
  imports Pool
begin

text \<open>
  The pledge pass of \<open>coppice-state/src/apply.rs\<close> against the invariant of the pool: what one pledge
  does to one allocation, the loop over the node's queue, the ready barrier, and the whole pass. The
  pass keeps the pool, moves holds on its own node only and never past the free capacity it started
  from, and ends with no capacity an accruing allocation of the node could still use.
\<close>

section \<open>One pledge\<close>

definition fund_more :: "resources \<Rightarrow> allocation_record \<Rightarrow> allocation_record" where
  "fund_more pledge al =
     (let funded = res_add (kfunded al) pledge
      in al\<lparr>alr_allocation := (alr_allocation al)\<lparr>al_funded := funded,
           al_state := (if funded = krequested al then Funded else kstate al)\<rparr>\<rparr>)"

lemma fund_more_seat [simp]:
  "same_seat al (fund_more pledge al)"
  "kfunded (fund_more pledge al) = res_add (kfunded al) pledge"
  "krequested (fund_more pledge al) = krequested al"
  "knode (fund_more pledge al) = knode al"
  "kattempt (fund_more pledge al) = kattempt al"
  "alr_seq (fund_more pledge al) = alr_seq al"
  "kstate (fund_more pledge al) = (if res_add (kfunded al) pledge = krequested al then Funded else kstate al)"
  by (simp_all add: fund_more_def same_seat_def Let_def)

lemma rget_need: "rget d (allocation_need al) = rget d (krequested al) - rget d (kfunded al)"
  by (simp add: allocation_need_def rget_sub)

lemma rget_fund_more:
  assumes "fund_ok al" "pledge = component_min free (allocation_need al)"
  shows "rget d (res_add (kfunded al) pledge) = rget d (kfunded al) + rget d pledge"
    and "rget d pledge \<le> rget d (krequested al) - rget d (kfunded al)"
    and "rget d (kfunded al) \<le> rget d (krequested al)"
proof -
  show le: "rget d (kfunded al) \<le> rget d (krequested al)"
    using assms(1) by (simp add: fund_ok_def fits_within_iff)
  show p: "rget d pledge \<le> rget d (krequested al) - rget d (kfunded al)"
    by (simp add: assms(2) rget_min rget_need)
  show "rget d (res_add (kfunded al) pledge) = rget d (kfunded al) + rget d pledge"
    using le p rget_le [of d "krequested al"] by (simp add: rget_add)
qed

lemma fund_more_ok:
  assumes "fund_ok al" "kstate al = Accruing" "pledge = component_min free (allocation_need al)"
  shows "fund_ok (fund_more pledge al)"
proof -
  have "rget d (res_add (kfunded al) pledge) \<le> rget d (krequested al)" for d
    using rget_fund_more [OF assms(1,3), of d] by linarith
  then show ?thesis using assms(2) by (simp add: fund_ok_def fits_within_iff)
qed

lemma fund_more_need:
  assumes "fund_ok al" "pledge = component_min free (allocation_need al)"
  shows "rget d (allocation_need (fund_more pledge al)) = rget d (allocation_need al) - rget d pledge"
  using rget_fund_more [OF assms, of d] by (simp add: rget_need)

lemma hold_fund_more:
  assumes "fund_ok al" "kstate al = Accruing" "pledge = component_min free (allocation_need al)"
  shows "hold m d (fund_more pledge al) = hold m d al + (if m = knode al then rget d pledge else 0)"
  using rget_fund_more [OF assms(1,3), of d] assms(2) by (auto simp: hold_def live_allocation_def)

lemma pledge_loop_step:
  assumes "fmlookup (allocations s) k = Some al" "\<not> res_is_zero free"
    "pledge = component_min free (allocation_need al)" "\<not> res_is_zero pledge" "kstate al = Accruing"
  shows "pledge_loop n ((seq, k) # queue) free used (s, evs) =
    (let al' = fund_more pledge al;
         (eff, used', newly) = pledge_loop n queue (res_sub free pledge) (map_option (memo_add n pledge) used)
           (s\<lparr>allocations := fmupd k al' (allocations s),
              accrual_queue := (if kstate al' = Accruing then accrual_queue s else fmdrop (n, seq) (accrual_queue s))\<rparr>,
            if kstate al' = Accruing then evs else evs @ [AllocationFunded k (al_job (alr_allocation al)) n])
     in (eff, used', if kstate al' = Accruing then newly else k # newly))"
  using assms by (simp add: Let_def fund_more_def split: prod.split)

section \<open>The loop\<close>

definition queued_on :: "node_id \<Rightarrow> allocation_map \<Rightarrow> (u64 \<times> allocation_id) list \<Rightarrow> bool" where
  "queued_on n als queue \<longleftrightarrow> distinct (map snd queue) \<and>
     (\<forall>(seq, k) \<in> set queue. \<exists>al. fmlookup als k = Some al \<and> kstate al = Accruing \<and> knode al = n \<and> alr_seq al = seq)"

lemma queued_on_Cons:
  assumes "queued_on n als ((seq, k) # queue)"
  obtains al where "fmlookup als k = Some al" "kstate al = Accruing" "knode al = n" "alr_seq al = seq"
    "k \<notin> snd ` set queue" "queued_on n als queue"
  using assms by (auto simp: queued_on_def)

lemma queued_on_upd: "queued_on n als queue \<Longrightarrow> k \<notin> snd ` set queue \<Longrightarrow> queued_on n (fmupd k al als) queue"
  unfolding queued_on_def by force

lemma set_node_queue: "(seq, k) \<in> set (node_queue s n) \<longleftrightarrow> fmlookup (accrual_queue s) (n, seq) = Some k"
  by (force simp: node_queue_def set_entries image_iff)

lemma node_queue_queued:
  assumes P: "pool X ats (allocations s) (accrual_queue s)"
  shows "queued_on n (allocations s) (node_queue s n)"
proof -
  let ?f = "filter (\<lambda>((m, _), _). m = n) (entries (accrual_queue s))"
  have "inj_on snd (set ?f)"
    by (rule inj_onI) (auto simp: set_entries pool_queue [OF P])
  moreover have "distinct ?f"
    using distinct_entries [of "accrual_queue s"] by (simp add: distinct_map)
  ultimately have "distinct (map snd ?f)" by (simp add: distinct_map)
  then have "distinct (map snd (node_queue s n))"
    by (simp add: node_queue_def comp_def case_prod_unfold)
  then show ?thesis by (auto simp: queued_on_def set_node_queue pool_queue [OF P])
qed

text \<open>What a pledge may do to an allocation: grow the hold of an accruing one.\<close>

definition grew :: "allocation_record \<Rightarrow> allocation_record \<Rightarrow> bool" where
  "grew al al' \<longleftrightarrow> same_seat al al' \<and> (al' = al \<or> kstate al = Accruing \<and> kstate al' \<in> {Accruing, Funded})"

definition grown :: "allocation_map \<Rightarrow> allocation_map \<Rightarrow> bool" where
  "grown als als' \<longleftrightarrow> (\<forall>k. rel_option grew (fmlookup als k) (fmlookup als' k))"

lemma grew_refl [simp]: "grew al al"
  by (simp add: grew_def)

lemma grew_trans: "grew a b \<Longrightarrow> grew b c \<Longrightarrow> grew a c"
  by (auto simp: grew_def same_seat_def)

lemma grown_refl [simp]: "grown als als"
  by (simp add: grown_def option.rel_refl)

lemma grown_trans: "grown a b \<Longrightarrow> grown b c \<Longrightarrow> grown a c"
  unfolding grown_def
proof
  fix k assume "\<forall>k. rel_option grew (fmlookup a k) (fmlookup b k)" "\<forall>k. rel_option grew (fmlookup b k) (fmlookup c k)"
  then have "rel_option grew (fmlookup a k) (fmlookup b k)" "rel_option grew (fmlookup b k) (fmlookup c k)" by simp_all
  then show "rel_option grew (fmlookup a k) (fmlookup c k)"
    by (cases "fmlookup a k"; cases "fmlookup b k"; cases "fmlookup c k") (simp_all add: grew_trans)
qed

lemma grown_upd: "fmlookup als k = Some al \<Longrightarrow> grew al al' \<Longrightarrow> grown als (fmupd k al' als)"
  by (simp add: grown_def option.rel_refl)

lemma grownD: "grown als als' \<Longrightarrow> fmlookup als k = Some al \<Longrightarrow> \<exists>al'. fmlookup als' k = Some al' \<and> grew al al'"
  by (metis grown_def option_rel_Some1)

lemma grownD': "grown als als' \<Longrightarrow> fmlookup als' k = Some al' \<Longrightarrow> \<exists>al. fmlookup als k = Some al \<and> grew al al'"
  by (metis grown_def option_rel_Some2)

text \<open>
  What the loop establishes: the frame, the pool with the newly funded allocations still to be
  promoted, the bounds on what the node holds, and exhaustion: an allocation that is still accruing
  needs nothing of a dimension that has capacity left.
\<close>

definition hold_moves :: "node_id \<Rightarrow> resources \<Rightarrow> allocation_map \<Rightarrow> allocation_map \<Rightarrow> bool" where
  "hold_moves n free als als' \<longleftrightarrow>
     (\<forall>m d. m \<noteq> n \<longrightarrow> held als' m d = held als m d) \<and>
     (\<forall>d. held als n d \<le> held als' n d \<and> held als' n d \<le> held als n d + rget d free)"

definition exhausted :: "node_id \<Rightarrow> resources \<Rightarrow> allocation_id set \<Rightarrow> allocation_map \<Rightarrow> allocation_map \<Rightarrow> bool" where
  "exhausted n free K als als' \<longleftrightarrow>
     (\<forall>k al d. k \<in> K \<longrightarrow> fmlookup als' k = Some al \<longrightarrow> kstate al = Accruing \<longrightarrow>
        held als' n d = held als n d + rget d free \<or> rget d (allocation_need al) = 0)"

definition memo_kept :: "node_id \<Rightarrow> resources \<Rightarrow> allocation_map \<Rightarrow> capacity_memo option \<Rightarrow>
    allocation_map \<Rightarrow> capacity_memo option \<Rightarrow> bool" where
  "memo_kept n free als used als' used' \<longleftrightarrow>
     (memo_ok als used \<longrightarrow> (\<forall>d. held als n d + rget d free \<le> U64_MAX) \<longrightarrow> memo_ok als' used')"

definition loop_post :: "node_id \<Rightarrow> (u64 \<times> allocation_id) list \<Rightarrow> resources \<Rightarrow> capacity_memo option \<Rightarrow> allocation_id set \<Rightarrow>
    state_machine \<Rightarrow> state_machine \<Rightarrow> capacity_memo option \<Rightarrow> allocation_id list \<Rightarrow> bool" where
  "loop_post n queue free used X s s' used' newly \<longleftrightarrow>
     s' = s\<lparr>allocations := allocations s', accrual_queue := accrual_queue s'\<rparr> \<and>
     pool (X \<union> set newly) (attempts s) (allocations s') (accrual_queue s') \<and>
     distinct newly \<and> set newly \<subseteq> snd ` set queue \<and>
     grown (allocations s) (allocations s') \<and>
     (\<forall>k. k \<notin> snd ` set queue \<longrightarrow> fmlookup (allocations s') k = fmlookup (allocations s) k) \<and>
     hold_moves n free (allocations s) (allocations s') \<and>
     exhausted n free (snd ` set queue) (allocations s) (allocations s') \<and>
     memo_kept n free (allocations s) used (allocations s') used'"

lemma loop_post_refl:
  "pool X (attempts s) (allocations s) (accrual_queue s) \<Longrightarrow>
   (\<forall>d. rget d free = 0) \<or> queue = [] \<Longrightarrow> loop_post n queue free used X s s used []"
  by (auto simp: loop_post_def hold_moves_def exhausted_def memo_kept_def)

lemma loop_post_skip:
  assumes "loop_post n queue free used X s s' used' newly" "fmlookup (allocations s) k = Some al"
    "k \<notin> snd ` set queue" "res_is_zero (component_min free (allocation_need al))"
  shows "loop_post n ((seq, k) # queue) free used X s s' used' newly"
proof -
  have "held (allocations s') n d = held (allocations s) n d + rget d free \<or> rget d (allocation_need al) = 0" for d
  proof -
    have "min (rget d free) (rget d (allocation_need al)) = 0"
      using assms(4) by (simp add: is_zero_iff rget_min)
    moreover have "held (allocations s) n d \<le> held (allocations s') n d"
      "held (allocations s') n d \<le> held (allocations s) n d + rget d free"
      using assms(1) by (simp_all add: loop_post_def hold_moves_def)
    ultimately show ?thesis by linarith
  qed
  moreover have "fmlookup (allocations s') k = Some al"
    using assms(1-3) by (simp add: loop_post_def)
  ultimately show ?thesis
    using assms(1) by (auto simp: loop_post_def exhausted_def)
qed

lemma pool_fund:
  assumes P: "pool X ats als q" and al: "fmlookup als k = Some al" and acc: "kstate al = Accruing" and k: "k \<notin> X"
    and pl: "pledge = component_min free (allocation_need al)"
  shows "pool (if kstate (fund_more pledge al) = Accruing then X else insert k X) ats
    (fmupd k (fund_more pledge al) als)
    (if kstate (fund_more pledge al) = Accruing then q else fmdrop (knode al, alr_seq al) q)"
proof -
  obtain r where r: "fmlookup ats (kattempt al) = Some r" "linked (kattempt al) r k al"
    "matched (k \<in> X) (astate r) (kstate al)" "fund_ok al"
    using pool_allocation [OF P al] by auto
  then have k': "aalloc r = k" by (simp add: linked_def)
  have st: "astate r = AttAccruing" using r(3) acc k by (cases "astate r") (simp_all add: matched_def)
  have "pool (if kstate (fund_more pledge al) = Accruing then X else insert k X) (fmupd (kattempt al) r ats)
      (fmupd (aalloc r) (fund_more pledge al) als)
      (if kstate (fund_more pledge al) = Accruing then q else fmdrop (knode al, alr_seq al) q)"
    using st acc k k' al r(1) by (intro pool_pair [OF P r(1)] fund_more_ok [OF r(4) acc pl]) (auto simp: matched_def)
  then show ?thesis using k' fmupd_id [OF r(1)] by simp
qed

lemma held_fund:
  assumes "fmlookup als k = Some al" "kstate al = Accruing" "fund_ok al" "pledge = component_min free (allocation_need al)"
  shows "held (fmupd k (fund_more pledge al) als) m d = held als m d + (if m = knode al then rget d pledge else 0)"
  using held_upd_old [OF assms(1), of "fund_more pledge al" m d] hold_fund_more [OF assms(3,2,4), of m d] by simp

lemma memo_ok_add:
  assumes "memo_ok als used" "\<And>m d. held als' m d = held als m d + (if m = n then rget d amount else 0)"
    "\<And>d. held als' n d \<le> U64_MAX"
  shows "memo_ok als' (map_option (memo_add n amount) used)"
proof (cases used)
  case (Some memo)
  have "rget d (memo_get (memo_add n amount memo) m) = held als' m d" for m d
    using assms(1) assms(2) [of m d] assms(3) [of d] Some
    by (auto simp: memo_ok_def memo_get_add rget_add)
  then show ?thesis using Some by (simp add: memo_ok_def)
qed simp

lemma loop_post_step:
  assumes P: "pool X (attempts s) (allocations s) (accrual_queue s)"
    and al: "fmlookup (allocations s) k = Some al" "kstate al = Accruing" "knode al = n" "alr_seq al = seq"
    and k: "k \<notin> X" "k \<notin> snd ` set queue" and pl: "pledge = component_min free (allocation_need al)"
    and al': "al' = fund_more pledge al"
    and s1: "s1 = s\<lparr>allocations := fmupd k al' (allocations s),
        accrual_queue := (if kstate al' = Accruing then accrual_queue s else fmdrop (n, seq) (accrual_queue s))\<rparr>"
    and post: "loop_post n queue (res_sub free pledge) (map_option (memo_add n pledge) used)
      (if kstate al' = Accruing then X else insert k X) s1 s' used' newly"
  shows "loop_post n ((seq, k) # queue) free used X s s' used' (if kstate al' = Accruing then newly else k # newly)"
proof -
  have f: "fund_ok al" using pool_fund_ok [OF P al(1)] .
  let ?A = "allocations s" and ?A1 = "allocations s1" and ?A' = "allocations s'"
  have h1: "held ?A1 m d = held ?A m d + (if m = n then rget d pledge else 0)" for m d
    using held_fund [OF al(1,2) f pl, of m d] al(3) s1 al' by simp
  have fr: "rget d (res_sub free pledge) = rget d free - rget d pledge" "rget d pledge \<le> rget d free" for d
    by (simp_all add: rget_sub pl rget_min)
  have "s' = s\<lparr>allocations := ?A', accrual_queue := accrual_queue s'\<rparr>"
    using post by (auto simp: loop_post_def s1 intro: trans)
  moreover have "pool (X \<union> set (if kstate al' = Accruing then newly else k # newly)) (attempts s) ?A' (accrual_queue s')"
    using post by (auto simp: loop_post_def s1)
  moreover have "grown ?A ?A'"
    using post grown_upd [OF al(1), of al'] grown_trans [of ?A ?A1 ?A'] al(2)
    by (auto simp: loop_post_def s1 grew_def al')
  moreover have "hold_moves n free ?A ?A'"
    unfolding hold_moves_def
  proof (intro conjI allI impI)
    fix m d assume "m \<noteq> n"
    then show "held ?A' m d = held ?A m d" using post h1 by (simp add: loop_post_def hold_moves_def)
  next
    fix d
    have *: "held ?A1 n d \<le> held ?A' n d \<and> held ?A' n d \<le> held ?A1 n d + (rget d free - rget d pledge)"
      using post fr(1) by (simp add: loop_post_def hold_moves_def)
    then show "held ?A n d \<le> held ?A' n d" using h1 [of n d] by simp
    show "held ?A' n d \<le> held ?A n d + rget d free" using h1 [of n d] * fr(2) [of d] by simp
  qed
  moreover have "exhausted n free (snd ` set ((seq, k) # queue)) ?A ?A'"
    unfolding exhausted_def
  proof (intro allI impI)
    fix k' alk d assume *: "k' \<in> snd ` set ((seq, k) # queue)" "fmlookup ?A' k' = Some alk" "kstate alk = Accruing"
    have b: "held ?A1 n d \<le> held ?A' n d" "held ?A' n d \<le> held ?A1 n d + (rget d free - rget d pledge)"
      using post fr(1) by (simp_all add: loop_post_def hold_moves_def)
    show "held ?A' n d = held ?A n d + rget d free \<or> rget d (allocation_need alk) = 0"
    proof (cases "k' = k")
      case True
      then have "alk = al'" using * k(2) post by (simp add: loop_post_def s1)
      then have "rget d (allocation_need alk) = rget d (allocation_need al) - rget d pledge"
        using fund_more_need [OF f pl] al' by simp
      moreover have "rget d pledge = min (rget d free) (rget d (allocation_need al))" by (simp add: pl rget_min)
      ultimately show ?thesis using b h1 [of n d] by (auto simp: min_def split: if_splits)
    next
      case False
      then have "k' \<in> snd ` set queue" using * by auto
      then have "held ?A' n d = held ?A1 n d + (rget d free - rget d pledge) \<or> rget d (allocation_need alk) = 0"
        using post * fr(1) by (auto simp: loop_post_def exhausted_def)
      then show ?thesis using h1 [of n d] fr(2) [of d] by auto
    qed
  qed
  moreover have "memo_kept n free ?A used ?A' used'"
    unfolding memo_kept_def
  proof (intro impI)
    assume m: "memo_ok ?A used" and le: "\<forall>d. held ?A n d + rget d free \<le> U64_MAX"
    have le1: "held ?A1 n d + (rget d free - rget d pledge) \<le> U64_MAX" for d
      using le [rule_format, of d] h1 [of n d] fr(2) [of d] by simp
    have "memo_ok ?A1 (map_option (memo_add n pledge) used)"
      using le1 by (intro memo_ok_add [OF m h1]) (meson add_leD1)
    then show "memo_ok ?A' used'" using post le1 fr(1) by (simp add: loop_post_def memo_kept_def)
  qed
  ultimately show ?thesis
    using post k by (auto simp: loop_post_def s1)
qed

lemma pledge_loop_post:
  assumes "pool X (attempts s) (allocations s) (accrual_queue s)" "queued_on n (allocations s) queue"
    "X \<inter> snd ` set queue = {}" "pledge_loop n queue free used (s, evs) = ((s', evs'), used', newly)"
  shows "loop_post n queue free used X s s' used' newly"
  using assms
proof (induction queue arbitrary: X s evs free used s' evs' used' newly)
  case Nil
  then show ?case by (auto intro: loop_post_refl)
next
  case (Cons x queue)
  obtain seq k where x: "x = (seq, k)" by (cases x)
  obtain al where al: "fmlookup (allocations s) k = Some al" "kstate al = Accruing" "knode al = n" "alr_seq al = seq"
    and k: "k \<notin> snd ` set queue" and q: "queued_on n (allocations s) queue"
    using Cons.prems(2) queued_on_Cons x by blast
  have kX: "k \<notin> X" "X \<inter> snd ` set queue = {}" using Cons.prems(3) x by auto
  define pledge where "pledge = component_min free (allocation_need al)"
  show ?case
  proof (cases "res_is_zero free")
    case True
    then show ?thesis using Cons.prems x by (auto simp: is_zero_iff intro: loop_post_refl)
  next
    case nz: False
    show ?thesis
    proof (cases "res_is_zero pledge")
      case True
      then have "pledge_loop n queue free used (s, evs) = ((s', evs'), used', newly)"
        using Cons.prems(4) nz al x by (simp add: pledge_def Let_def)
      then have "loop_post n queue free used X s s' used' newly"
        using Cons.prems(1) q kX(2) by (intro Cons.IH)
      then show ?thesis using loop_post_skip al(1) k True by (simp add: x pledge_def)
    next
      case False
      define al' where "al' = fund_more pledge al"
      define s1 where "s1 = s\<lparr>allocations := fmupd k al' (allocations s),
        accrual_queue := (if kstate al' = Accruing then accrual_queue s else fmdrop (n, seq) (accrual_queue s))\<rparr>"
      define X1 where "X1 = (if kstate al' = Accruing then X else insert k X)"
      obtain newly' where loop: "pledge_loop n queue (res_sub free pledge) (map_option (memo_add n pledge) used)
            (s1, if kstate al' = Accruing then evs else evs @ [AllocationFunded k (al_job (alr_allocation al)) n]) =
            ((s', evs'), used', newly')" and newly: "newly = (if kstate al' = Accruing then newly' else k # newly')"
        using Cons.prems(4) pledge_loop_step [OF al(1) nz pledge_def False al(2), of n seq queue used evs]
        unfolding x Let_def al'_def [symmetric] s1_def [symmetric] by (auto split: prod.splits)
      have "pool X1 (attempts s1) (allocations s1) (accrual_queue s1)"
        using pool_fund [OF Cons.prems(1) al(1,2) kX(1) pledge_def, folded al'_def]
        unfolding s1_def X1_def al(3,4) by simp
      moreover have "queued_on n (allocations s1) queue" using queued_on_upd [OF q k] by (simp add: s1_def)
      moreover have "X1 \<inter> snd ` set queue = {}" using kX k by (auto simp: X1_def)
      ultimately have "loop_post n queue (res_sub free pledge) (map_option (memo_add n pledge) used) X1 s1 s' used' newly'"
        using loop by (rule Cons.IH)
      then show ?thesis
        unfolding x newly by (rule loop_post_step [OF Cons.prems(1) al kX(1) k pledge_def al'_def s1_def, folded X1_def])
    qed
  qed
qed

section \<open>The ready barrier\<close>

lemma distinct_singleton:
  assumes "distinct xs" "set xs = {a}"
  shows "xs = [a]"
proof -
  have "length xs = Suc 0" using distinct_card [OF assms(1)] assms(2) by simp
  then show ?thesis using assms(2) by (cases xs) simp_all
qed

lemma set_group_members:
  "a \<in> set (group_members s g) \<longleftrightarrow>
     (\<exists>r. fmlookup (attempts s) a = Some r \<and> atr_group r = g \<and> \<not> attempt_terminal (astate r))"
  by (auto simp: group_members_def set_entries image_iff Bex_def)

lemma distinct_group_members: "distinct (group_members s g)"
  unfolding group_members_def using distinct_entries by (rule distinct_map_filter)

text \<open>In a pool a placement group has one live member, so the barrier promotes exactly that attempt.\<close>

lemma group_members_single:
  assumes P: "pool X (attempts s) als q" and r: "fmlookup (attempts s) a = Some r" "\<not> attempt_terminal (astate r)"
  shows "group_members s (atr_group r) = [a]"
proof -
  have "b = a" if b: "b \<in> set (group_members s (atr_group r))" for b
  proof -
    obtain rb where rb: "fmlookup (attempts s) b = Some rb" "atr_group rb = atr_group r" "\<not> attempt_terminal (astate rb)"
      using b by (auto simp: set_group_members)
    have "tid_uuid (atr_group rb) = tid_uuid (ajob rb)" "tid_uuid (atr_group r) = tid_uuid (ajob r)"
      using pool_attempt [OF P rb(1)] pool_attempt [OF P r(1)] by (auto simp: linked_def)
    then have "ajob rb = ajob r" using rb(2) by (simp add: tid.expand)
    then show ?thesis by (rule pool_one_live [OF P rb(1) r(1) rb(3) r(2)])
  qed
  moreover have "a \<in> set (group_members s (atr_group r))" using r by (auto simp: set_group_members)
  ultimately have "set (group_members s (atr_group r)) = {a}" by blast
  then show ?thesis by (rule distinct_singleton [OF distinct_group_members])
qed

text \<open>What a pledge pass may do to an attempt: promote an accruing one.\<close>

definition promoted :: "attempt_map \<Rightarrow> attempt_map \<Rightarrow> bool" where
  "promoted ats ats' \<longleftrightarrow> (\<forall>a. rel_option (\<lambda>r r'. r' = r \<or> astate r = AttAccruing \<and> r' = set_attempt_state Ready r)
     (fmlookup ats a) (fmlookup ats' a))"

lemma promoted_refl [simp]: "promoted ats ats"
  by (simp add: promoted_def option.rel_refl)

lemma promoted_trans:
  assumes "promoted ats ats1" "promoted ats1 ats2"
  shows "promoted ats ats2"
  unfolding promoted_def
proof
  fix a
  show "rel_option (\<lambda>r r'. r' = r \<or> astate r = AttAccruing \<and> r' = set_attempt_state Ready r)
     (fmlookup ats a) (fmlookup ats2 a)"
    using assms(1) [unfolded promoted_def, rule_format, of a] assms(2) [unfolded promoted_def, rule_format, of a]
    by (cases "fmlookup ats a"; cases "fmlookup ats1 a"; cases "fmlookup ats2 a")
      (auto simp: set_attempt_state_def)
qed

lemma promoted_upd:
  "fmlookup ats a = Some r \<Longrightarrow> astate r = AttAccruing \<Longrightarrow> promoted ats (fmupd a (set_attempt_state Ready r) ats)"
  by (simp add: promoted_def option.rel_refl)

lemma same_attempt_state [simp]: "same_attempt r (set_attempt_state st r)" "astate (set_attempt_state st r) = st"
  by (simp_all add: same_attempt_def set_attempt_state_def)

text \<open>Events that concern the pool only.\<close>

fun pool_event :: "event \<Rightarrow> bool" where
  "pool_event (AllocationFunded _ _ _) = True"
| "pool_event (AttemptStateChanged _ _ _ _) = True"
| "pool_event _ = False"

definition emits :: "(event \<Rightarrow> bool) \<Rightarrow> event list \<Rightarrow> event list \<Rightarrow> bool" where
  "emits p evs evs' \<longleftrightarrow> (\<exists>new. evs' = evs @ new \<and> list_all p new)"

lemma emits_refl [simp]: "emits p evs evs"
  by (simp add: emits_def)

lemma emits_trans: "emits p evs evs1 \<Longrightarrow> emits p evs1 evs2 \<Longrightarrow> emits p evs evs2"
  by (auto simp: emits_def)

lemma emits_snoc: "p e \<Longrightarrow> emits p evs (evs @ [e])"
  by (simp add: emits_def)

lemma emits_step: "emits p (evs @ [e]) evs' \<Longrightarrow> p e \<Longrightarrow> emits p evs evs'"
  using emits_trans emits_snoc by blast

lemma barrier_of_promotes:
  assumes P: "pool X (attempts s) (allocations s) (accrual_queue s)" and k: "k \<in> X"
    and al: "fmlookup (allocations s) k = Some al"
  obtains r where "fmlookup (attempts s) (kattempt al) = Some r" "astate r = AttAccruing"
    "barrier_of k (s, evs) =
       (s\<lparr>attempts := fmupd (kattempt al) (set_attempt_state Ready r) (attempts s)\<rparr>,
        evs @ [AttemptStateChanged (kattempt al) (ajob r) (att_node (atr_attempt r)) Ready])"
    "pool (X - {k}) (fmupd (kattempt al) (set_attempt_state Ready r) (attempts s)) (allocations s) (accrual_queue s)"
proof -
  obtain r where r: "fmlookup (attempts s) (kattempt al) = Some r" "linked (kattempt al) r k al"
    "matched (k \<in> X) (astate r) (kstate al)" "fund_ok al"
    using pool_allocation [OF P al] by auto
  have st: "astate r = AttAccruing" "kstate al = Funded" and kr: "aalloc r = k"
    using r(2,3) k by (simp_all add: matched_def linked_def)
  have mem: "group_members s (atr_group r) = [kattempt al]"
    using st by (intro group_members_single [OF P r(1)]) simp
  have "barrier_of k (s, evs) =
       (s\<lparr>attempts := fmupd (kattempt al) (set_attempt_state Ready r) (attempts s)\<rparr>,
        evs @ [AttemptStateChanged (kattempt al) (ajob r) (att_node (atr_attempt r)) Ready])"
    using r(1) al st kr mem
    by (simp add: barrier_of_def check_ready_barrier_def Let_def attempt_funded_def ready_if_accruing_def attempt_accruing_def)
  moreover have "pool (X - {k}) (fmupd (kattempt al) (set_attempt_state Ready r) (attempts s))
      (fmupd (aalloc r) al (allocations s)) (if kstate al = Accruing then accrual_queue s
         else fmdrop (knode al, alr_seq al) (accrual_queue s))"
    using st al kr r(4) by (intro pool_pair [OF P r(1)]) (auto simp: matched_def)
  ultimately show thesis
    using that r(1) st(1) kr fmupd_id [OF al] pool_drop_id [OF P al] st(2) by auto
qed

lemma fold_barrier:
  assumes "pool (X \<union> set newly) (attempts s) (allocations s) (accrual_queue s)" "distinct newly" "X \<inter> set newly = {}"
    "set newly \<subseteq> fset (fmdom (allocations s))" "fold barrier_of newly (s, evs) = (s', evs')"
  shows "s' = s\<lparr>attempts := attempts s'\<rparr> \<and> pool X (attempts s') (allocations s) (accrual_queue s) \<and>
    promoted (attempts s) (attempts s') \<and> emits pool_event evs evs'"
  using assms
proof (induction newly arbitrary: s evs)
  case (Cons k newly)
  obtain al where al: "fmlookup (allocations s) k = Some al" using Cons.prems(4) by auto
  obtain r where r: "fmlookup (attempts s) (kattempt al) = Some r" "astate r = AttAccruing"
    and b: "barrier_of k (s, evs) =
       (s\<lparr>attempts := fmupd (kattempt al) (set_attempt_state Ready r) (attempts s)\<rparr>,
        evs @ [AttemptStateChanged (kattempt al) (ajob r) (att_node (atr_attempt r)) Ready])"
    and P: "pool (X \<union> set (k # newly) - {k}) (fmupd (kattempt al) (set_attempt_state Ready r) (attempts s))
        (allocations s) (accrual_queue s)"
    using barrier_of_promotes [OF Cons.prems(1) _ al, of evs] by auto
  let ?s1 = "s\<lparr>attempts := fmupd (kattempt al) (set_attempt_state Ready r) (attempts s)\<rparr>"
  have "X \<union> set (k # newly) - {k} = X \<union> set newly" using Cons.prems(2,3) by auto
  then have "s' = ?s1\<lparr>attempts := attempts s'\<rparr> \<and> pool X (attempts s') (allocations ?s1) (accrual_queue ?s1) \<and>
    promoted (attempts ?s1) (attempts s') \<and>
    emits pool_event (evs @ [AttemptStateChanged (kattempt al) (ajob r) (att_node (atr_attempt r)) Ready]) evs'"
    using P b Cons.prems(2-5) by (intro Cons.IH) auto
  then show ?case
    by (auto intro: promoted_trans [OF promoted_upd [OF r]] elim: emits_step)
qed simp

section \<open>The pass\<close>

lemma pledge_loop_emits: "emits pool_event (snd eff) (snd (fst (pledge_loop n queue free used eff)))"
proof (induction queue arbitrary: free used eff)
  case (Cons x queue)
  obtain s evs where eff: "eff = (s, evs)" by (cases eff)
  obtain seq k where x: "x = (seq, k)" by (cases x)
  note IH = Cons.IH [of "(s1, evs1)" for s1 evs1, simplified]
  show ?case
    using IH emits_step [OF IH] by (simp add: eff x Let_def case_prod_unfold split: option.split)
qed simp

text \<open>The memo is bookkeeping: it changes neither the state nor the events.\<close>

lemma pledge_loop_memo_irrelevant:
  "fst (pledge_loop n queue free used eff) = fst (pledge_loop n queue free used2 eff) \<and>
   snd (snd (pledge_loop n queue free used eff)) = snd (snd (pledge_loop n queue free used2 eff))"
proof (induction queue arbitrary: free used used2 eff)
  case (Cons x queue)
  obtain s evs where eff: "eff = (s, evs)" by (cases eff)
  obtain seq k where x: "x = (seq, k)" by (cases x)
  note IH1 = Cons.IH [of free1 used1 eff1 used2 for free1 used1 eff1 used2, THEN conjunct1]
  note IH2 = Cons.IH [of free1 used1 eff1 used2 for free1 used1 eff1 used2, THEN conjunct2]
  show ?case
    unfolding eff x
    by (simp add: Let_def case_prod_unfold IH1 [of _ used _ used2] IH2 [of _ used _ used2]
        IH1 [of _ "map_option f used" _ "map_option f used2" for f]
        IH2 [of _ "map_option f used" _ "map_option f used2" for f] split: option.split)
qed simp

definition pool_ok :: "state_machine \<Rightarrow> bool" where
  "pool_ok s \<longleftrightarrow> pool {} (attempts s) (allocations s) (accrual_queue s) \<and> no_overflow (allocations s)"

definition pool_frame :: "state_machine \<Rightarrow> state_machine \<Rightarrow> bool" where
  "pool_frame s s' \<longleftrightarrow>
     s' = s\<lparr>attempts := attempts s', allocations := allocations s', accrual_queue := accrual_queue s'\<rparr>"

lemma pool_frame_refl [simp]: "pool_frame s s"
  by (simp add: pool_frame_def)

lemma pool_frameD:
  assumes "pool_frame s s'"
  shows "jobs s' = jobs s" "nodes s' = nodes s" "quota_entities s' = quota_entities s" "policy s' = policy s"
    "next_allocation_seq s' = next_allocation_seq s" "bindings s' = bindings s" "cluster_version s' = cluster_version s"
    "cap_of s' = cap_of s"
proof -
  note eq = assms [unfolded pool_frame_def]
  show "jobs s' = jobs s" "quota_entities s' = quota_entities s" "policy s' = policy s"
    "next_allocation_seq s' = next_allocation_seq s" "bindings s' = bindings s" "cluster_version s' = cluster_version s"
    using arg_cong [OF eq, of jobs] arg_cong [OF eq, of quota_entities] arg_cong [OF eq, of policy]
      arg_cong [OF eq, of next_allocation_seq] arg_cong [OF eq, of bindings] arg_cong [OF eq, of cluster_version] by simp_all
  show n: "nodes s' = nodes s" using arg_cong [OF eq, of nodes] by simp
  then show "cap_of s' = cap_of s" by (simp add: cap_of_def fun_eq_iff)
qed

text \<open>No idle capacity: a dimension of which the node has capacity left is wanted by none of its accruals.\<close>

definition no_idle :: "state_machine \<Rightarrow> node_id \<Rightarrow> bool" where
  "no_idle s n \<longleftrightarrow> (\<forall>k al d. fmlookup (allocations s) k = Some al \<longrightarrow> kstate al = Accruing \<longrightarrow> knode al = n \<longrightarrow>
     cap_of s n d \<le> held (allocations s) n d \<or> rget d (allocation_need al) = 0)"

definition pass_post :: "node_id \<Rightarrow> state_machine \<Rightarrow> state_machine \<Rightarrow> bool" where
  "pass_post n s s' \<longleftrightarrow> pool_ok s' \<and> pool_frame s s' \<and> promoted (attempts s) (attempts s') \<and>
     grown (allocations s) (allocations s') \<and>
     (\<forall>k al. fmlookup (allocations s) k = Some al \<longrightarrow> knode al \<noteq> n \<longrightarrow> fmlookup (allocations s') k = Some al) \<and>
     hold_moves n (free_capacity s n None) (allocations s) (allocations s') \<and> no_idle s' n"

lemma hold_moves_no_overflow:
  assumes ov: "no_overflow (allocations s)" and "hold_moves n (free_capacity s n None) (allocations s) als'"
  shows "no_overflow als'" and "held als' m d \<le> max (held (allocations s) m d) (cap_of s m d)"
proof -
  have le: "held als' m d \<le> max (held (allocations s) m d) (cap_of s m d)" for m d
  proof (cases "m = n")
    case True
    have "held als' n d \<le> held (allocations s) n d + (cap_of s n d - held (allocations s) n d)"
      using assms(2) rget_free [OF ov, of None d n] unfolding hold_moves_def by (metis memo_ok_None)
    then show ?thesis unfolding True by linarith
  next
    case False
    then show ?thesis using assms(2) by (simp add: hold_moves_def)
  qed
  then show "held als' m d \<le> max (held (allocations s) m d) (cap_of s m d)" .
  show "no_overflow als'"
    unfolding no_overflow_def
  proof (intro allI)
    fix m d
    show "held als' m d \<le> U64_MAX"
      using le [of m d] no_overflowD [OF ov, of m d] cap_of_le [of s m d] by linarith
  qed
qed

lemma pledge_node_post:
  assumes ok: "pool_ok s" and memo: "memo_ok (allocations s) used"
    and run: "pledge_node n used (s, evs) = ((s', evs'), used')"
  shows "pass_post n s s' \<and> memo_ok (allocations s') used' \<and> emits pool_event evs evs'"
proof -
  have P: "pool {} (attempts s) (allocations s) (accrual_queue s)" and ov: "no_overflow (allocations s)"
    using ok by (simp_all add: pool_ok_def)
  let ?free = "free_capacity s n used"
  have free: "?free = free_capacity s n None" by (rule free_memo_scan [OF ov memo])
  have rfree: "rget d ?free = cap_of s n d - held (allocations s) n d" for d by (rule rget_free [OF ov memo])
  show ?thesis
  proof (cases "res_is_zero ?free")
    case True
    then have "cap_of s n d \<le> held (allocations s) n d" for d using rfree [of d] by (simp add: is_zero_iff)
    moreover have "s' = s" "evs' = evs" "used' = used" using run True by (simp_all add: pledge_node_def)
    ultimately show ?thesis
      using ok memo by (simp add: pass_post_def hold_moves_def no_idle_def)
  next
    case False
    obtain s1 evs1 newly where loop: "pledge_loop n (node_queue s n) ?free used (s, evs) = ((s1, evs1), used', newly)"
      and bar: "fold barrier_of newly (s1, evs1) = (s', evs')"
      using run False by (auto simp: pledge_node_def split: prod.splits)
    have post: "loop_post n (node_queue s n) ?free used {} s s1 used' newly"
      using pledge_loop_post [OF P node_queue_queued [OF P] _ loop] by simp
    let ?A = "allocations s" and ?A' = "allocations s1"
    have fr: "s1 = s\<lparr>allocations := ?A', accrual_queue := accrual_queue s1\<rparr>"
      and P1: "pool (set newly) (attempts s) ?A' (accrual_queue s1)"
      and nd: "distinct newly" "set newly \<subseteq> snd ` set (node_queue s n)" and gr: "grown ?A ?A'"
      and hm: "hold_moves n (free_capacity s n None) ?A ?A'"
      and un: "\<forall>k. k \<notin> snd ` set (node_queue s n) \<longrightarrow> fmlookup ?A' k = fmlookup ?A k"
      and ex: "exhausted n ?free (snd ` set (node_queue s n)) ?A ?A'"
      and mk: "memo_kept n ?free ?A used ?A' used'"
      using post free by (simp_all add: loop_post_def)
    have at1: "attempts s1 = attempts s" using arg_cong [OF fr, of attempts] by simp
    have q: "(seq, k) \<in> set (node_queue s n) \<Longrightarrow> k \<in> fset (fmdom ?A')" for seq k
      using node_queue_queued [OF P, of n] grownD [OF gr] by (fastforce simp: queued_on_def intro: fmdomI)
    have "set newly \<subseteq> fset (fmdom ?A')" using nd(2) q by auto
    then have b: "s' = s1\<lparr>attempts := attempts s'\<rparr>" "pool {} (attempts s') ?A' (accrual_queue s1)"
      "promoted (attempts s1) (attempts s')" "emits pool_event evs1 evs'"
      using fold_barrier [of "{}" newly s1 evs1 s' evs'] P1 at1 nd q bar by auto
    have A: "allocations s' = ?A'" "accrual_queue s' = accrual_queue s1"
      using arg_cong [OF b(1), of allocations] arg_cong [OF b(1), of accrual_queue] by simp_all
    have frame: "pool_frame s s'"
      unfolding pool_frame_def by (subst b(1), subst fr) (simp add: A)
    have ni: "no_idle s' n"
      unfolding no_idle_def
    proof (intro allI impI)
      fix k al d assume k: "fmlookup (allocations s') k = Some al" "kstate al = Accruing" "knode al = n"
      obtain al0 where al0: "fmlookup ?A k = Some al0" "grew al0 al" using grownD' [OF gr] k(1) A by auto
      then have "kstate al0 = Accruing" "knode al0 = n" using k by (auto simp: grew_def same_seat_def)
      then have "fmlookup (accrual_queue s) (n, alr_seq al0) = Some k" using pool_queue [OF P] al0(1) by blast
      then have "k \<in> snd ` set (node_queue s n)" by (metis set_node_queue image_eqI snd_conv)
      then have "held ?A' n d = held ?A n d + rget d ?free \<or> rget d (allocation_need al) = 0"
        using ex k A by (auto simp: exhausted_def)
      then show "cap_of s' n d \<le> held (allocations s') n d \<or> rget d (allocation_need al) = 0"
        using rfree [of d] pool_frameD(8) [OF frame] A by auto
    qed
    have "fmlookup ?A' k = Some al" if k: "fmlookup ?A k = Some al" "knode al \<noteq> n" for k al
    proof -
      have "k \<notin> snd ` set (node_queue s n)"
        using node_queue_queued [OF P, of n] k by (auto simp: queued_on_def)
      then show ?thesis using un k(1) by simp
    qed
    then have lo: "\<forall>k al. fmlookup ?A k = Some al \<longrightarrow> knode al \<noteq> n \<longrightarrow> fmlookup ?A' k = Some al" by blast
    have "held ?A n d + rget d ?free \<le> U64_MAX" for d
      using rfree [of d] no_overflowD [OF ov, of n d] cap_of_le [of s n d] by linarith
    then have mo: "memo_ok (allocations s') used'" using mk memo A by (simp add: memo_kept_def)
    have "emits pool_event evs evs'"
      using emits_trans [OF pledge_loop_emits [of "(s, evs)" n "node_queue s n" ?free used]] loop b(4) by simp
    moreover have "pool_ok s'" using b(2) A hold_moves_no_overflow [OF ov hm] by (simp add: pool_ok_def)
    ultimately show ?thesis using frame b(3) at1 gr hm A ni mo lo by (simp add: pass_post_def)
  qed
qed

end
