(* ===== verification/Core_Inv.thy ===== *)
theory Core_Inv
  imports Pledge
begin

text \<open>
  The invariant of the scheduling core: the pool, the link between jobs and attempts, the time stamps
  of attempts, commit sequence numbers, and work conservation. It is parameterised by the set of nodes
  on which a command in progress may still owe a pledge pass; between commands that set is empty. The
  effect helpers of \<open>coppice-state/src/apply.rs\<close> are shown to keep it here, the handlers in the next
  theory.
\<close>

section \<open>The invariant\<close>

definition job_ok :: "job_id \<Rightarrow> job_record \<Rightarrow> attempt_map \<Rightarrow> bool" where
  "job_ok j r ats \<longleftrightarrow> j_id (jr_spec r) = j \<and>
     (jr_terminal_at r \<noteq> None \<longleftrightarrow> job_terminal (jr_state r)) \<and>
     jr_retries_used r \<le> max_retries (j_retry (jr_spec r)) \<and>
     jr_state r \<noteq> Submitted \<and> jr_state r \<noteq> Accepted \<and> distinct (jr_attempts r) \<and>
     (\<forall>a \<in> set (jr_attempts r). \<exists>ar. fmlookup ats a = Some ar \<and> ajob ar = j) \<and>
     (\<forall>a. jr_state r = Attempting a \<longrightarrow> a \<in> set (jr_attempts r))"

definition attempt_link :: "(job_id, job_record) fmap \<Rightarrow> attempt_id \<Rightarrow> attempt_record \<Rightarrow> bool" where
  "attempt_link js a ar \<longleftrightarrow> (\<exists>r. fmlookup js (ajob ar) = Some r \<and> a \<in> set (jr_attempts r) \<and>
     (attempt_terminal (astate ar) \<longleftrightarrow> jr_state r \<noteq> Attempting a))"

definition job_link :: "(job_id, job_record) fmap \<Rightarrow> attempt_map \<Rightarrow> bool" where
  "job_link js ats \<longleftrightarrow> (\<forall>j r. fmlookup js j = Some r \<longrightarrow> job_ok j r ats) \<and>
     (\<forall>a ar. fmlookup ats a = Some ar \<longrightarrow> attempt_link js a ar)"

definition attempt_ok :: "attempt_record \<Rightarrow> bool" where
  "attempt_ok r \<longleftrightarrow>
     (astate r \<in> {AttAccruing, Ready, Dispatching} \<longrightarrow> atr_started_at r = None) \<and>
     (astate r \<in> {Running, Finalizing} \<longrightarrow> atr_started_at r \<noteq> None) \<and>
     (atr_ended_at r \<noteq> None \<longleftrightarrow> attempt_terminal (astate r)) \<and>
     (atr_settlement r \<noteq> None \<longleftrightarrow> attempt_terminal (astate r)) \<and>
     (atr_preemption r \<noteq> None \<longrightarrow> atr_started_at r \<noteq> None)"

definition attempts_ok :: "attempt_map \<Rightarrow> bool" where
  "attempts_ok ats \<longleftrightarrow> (\<forall>a r. fmlookup ats a = Some r \<longrightarrow> attempt_ok r)"

definition seqs_below :: "state_machine \<Rightarrow> bool" where
  "seqs_below s \<longleftrightarrow> (\<forall>k al. fmlookup (allocations s) k = Some al \<longrightarrow> alr_seq al < next_allocation_seq s)"

definition live_nodes :: "state_machine \<Rightarrow> bool" where
  "live_nodes s \<longleftrightarrow> (\<forall>k al. fmlookup (allocations s) k = Some al \<longrightarrow> live_allocation al \<longrightarrow> has_key (knode al) (nodes s))"

definition pools :: "node_id set \<Rightarrow> state_machine \<Rightarrow> bool" where
  "pools N s \<longleftrightarrow> pool_ok s \<and> seqs_below s \<and> live_nodes s \<and> (\<forall>n. n \<notin> N \<longrightarrow> no_idle s n)"

definition core :: "node_id set \<Rightarrow> state_machine \<Rightarrow> bool" where
  "core N s \<longleftrightarrow> pools N s \<and> job_link (jobs s) (attempts s) \<and> attempts_ok (attempts s)"

lemma coreD:
  assumes "core N s"
  shows core_pools: "pools N s" and core_link: "job_link (jobs s) (attempts s)"
    and core_attempts: "attempts_ok (attempts s)" and core_pool: "pool_ok s"
  using assms by (simp_all add: core_def pools_def)

lemma poolsD:
  assumes "pools N s"
  shows pools_pool: "pool_ok s" and pools_seqs: "seqs_below s" and pools_nodes: "live_nodes s"
    and pools_idle: "n \<notin> N \<Longrightarrow> no_idle s n"
  using assms by (simp_all add: pools_def)

lemma core_mono: "core N s \<Longrightarrow> N \<subseteq> M \<Longrightarrow> core M s"
  by (auto simp: core_def pools_def)

lemma pool_okD: "pool_ok s \<Longrightarrow> pool {} (attempts s) (allocations s) (accrual_queue s)"
  "pool_ok s \<Longrightarrow> no_overflow (allocations s)"
  by (simp_all add: pool_ok_def)

lemma core_default: "core {} state_default"
  by (simp add: core_def pools_def pool_ok_def pool_def attempts_linked_def allocations_owned_def queue_exact_def
      seqs_distinct_def one_live_def no_overflow_def held_def job_link_def attempts_ok_def seqs_below_def
      live_nodes_def no_idle_def state_default_def)

text \<open>The invariant reads six fields only.\<close>

lemma pools_cong:
  assumes "attempts s' = attempts s" "allocations s' = allocations s" "nodes s' = nodes s"
    "accrual_queue s' = accrual_queue s" "next_allocation_seq s' = next_allocation_seq s"
  shows "pools N s' \<longleftrightarrow> pools N s"
proof -
  have "cap_of s' = cap_of s" using assms(3) by (simp add: cap_of_def fun_eq_iff)
  then show ?thesis
    using assms by (simp add: pools_def pool_ok_def seqs_below_def live_nodes_def no_idle_def)
qed

lemma core_cong:
  assumes "jobs s' = jobs s" "attempts s' = attempts s" "allocations s' = allocations s" "nodes s' = nodes s"
    "accrual_queue s' = accrual_queue s" "next_allocation_seq s' = next_allocation_seq s"
  shows "core N s' \<longleftrightarrow> core N s"
  using assms pools_cong [of s' s N] by (simp add: core_def)

section \<open>Attempt maps that agree on jobs and ends\<close>

definition same_fate :: "attempt_map \<Rightarrow> attempt_map \<Rightarrow> bool" where
  "same_fate ats ats' \<longleftrightarrow> (\<forall>a. rel_option (\<lambda>r r'. same_attempt r r' \<and>
     attempt_terminal (astate r') = attempt_terminal (astate r)) (fmlookup ats a) (fmlookup ats' a))"

lemma same_fate_refl [simp]: "same_fate ats ats"
  by (simp add: same_fate_def option.rel_refl)

lemma same_attempt_trans: "same_attempt a b \<Longrightarrow> same_attempt b c \<Longrightarrow> same_attempt a c"
  by (simp add: same_attempt_def)

lemma same_attempt_job: "same_attempt r r' \<Longrightarrow> ajob r' = ajob r"
  by (simp add: same_attempt_def)

lemma same_fate_trans:
  assumes "same_fate a b" "same_fate b c"
  shows "same_fate a c"
  unfolding same_fate_def
proof
  fix x
  show "rel_option (\<lambda>r r'. same_attempt r r' \<and> attempt_terminal (astate r') = attempt_terminal (astate r))
    (fmlookup a x) (fmlookup c x)"
    using assms(1) [unfolded same_fate_def, rule_format, of x] assms(2) [unfolded same_fate_def, rule_format, of x]
    by (cases "fmlookup a x"; cases "fmlookup b x"; cases "fmlookup c x") (auto intro: same_attempt_trans)
qed

lemma same_fateD:
  "same_fate ats ats' \<Longrightarrow> fmlookup ats a = Some r \<Longrightarrow>
     \<exists>r'. fmlookup ats' a = Some r' \<and> same_attempt r r' \<and> attempt_terminal (astate r') = attempt_terminal (astate r)"
  unfolding same_fate_def by (metis (mono_tags, lifting) option_rel_Some1)

lemma same_fateD':
  "same_fate ats ats' \<Longrightarrow> fmlookup ats' a = Some r' \<Longrightarrow>
     \<exists>r. fmlookup ats a = Some r \<and> same_attempt r r' \<and> attempt_terminal (astate r') = attempt_terminal (astate r)"
  unfolding same_fate_def by (metis (mono_tags, lifting) option_rel_Some2)

lemma same_fate_upd:
  "fmlookup ats a = Some r \<Longrightarrow> same_attempt r r' \<Longrightarrow> attempt_terminal (astate r') = attempt_terminal (astate r) \<Longrightarrow>
     same_fate ats (fmupd a r' ats)"
  by (simp add: same_fate_def option.rel_refl)

lemma job_link_same_fate:
  assumes "job_link js ats" "same_fate ats ats'"
  shows "job_link js ats'"
  unfolding job_link_def
proof (intro conjI allI impI)
  fix j r assume "fmlookup js j = Some r"
  then have ok: "job_ok j r ats" using assms(1) by (simp add: job_link_def)
  have "\<exists>ar. fmlookup ats' a = Some ar \<and> ajob ar = j" if a: "a \<in> set (jr_attempts r)" for a
  proof -
    obtain ar where ar: "fmlookup ats a = Some ar" "ajob ar = j" using ok a by (auto simp: job_ok_def)
    obtain ar' where "fmlookup ats' a = Some ar'" "same_attempt ar ar'" using same_fateD [OF assms(2) ar(1)] by blast
    then show ?thesis using ar(2) by (simp add: same_attempt_def)
  qed
  then show "job_ok j r ats'" using ok by (simp add: job_ok_def)
next
  fix a ar' assume "fmlookup ats' a = Some ar'"
  then obtain ar where "fmlookup ats a = Some ar" "ajob ar' = ajob ar"
    "attempt_terminal (astate ar') = attempt_terminal (astate ar)"
    using same_fateD' [OF assms(2)] same_attempt_job by blast
  then show "attempt_link js a ar'" using assms(1) by (auto simp: job_link_def attempt_link_def)
qed

text \<open>Attempt maps that differ by promotions and by what settlement records.\<close>

definition advanced :: "attempt_map \<Rightarrow> attempt_map \<Rightarrow> bool" where
  "advanced ats ats' \<longleftrightarrow> (\<forall>a. rel_option (\<lambda>r r'. same_attempt r r' \<and>
     (astate r' = astate r \<or> astate r = AttAccruing \<and> astate r' = Ready)) (fmlookup ats a) (fmlookup ats' a))"

lemma advanced_refl [simp]: "advanced ats ats"
  by (simp add: advanced_def option.rel_refl)

lemma advanced_trans:
  assumes "advanced a b" "advanced b c"
  shows "advanced a c"
  unfolding advanced_def
proof
  fix x
  show "rel_option (\<lambda>r r'. same_attempt r r' \<and> (astate r' = astate r \<or> astate r = AttAccruing \<and> astate r' = Ready))
    (fmlookup a x) (fmlookup c x)"
    using assms(1) [unfolded advanced_def, rule_format, of x] assms(2) [unfolded advanced_def, rule_format, of x]
    by (cases "fmlookup a x"; cases "fmlookup b x"; cases "fmlookup c x") (auto intro: same_attempt_trans)
qed

lemma advanced_upd:
  "fmlookup ats a = Some r \<Longrightarrow> same_attempt r r' \<Longrightarrow> astate r' = astate r \<Longrightarrow> advanced ats (fmupd a r' ats)"
  by (simp add: advanced_def option.rel_refl)

lemma advancedD:
  "advanced ats ats' \<Longrightarrow> fmlookup ats a = Some r \<Longrightarrow> \<exists>r'. fmlookup ats' a = Some r' \<and> same_attempt r r' \<and>
     (astate r' = astate r \<or> astate r = AttAccruing \<and> astate r' = Ready)"
  unfolding advanced_def by (metis (mono_tags, lifting) option_rel_Some1)

lemma advanced_same_fate: "advanced ats ats' \<Longrightarrow> same_fate ats ats'"
  unfolding advanced_def same_fate_def
  by (rule allI) (erule allE, erule option.rel_mono_strong, auto)

lemma promoted_advanced: "promoted ats ats' \<Longrightarrow> advanced ats ats'"
  unfolding promoted_def advanced_def
  by (rule allI) (erule allE, erule option.rel_mono_strong, auto)

lemmas promoted_same_fate = advanced_same_fate [OF promoted_advanced]

lemma promotedD':
  assumes "promoted ats ats'" "fmlookup ats' a = Some r'"
  obtains r where "fmlookup ats a = Some r" "r' = r \<or> astate r = AttAccruing \<and> r' = set_attempt_state Ready r"
  using assms(1) [unfolded promoted_def, rule_format, of a] assms(2) by (cases "fmlookup ats a") auto

lemma attempt_ok_ready: "attempt_ok r \<Longrightarrow> astate r = AttAccruing \<Longrightarrow> attempt_ok (set_attempt_state Ready r)"
  by (auto simp: attempt_ok_def set_attempt_state_def)

lemma promoted_attempts_ok:
  assumes "attempts_ok ats" "promoted ats ats'"
  shows "attempts_ok ats'"
  unfolding attempts_ok_def
proof (intro allI impI)
  fix a r' assume "fmlookup ats' a = Some r'"
  then obtain r where "fmlookup ats a = Some r" "r' = r \<or> astate r = AttAccruing \<and> r' = set_attempt_state Ready r"
    using promotedD' [OF assms(2)] by blast
  then show "attempt_ok r'" using assms(1) attempt_ok_ready by (auto simp: attempts_ok_def)
qed

section \<open>Pending aborts\<close>

text \<open>
  A job whose abort is pending has an attempt on its node's hands: an abort of anything earlier takes
  effect at once, and no such job goes back to the queue. Jobs in \<open>J\<close> are exempt while a command is at work.
\<close>

fun on_node :: "attempt_state \<Rightarrow> bool" where
  "on_node Dispatching = True"
| "on_node Running = True"
| "on_node Finalizing = True"
| "on_node _ = False"

definition aborts_ok :: "job_id set \<Rightarrow> (job_id, job_record) fmap \<Rightarrow> attempt_map \<Rightarrow> bool" where
  "aborts_ok J js ats \<longleftrightarrow> (\<forall>j r. fmlookup js j = Some r \<longrightarrow> j \<notin> J \<longrightarrow> j_abort_requested (jr_spec r) \<noteq> None \<longrightarrow>
     job_terminal (jr_state r) \<or> (\<exists>a ar. jr_state r = Attempting a \<and> fmlookup ats a = Some ar \<and> on_node (astate ar)))"

lemma aborts_attempts:
  assumes "aborts_ok J js ats"
    "\<And>a r. fmlookup ats a = Some r \<Longrightarrow> on_node (astate r) \<Longrightarrow> \<exists>r'. fmlookup ats' a = Some r' \<and> on_node (astate r')"
  shows "aborts_ok J js ats'"
  unfolding aborts_ok_def
proof (intro allI impI)
  fix j r assume "fmlookup js j = Some r" "j \<notin> J" "j_abort_requested (jr_spec r) \<noteq> None"
  then have "job_terminal (jr_state r) \<or> (\<exists>a ar. jr_state r = Attempting a \<and> fmlookup ats a = Some ar \<and> on_node (astate ar))"
    using assms(1) by (simp add: aborts_ok_def)
  then show "job_terminal (jr_state r) \<or> (\<exists>a ar. jr_state r = Attempting a \<and> fmlookup ats' a = Some ar \<and> on_node (astate ar))"
    using assms(2) by blast
qed

lemma aborts_advanced: "aborts_ok J js ats \<Longrightarrow> advanced ats ats' \<Longrightarrow> aborts_ok J js ats'"
  by (erule aborts_attempts) (drule (1) advancedD, auto)

lemma aborts_upd:
  "aborts_ok J js ats \<Longrightarrow> fmlookup ats a = Some r \<Longrightarrow> (on_node (astate r) \<longrightarrow> on_node (astate r')) \<Longrightarrow>
     aborts_ok J js (fmupd a r' ats)"
  by (erule aborts_attempts) auto

lemma aborts_job:
  assumes "aborts_ok J js ats"
    "j_abort_requested (jr_spec r) \<noteq> None \<Longrightarrow> j \<notin> J' \<Longrightarrow> job_terminal (jr_state r) \<or>
       (\<exists>a ar. jr_state r = Attempting a \<and> fmlookup ats a = Some ar \<and> on_node (astate ar))"
    "J \<subseteq> insert j J'"
  shows "aborts_ok J' (fmupd j r js) ats"
  unfolding aborts_ok_def
proof (intro allI impI)
  fix i ir assume i: "fmlookup (fmupd j r js) i = Some ir" "i \<notin> J'" "j_abort_requested (jr_spec ir) \<noteq> None"
  show "job_terminal (jr_state ir) \<or> (\<exists>a ar. jr_state ir = Attempting a \<and> fmlookup ats a = Some ar \<and> on_node (astate ar))"
  proof (cases "i = j")
    case True
    then show ?thesis using i assms(2) by simp
  next
    case False
    then have "fmlookup js i = Some ir" "i \<notin> J" using i assms(3) by auto
    then show ?thesis using assms(1) i(3) by (simp add: aborts_ok_def)
  qed
qed

lemma aborts_mono: "aborts_ok J js ats \<Longrightarrow> J \<subseteq> J' \<Longrightarrow> aborts_ok J' js ats"
  unfolding aborts_ok_def by blast

section \<open>The pledge pass\<close>

lemma grew_live: "grew al al' \<Longrightarrow> live_allocation al' = live_allocation al \<and> knode al' = knode al \<and> alr_seq al' = alr_seq al"
  by (auto simp: grew_def same_seat_def live_allocation_def)

lemma pools_pass:
  assumes c: "pools N s" and p: "pass_post n s s'"
  shows "pools (N - {n}) s'"
proof -
  have fr: "pool_frame s s'" and gr: "grown (allocations s) (allocations s')"
    and lo: "\<And>k al. fmlookup (allocations s) k = Some al \<Longrightarrow> knode al \<noteq> n \<Longrightarrow> fmlookup (allocations s') k = Some al"
    and hm: "hold_moves n (free_capacity s n None) (allocations s) (allocations s')"
    and pn: "pool_ok s'" "no_idle s' n"
    using p by (simp_all add: pass_post_def)
  have "seqs_below s'"
    using pools_seqs [OF c] grownD' [OF gr] grew_live pool_frameD(5) [OF fr] unfolding seqs_below_def by metis
  moreover have "live_nodes s'"
    using pools_nodes [OF c] grownD' [OF gr] grew_live pool_frameD(2) [OF fr] unfolding live_nodes_def by metis
  moreover have "no_idle s' m" if m: "m \<notin> N - {n}" for m
  proof (cases "m = n")
    case False
    with m have ni: "no_idle s m" using pools_idle [OF c] by simp
    show ?thesis
      unfolding no_idle_def
    proof (intro allI impI)
      fix k al d assume k: "fmlookup (allocations s') k = Some al" "kstate al = Accruing" "knode al = m"
      obtain al0 where al0: "fmlookup (allocations s) k = Some al0" "grew al0 al" using grownD' [OF gr k(1)] by blast
      have "knode al0 \<noteq> n" using grew_live [OF al0(2)] k(3) False by simp
      then have "al0 = al" using lo [OF al0(1)] k(1) by simp
      then have "cap_of s m d \<le> held (allocations s) m d \<or> rget d (allocation_need al) = 0"
        using ni al0(1) k(2,3) by (simp add: no_idle_def)
      then show "cap_of s' m d \<le> held (allocations s') m d \<or> rget d (allocation_need al) = 0"
        using pool_frameD(8) [OF fr] hm False by (simp add: hold_moves_def)
    qed
  qed (simp add: pn)
  ultimately show ?thesis using pn by (simp add: pools_def)
qed

lemma pass_post_fate:
  assumes "pass_post n s s'"
  shows "same_fate (attempts s) (attempts s')" "promoted (attempts s) (attempts s')" "pool_frame s s'"
  using assms by (auto simp: pass_post_def intro: promoted_same_fate)

lemma core_pass:
  assumes c: "core N s" and p: "pass_post n s s'"
  shows "core (N - {n}) s'"
  unfolding core_def
proof (intro conjI)
  show "pools (N - {n}) s'" by (rule pools_pass [OF core_pools [OF c] p])
  show "job_link (jobs s') (attempts s')"
    using job_link_same_fate [OF core_link [OF c] pass_post_fate(1) [OF p]] pool_frameD(1) [OF pass_post_fate(3) [OF p]]
    by simp
  show "attempts_ok (attempts s')" by (rule promoted_attempts_ok [OF core_attempts [OF c] pass_post_fate(2) [OF p]])
qed

section \<open>One attempt and its allocation\<close>

lemma pool_attempt_alloc:
  assumes "pool_ok s" "fmlookup (attempts s) a = Some r"
  obtains al where "fmlookup (allocations s) (aalloc r) = Some al" "linked a r (aalloc r) al"
    "kstate al = alloc_state_for (astate r)" "fund_ok al"
  using pool_attempt [OF pool_okD(1) [OF assms(1)] assms(2)] by (auto simp: matched_def)

lemma set_allocation_state_simps [simp]:
  "kstate (set_allocation_state st al) = st" "kfunded (set_allocation_state st al) = kfunded al"
  "krequested (set_allocation_state st al) = krequested al" "knode (set_allocation_state st al) = knode al"
  "alr_seq (set_allocation_state st al) = alr_seq al" "kattempt (set_allocation_state st al) = kattempt al"
  "same_seat al (set_allocation_state st al)" "allocation_need (set_allocation_state st al) = allocation_need al"
  by (simp_all add: set_allocation_state_def same_seat_def allocation_need_def)

lemma set_allocation_state_id: "kstate al = st \<Longrightarrow> set_allocation_state st al = al"
  by (auto simp: set_allocation_state_def)

lemma alloc_state_for_Released: "alloc_state_for st = Released \<longleftrightarrow> attempt_terminal st"
  by (cases st) simp_all

lemma alloc_state_for_Accruing: "alloc_state_for st = Accruing \<longleftrightarrow> st = AttAccruing"
  by (cases st) simp_all

text \<open>A live attempt moves on: its allocation follows, and nothing else changes.\<close>

lemma core_step:
  assumes c: "core N s" and r: "fmlookup (attempts s) a = Some r" and al: "fmlookup (allocations s) (aalloc r) = Some al"
    and same: "same_attempt r r'" and ok: "attempt_ok r'"
    and live: "\<not> attempt_terminal (astate r)" "\<not> attempt_terminal (astate r')"
    and acc: "astate r' = AttAccruing \<longleftrightarrow> astate r = AttAccruing"
  shows "core N (s\<lparr>attempts := fmupd a r' (attempts s),
    allocations := fmupd (aalloc r) (set_allocation_state (alloc_state_for (astate r')) al) (allocations s)\<rparr>)"
    (is "core N ?s")
proof -
  let ?al = "set_allocation_state (alloc_state_for (astate r')) al"
  have ok0: "pool_ok s" by (rule core_pool [OF c])
  note P = pool_okD(1) [OF ok0]
  have k: "kstate al = alloc_state_for (astate r)" and f: "fund_ok al"
    using pool_attempt_alloc [OF ok0 r] al by auto
  have ks: "kstate ?al = Accruing \<longleftrightarrow> kstate al = Accruing" "kstate al \<noteq> Released" "kstate ?al \<noteq> Released"
    using k acc live by (simp_all add: alloc_state_for_Accruing alloc_state_for_Released)
  have f': "fund_ok ?al" using f ks by (cases "kstate al"; cases "alloc_state_for (astate r')") (auto simp: fund_ok_def)
  have "pool {} (fmupd a r' (attempts s)) (fmupd (aalloc r) ?al (allocations s))
      (if kstate ?al = Accruing then accrual_queue s else fmdrop (knode al, alr_seq al) (accrual_queue s))"
    using ks live same f' by (intro pool_pair [OF P r al]) (auto simp: matched_def)
  then have pool: "pool {} (fmupd a r' (attempts s)) (fmupd (aalloc r) ?al (allocations s)) (accrual_queue s)"
    using pool_drop_id [OF P al] ks(1) by (cases "kstate al = Accruing") auto
  have held: "held (fmupd (aalloc r) ?al (allocations s)) m d = held (allocations s) m d" for m d
    using ks by (intro held_same [OF al]) (simp add: hold_def live_allocation_def)
  have "pool_ok ?s" using pool ok0 by (simp add: pool_ok_def no_overflow_def held)
  moreover have "seqs_below ?s" "live_nodes ?s"
    using pools_seqs [OF core_pools [OF c]] pools_nodes [OF core_pools [OF c]] al ks
    by (auto simp: seqs_below_def live_nodes_def live_allocation_def)
  moreover have "no_idle ?s n" if "n \<notin> N" for n
    using pools_idle [OF core_pools [OF c] that] al ks
    by (auto simp: no_idle_def held cap_of_def)
  moreover have "job_link (jobs s) (fmupd a r' (attempts s))"
    using same live by (intro job_link_same_fate [OF core_link [OF c]] same_fate_upd [OF r]) simp_all
  moreover have "attempts_ok (fmupd a r' (attempts s))"
    using core_attempts [OF c] ok by (simp add: attempts_ok_def)
  ultimately show ?thesis by (simp add: core_def pools_def)
qed

lemma core_step_attempt:
  assumes c: "core N s" and r: "fmlookup (attempts s) a = Some r"
    and same: "same_attempt r r'" and ok: "attempt_ok r'"
    and live: "\<not> attempt_terminal (astate r)" "\<not> attempt_terminal (astate r')"
    and st: "alloc_state_for (astate r') = alloc_state_for (astate r)"
  shows "core N (s\<lparr>attempts := fmupd a r' (attempts s)\<rparr>)"
proof -
  obtain al where al: "fmlookup (allocations s) (aalloc r) = Some al" "kstate al = alloc_state_for (astate r)"
    using pool_attempt_alloc [OF core_pool [OF c] r] by auto
  have "astate r' = AttAccruing \<longleftrightarrow> astate r = AttAccruing"
    using st alloc_state_for_Accruing by metis
  then show ?thesis
    using core_step [OF c r al(1) same ok live] al st set_allocation_state_id [of al] fmupd_id [OF al(1)] by simp
qed

end
