(* ===== verification/Terminate.thy ===== *)
theory Terminate
  imports Core_Inv
begin

text \<open>
  The terminal path of an attempt, \<open>terminate_attempt\<close> of \<open>coppice-state/src/apply.rs\<close>: the attempt
  ends, its allocation is released and the freed capacity pledged on, the charge is settled along the
  ancestor path and the job resolves. The path keeps the invariant of the core, and moves the job
  exactly as the resolution table says.
\<close>

section \<open>The resolution of a job in closed form\<close>

definition resolve_record :: "job_record \<Rightarrow> attempt_outcome \<Rightarrow> timestamp \<Rightarrow> job_record" where
  "resolve_record r outcome t =
     (case resolution_of r outcome of
        ResolveTerminal to \<Rightarrow>
          r\<lparr>jr_terminal_at := (case jr_terminal_at r of None \<Rightarrow> Some t | Some x \<Rightarrow> Some x), jr_state := to\<rparr>
      | Requeue consume \<Rightarrow>
          r\<lparr>jr_retries_used := (if consume then jr_retries_used r + 1 else jr_retries_used r), jr_state := Queued\<rparr>)"

lemma resolve_record_fields [simp]:
  "jr_spec (resolve_record r outcome t) = jr_spec r"
  "jr_attempts (resolve_record r outcome t) = jr_attempts r"
  "jr_multiplier (resolve_record r outcome t) = jr_multiplier r"
  "jr_submitted_at (resolve_record r outcome t) = jr_submitted_at r"
  by (simp_all add: resolve_record_def split: resolution.split)

lemma resolution_terminal: "resolution_of r outcome = ResolveTerminal to \<Longrightarrow> job_terminal to"
  by (auto simp: resolution_of_def Let_def split: if_splits)

lemma resolve_record_state:
  "job_terminal (jr_state (resolve_record r outcome t)) \<or> jr_state (resolve_record r outcome t) = Queued"
  by (auto simp: resolve_record_def resolution_terminal split: resolution.split)

lemma fmupd_modify [simp]: "fmupd k v (fmmodify k f m) = fmupd k v m"
  by (rule fmap_ext) auto

lemma fmmodify_Some: "fmlookup m k = Some v \<Longrightarrow> fmmodify k f m = fmupd k (f v) m"
  by (simp add: fmmodify_def)

lemma fmupd_twice [simp]: "fmupd k v (fmupd k w m) = fmupd k v m"
  by (rule fmap_ext) auto

lemma terminal_at_id: "jr_terminal_at r = Some x \<Longrightarrow> r\<lparr>jr_terminal_at := Some x, jr_state := to\<rparr> = r\<lparr>jr_state := to\<rparr>"
  by (cases r) simp

lemma resolve_job_eq:
  assumes j: "fmlookup (jobs s) j = Some r" and live: "\<not> job_terminal (jr_state r)" "jr_state r \<noteq> Queued"
  shows "resolve_job j outcome t (s, evs) =
    (s\<lparr>jobs := fmupd j (resolve_record r outcome t) (jobs s)\<rparr>,
     evs @ [JobStateChanged j (jr_state r) (jr_state (resolve_record r outcome t))])"
proof (cases "resolution_of r outcome")
  case (ResolveTerminal to)
  then have "jr_state r \<noteq> to" using resolution_terminal live by blast
  then show ?thesis
    using ResolveTerminal j live by (auto simp: resolve_record_def fmmodify_Some terminal_at_id split: option.split)
next
  case (Requeue consume)
  then show ?thesis using j live by (auto simp: resolve_record_def fmmodify_Some)
qed

lemma resolution_budget:
  "resolution_of r outcome = Requeue True \<Longrightarrow> jr_retries_used r < max_retries (j_retry (jr_spec r))"
  by (auto simp: resolution_of_def Let_def split: if_splits)

lemma word_succ_le: "(x :: u32) < y \<Longrightarrow> x + 1 \<le> y"
  by (rule inc_le)

lemma resolve_record_ok:
  assumes ok: "job_ok j r ats" and st: "\<not> job_terminal (jr_state r)"
  shows "job_ok j (resolve_record r outcome t) ats"
proof (cases "resolution_of r outcome")
  case (ResolveTerminal to)
  then have "job_terminal to" by (rule resolution_terminal)
  then have "jr_state (resolve_record r outcome t) = to" "to \<noteq> Submitted" "to \<noteq> Accepted" "\<And>a. to \<noteq> Attempting a"
    using ResolveTerminal by (auto simp: resolve_record_def)
  then show ?thesis using ok \<open>job_terminal to\<close> ResolveTerminal
    by (auto simp: job_ok_def resolve_record_def split: option.split)
next
  case (Requeue consume)
  have "jr_retries_used r + 1 \<le> max_retries (j_retry (jr_spec r))" if consume
    using resolution_budget [of r outcome] Requeue that by (simp add: word_succ_le)
  then show ?thesis using ok st Requeue by (auto simp: job_ok_def resolve_record_def)
qed

lemma resolve_record_abort: "j_abort_requested (jr_spec r) \<noteq> None \<Longrightarrow> job_terminal (jr_state (resolve_record r outcome t))"
  by (auto simp: resolve_record_def resolution_of_def Let_def split: if_splits)

section \<open>The end of an attempt\<close>

definition ended :: "attempt_outcome \<Rightarrow> timestamp \<Rightarrow> attempt_record \<Rightarrow> attempt_record" where
  "ended outcome t r =
     (let r = set_attempt_state (Terminal outcome) r
      in if atr_ended_at r = None then r\<lparr>atr_ended_at := Some t\<rparr> else r)"

definition settled :: "cost_units \<Rightarrow> true_up \<Rightarrow> attempt_record \<Rightarrow> attempt_record" where
  "settled actual adjustment r =
     (if atr_settlement r = None
      then r\<lparr>atr_settlement := Some \<lparr>st_actual_cost = actual, st_true_up = adjustment\<rparr>\<rparr> else r)"

definition released :: "attempt_id \<Rightarrow> attempt_record \<Rightarrow> allocation_record \<Rightarrow> state_machine \<Rightarrow> state_machine" where
  "released a r' al s =
     s\<lparr>attempts := fmupd a r' (attempts s),
       allocations := fmupd (aalloc r') (set_allocation_state Released al) (allocations s),
       accrual_queue := fmdrop (knode al, alr_seq al) (accrual_queue s)\<rparr>"

lemma ended_simps [simp]:
  "astate (ended outcome t r) = Terminal outcome" "same_attempt r (ended outcome t r)"
  "aalloc (ended outcome t r) = aalloc r" "ajob (ended outcome t r) = ajob r"
  "atr_settlement (ended outcome t r) = atr_settlement r" "atr_started_at (ended outcome t r) = atr_started_at r"
  "atr_preemption (ended outcome t r) = atr_preemption r" "atr_ended_at (ended outcome t r) \<noteq> None"
  by (auto simp: ended_def Let_def set_attempt_state_def same_attempt_def)

lemma settled_simps [simp]:
  "atr_attempt (settled c u r) = atr_attempt r" "same_attempt r (settled c u r)"
  "atr_started_at (settled c u r) = atr_started_at r" "atr_ended_at (settled c u r) = atr_ended_at r"
  "atr_preemption (settled c u r) = atr_preemption r" "atr_settlement (settled c u r) \<noteq> None"
  by (auto simp: settled_def same_attempt_def)

lemma attempt_ok_settled: "attempt_ok r \<Longrightarrow> attempt_ok (settled c u (ended outcome t r))"
  by (auto simp: attempt_ok_def)

lemma held_released:
  assumes "fmlookup als k = Some al"
  shows "held (fmupd k (set_allocation_state Released al) als) m d + hold m d al = held als m d"
  using held_upd_old [OF assms, of "set_allocation_state Released al" m d]
  by (simp add: hold_def live_allocation_def)

lemma memo_ok_sub:
  assumes "memo_ok als used" "fmlookup als k = Some al" "live_allocation al"
  shows "memo_ok (fmupd k (set_allocation_state Released al) als)
    (map_option (memo_sub (knode al) (kfunded al)) used)"
proof (cases used)
  case (Some memo)
  have "rget d (memo_get (memo_sub (knode al) (kfunded al) memo) m) =
      held (fmupd k (set_allocation_state Released al) als) m d" for m d
    using assms(1,3) Some held_released [OF assms(2), of m d]
    by (auto simp: memo_ok_def memo_get_sub rget_sub hold_def)
  then show ?thesis using Some by (simp add: memo_ok_def)
qed simp

lemma pools_released:
  assumes p: "pools N s" and r: "fmlookup (attempts s) a = Some r" "\<not> attempt_terminal (astate r)"
    and al: "fmlookup (allocations s) (aalloc r) = Some al"
  shows "pools (insert (knode al) N) (released a (ended outcome t r) al s)" (is "pools _ ?s")
proof -
  have ok: "pool_ok s" by (rule pools_pool [OF p])
  note P = pool_okD(1) [OF ok]
  have f: "fund_ok al" using pool_fund_ok [OF P al] .
  have "pool {} (fmupd a (ended outcome t r) (attempts s))
      (fmupd (aalloc r) (set_allocation_state Released al) (allocations s))
      (if kstate (set_allocation_state Released al) = Accruing then accrual_queue s
       else fmdrop (knode al, alr_seq al) (accrual_queue s))"
    using f r(2) by (intro pool_pair [OF P r(1) al]) (auto simp: matched_def fund_ok_def)
  then have pool: "pool {} (attempts ?s) (allocations ?s) (accrual_queue ?s)" by (simp add: released_def)
  have held: "held (allocations ?s) m d + hold m d al = held (allocations s) m d" for m d
    using held_released [OF al] by (simp add: released_def)
  have "pool_ok ?s"
    using pool no_overflowD [OF pool_okD(2) [OF ok]] held
    unfolding pool_ok_def no_overflow_def by (metis add_leD1)
  moreover have "seqs_below ?s" "live_nodes ?s"
    using pools_seqs [OF p] pools_nodes [OF p] al
    by (auto simp: seqs_below_def live_nodes_def live_allocation_def released_def)
  moreover have "no_idle ?s m" if m: "m \<notin> insert (knode al) N" for m
  proof -
    have "held (allocations ?s) m d = held (allocations s) m d" for d
      using held [of m d] m by (auto simp: hold_def)
    moreover have "cap_of ?s = cap_of s" by (simp add: released_def cap_of_def fun_eq_iff)
    ultimately show ?thesis
      using pools_idle [OF p, of m] m by (auto simp: no_idle_def released_def)
  qed
  ultimately show ?thesis by (simp add: pools_def)
qed

text \<open>The job's side: the attempt has ended and the job has left it.\<close>

lemma job_link_end:
  assumes l: "job_link js ats" and a: "fmlookup ats a = Some r" "\<not> attempt_terminal (astate r)"
    and j: "fmlookup js (ajob r) = Some jr"
    and r1: "ajob r1 = ajob r" "attempt_terminal (astate r1)"
    and jr': "job_ok (ajob r) jr' ats" "jr_attempts jr' = jr_attempts jr" "\<And>b. jr_state jr' \<noteq> Attempting b"
  shows "job_link (fmupd (ajob r) jr' js) (fmupd a r1 ats)"
  unfolding job_link_def
proof (intro conjI allI impI)
  fix i ir assume i: "fmlookup (fmupd (ajob r) jr' js) i = Some ir"
  then have "job_ok i ir ats" using l jr'(1) by (auto simp: job_link_def split: if_splits)
  then show "job_ok i ir (fmupd a r1 ats)" using a(1) r1(1) by (auto simp: job_ok_def)
next
  fix b br assume b: "fmlookup (fmupd a r1 ats) b = Some br"
  have link: "attempt_link js a r" using l a(1) by (simp add: job_link_def)
  then have st: "jr_state jr = Attempting a" using j a(2) by (auto simp: attempt_link_def)
  show "attempt_link (fmupd (ajob r) jr' js) b br"
  proof (cases "b = a")
    case True
    then show ?thesis using b link j r1 jr'(2,3) by (auto simp: attempt_link_def)
  next
    case False
    then have "fmlookup ats b = Some br" using b by simp
    then have "attempt_link js b br" using l by (simp add: job_link_def)
    then show ?thesis using j st jr'(2,3) False by (auto simp: attempt_link_def)
  qed
qed

section \<open>The whole path\<close>

definition core_frame :: "state_machine \<Rightarrow> state_machine \<Rightarrow> bool" where
  "core_frame s s' \<longleftrightarrow>
     s' = s\<lparr>jobs := jobs s', attempts := attempts s', allocations := allocations s', accrual_queue := accrual_queue s',
            quota_entities := quota_entities s'\<rparr>"

lemma core_frame_refl [simp]: "core_frame s s"
  by (simp add: core_frame_def)

lemma core_frameD:
  assumes "core_frame s s'"
  shows "nodes s' = nodes s" "policy s' = policy s" "next_allocation_seq s' = next_allocation_seq s"
    "bindings s' = bindings s" "cluster_version s' = cluster_version s" "cap_of s' = cap_of s"
proof -
  note eq = assms [unfolded core_frame_def]
  show "policy s' = policy s" "next_allocation_seq s' = next_allocation_seq s"
    "bindings s' = bindings s" "cluster_version s' = cluster_version s"
    using arg_cong [OF eq, of policy] arg_cong [OF eq, of next_allocation_seq]
      arg_cong [OF eq, of bindings] arg_cong [OF eq, of cluster_version] by simp_all
  show n: "nodes s' = nodes s" using arg_cong [OF eq, of nodes] by simp
  then show "cap_of s' = cap_of s" by (simp add: cap_of_def fun_eq_iff)
qed

lemma core_frame_trans:
  assumes "core_frame s s1" "core_frame s1 s2"
  shows "core_frame s s2"
  unfolding core_frame_def
  by (subst assms(2) [unfolded core_frame_def], subst assms(1) [unfolded core_frame_def]) simp

lemma pool_frame_core: "pool_frame s s' \<Longrightarrow> core_frame s s'"
proof -
  assume "pool_frame s s'"
  then have "s' = s\<lparr>attempts := attempts s', allocations := allocations s', accrual_queue := accrual_queue s'\<rparr>"
    "jobs s' = jobs s" "quota_entities s' = quota_entities s"
    using pool_frameD [of s s'] by (simp_all add: pool_frame_def)
  then show ?thesis by (simp add: core_frame_def)
qed

text \<open>The pass after a release: with \<open>pledge\<close> false nothing happens and the node stays owed a pass.\<close>

definition pass_if :: "bool \<Rightarrow> node_id \<Rightarrow> capacity_memo option \<Rightarrow> effects \<Rightarrow> effects \<times> capacity_memo option" where
  "pass_if pledge n used eff = (if pledge then pledge_node n used eff else (eff, used))"

lemma terminate_attempt_eq:
  assumes r: "fmlookup (attempts s) a = Some r" "\<not> attempt_terminal (astate r)"
    and al: "fmlookup (allocations s) (aalloc r) = Some al" "live_allocation al"
  shows "terminate_attempt a outcome rt t pledge used (s, evs) =
    (let ((s2, evs2), used2) = pass_if pledge (knode al) (map_option (memo_sub (knode al) (kfunded al)) used)
           (released a (ended outcome t r) al s,
            evs @ [AttemptStateChanged a (ajob r) (att_node (atr_attempt r)) (Terminal outcome)]);
         actual = actual_cost_of r rt;
         adjustment = settle_true_up (atr_charge r) actual t (po_decay (policy s2)) (retains r outcome);
         s3 = s2\<lparr>attempts := fmmodify a (settled actual adjustment) (attempts s2)\<rparr>;
         s4 = (case fmlookup (jobs s3) (ajob r) of
                 None \<Rightarrow> s3
               | Some jr \<Rightarrow> settle_ancestors (j_quota_entity (jr_spec jr)) adjustment t s3)
     in (resolve_job (ajob r) outcome t (s4, evs2), used2))"
proof -
  have ne: "astate r \<noteq> Terminal outcome" using r(2) by auto
  have st: "(\<lambda>a. if atr_settlement a = None then a\<lparr>atr_settlement := Some \<lparr>st_actual_cost = c, st_true_up = u\<rparr>\<rparr> else a) = settled c u"
    for c u by (simp add: settled_def fun_eq_iff)
  let ?evs = "evs @ [AttemptStateChanged a (ajob r) (att_node (atr_attempt r)) (Terminal outcome)]"
  have tr: "attempt_transition a (Terminal outcome) (s, evs) =
      (s\<lparr>attempts := fmupd a (set_attempt_state (Terminal outcome) r) (attempts s)\<rparr>, ?evs)"
    using r ne by simp
  have up: "fmmodify a (\<lambda>a. if atr_ended_at a = None then a\<lparr>atr_ended_at := Some t\<rparr> else a)
      (fmupd a (set_attempt_state (Terminal outcome) r) (attempts s)) = fmupd a (ended outcome t r) (attempts s)"
    by (simp add: ended_def Let_def fmmodify_Some)
  have rel: "release_allocation (aalloc r) pledge used (s\<lparr>attempts := fmupd a (ended outcome t r) (attempts s)\<rparr>, ?evs) =
      pass_if pledge (knode al) (map_option (memo_sub (knode al) (kfunded al)) used)
        (released a (ended outcome t r) al s, ?evs)"
    using al by (simp add: live_allocation_def released_def pass_if_def Let_def)
  show ?thesis
    using r by (simp add: tr up rel st Let_def case_prod_unfold
        cong: option.case_cong del: attempt_transition.simps release_allocation.simps resolve_job.simps)
qed

text \<open>The events that are not about the pool, in order.\<close>

definition core_events :: "event list \<Rightarrow> event list" where
  "core_events evs = filter (\<lambda>e. \<not> pool_event e) evs"

lemma core_events_append [simp]: "core_events (evs @ evs') = core_events evs @ core_events evs'"
  "core_events [] = []" "core_events (e # evs) = (if pool_event e then core_events evs else e # core_events evs)"
  by (simp_all add: core_events_def)

lemma emits_core_events: "emits pool_event evs evs' \<Longrightarrow> core_events evs' = core_events evs"
  by (auto simp: emits_def core_events_def list_all_iff)

definition no_oversell :: "state_machine \<Rightarrow> state_machine \<Rightarrow> bool" where
  "no_oversell s s' \<longleftrightarrow> (\<forall>n d. held (allocations s') n d \<le> max (held (allocations s) n d) (cap_of s' n d))"

definition ended_post :: "attempt_id \<Rightarrow> attempt_record \<Rightarrow> job_record \<Rightarrow> attempt_outcome \<Rightarrow> duration \<Rightarrow> timestamp \<Rightarrow>
    effects \<Rightarrow> effects \<Rightarrow> bool" where
  "ended_post a r jr outcome rt t eff eff' \<longleftrightarrow>
     core_frame (fst eff) (fst eff') \<and>
     jobs (fst eff') = fmupd (ajob r) (resolve_record jr outcome t) (jobs (fst eff)) \<and>
     advanced (fmupd a (ended outcome t r) (attempts (fst eff))) (attempts (fst eff')) \<and>
     no_oversell (fst eff) (fst eff') \<and>
     quota_entities (fst eff') = update_ancestors QUOTA_TREE_DEPTH_CAP
       (usage_settle (settle_true_up (atr_charge r) (actual_cost_of r rt) t (po_decay (policy (fst eff))) (retains r outcome)) t
         (po_decay (policy (fst eff)))) (Some (j_quota_entity (jr_spec jr))) (quota_entities (fst eff)) \<and>
     core_events (snd eff') = core_events (snd eff) @
       [JobStateChanged (ajob r) (Attempting a) (jr_state (resolve_record jr outcome t))]"

lemma pass_if_post:
  assumes p: "pools (insert n N) s1" and memo: "memo_ok (allocations s1) used"
    and run: "pass_if pledge n used (s1, evs1) = ((s2, evs2), used2)"
  shows "pools (if pledge then N - {n} else insert n N) s2 \<and> pool_frame s1 s2 \<and>
    promoted (attempts s1) (attempts s2) \<and> memo_ok (allocations s2) used2 \<and> emits pool_event evs1 evs2 \<and>
    (\<forall>m d. held (allocations s2) m d \<le> max (held (allocations s1) m d) (cap_of s1 m d))"
proof (cases pledge)
  case True
  then have run: "pledge_node n used (s1, evs1) = ((s2, evs2), used2)" using assms(3) by (simp add: pass_if_def)
  have ok: "pool_ok s1" using p by (rule pools_pool)
  have post: "pass_post n s1 s2" "memo_ok (allocations s2) used2" "emits pool_event evs1 evs2"
    using pledge_node_post [OF ok memo run] by simp_all
  have "insert n N - {n} = N - {n}" by blast
  then have "pools (N - {n}) s2" using pools_pass [OF p post(1)] by simp
  moreover have "hold_moves n (free_capacity s1 n None) (allocations s1) (allocations s2)"
    using post(1) by (simp add: pass_post_def)
  then have "held (allocations s2) m d \<le> max (held (allocations s1) m d) (cap_of s1 m d)" for m d
    by (rule hold_moves_no_overflow(2) [OF pool_okD(2) [OF ok]])
  ultimately show ?thesis using True post pass_post_fate [OF post(1)] by simp
next
  case False
  then show ?thesis using assms by (simp add: pass_if_def)
qed

lemma pools_same_state:
  assumes p: "pools N s" and r: "fmlookup (attempts s) a = Some r" "same_attempt r r'" "astate r' = astate r"
  shows "pools N (s\<lparr>attempts := fmupd a r' (attempts s)\<rparr>)" (is "pools N ?s")
proof -
  have ok: "pool_ok s" using p by (rule pools_pool)
  note P = pool_okD(1) [OF ok]
  obtain al where al: "fmlookup (allocations s) (aalloc r) = Some al" "kstate al = alloc_state_for (astate r)" "fund_ok al"
    using pool_attempt_alloc [OF ok r(1)] by auto
  have "pool {} (fmupd a r' (attempts s)) (fmupd (aalloc r) al (allocations s))
      (if kstate al = Accruing then accrual_queue s else fmdrop (knode al, alr_seq al) (accrual_queue s))"
    using r(2,3) al by (intro pool_pair [OF P r(1) al(1)]) (auto simp: matched_def)
  then have "pool {} (fmupd a r' (attempts s)) (allocations s) (accrual_queue s)"
    using pool_drop_id [OF P al(1)] fmupd_id [OF al(1)] by (cases "kstate al = Accruing") auto
  moreover have "cap_of ?s = cap_of s" by (simp add: cap_of_def fun_eq_iff)
  ultimately show ?thesis
    using p by (simp add: pools_def pool_ok_def seqs_below_def live_nodes_def no_idle_def)
qed

lemma terminate_core:
  assumes c: "core N s" and memo: "memo_ok (allocations s) used"
    and r: "fmlookup (attempts s) a = Some r" "\<not> attempt_terminal (astate r)"
    and run: "terminate_attempt a outcome rt t pledge used (s, evs) = ((s', evs'), used')"
  obtains jr where "fmlookup (jobs s) (ajob r) = Some jr" "jr_state jr = Attempting a"
    "core (if pledge then N - {att_node (atr_attempt r)} else insert (att_node (atr_attempt r)) N) s'"
    "memo_ok (allocations s') used'" "ended_post a r jr outcome rt t (s, evs) (s', evs')"
proof -
  note link = core_link [OF c] and ok = core_pool [OF c]
  have "attempt_link (jobs s) a r" using link r(1) by (simp add: job_link_def)
  then obtain jr where jr: "fmlookup (jobs s) (ajob r) = Some jr" "jr_state jr = Attempting a"
    using r(2) by (auto simp: attempt_link_def)
  then have jok: "job_ok (ajob r) jr (attempts s)" using link by (simp add: job_link_def)
  obtain al where al: "fmlookup (allocations s) (aalloc r) = Some al" "linked a r (aalloc r) al"
    "kstate al = alloc_state_for (astate r)"
    using pool_attempt_alloc [OF ok r(1)] by auto
  have live: "live_allocation al" using al(3) r(2) by (simp add: live_allocation_def alloc_state_for_Released)
  have n: "knode al = att_node (atr_attempt r)" using al(2) by (simp add: linked_def)
  let ?n = "att_node (atr_attempt r)" and ?s1 = "released a (ended outcome t r) al s"
  let ?evs1 = "evs @ [AttemptStateChanged a (ajob r) (att_node (atr_attempt r)) (Terminal outcome)]"
  let ?used1 = "map_option (memo_sub (knode al) (kfunded al)) used"
  obtain s2 evs2 used2 where pass: "pass_if pledge ?n ?used1 (?s1, ?evs1) = ((s2, evs2), used2)"
    by (metis surj_pair)
  have p1: "pools (insert ?n N) ?s1" using pools_released [OF core_pools [OF c] r al(1)] n by simp
  have m1: "memo_ok (allocations ?s1) ?used1"
    using memo_ok_sub [OF memo al(1) live] by (simp add: released_def)
  have p2: "pools (if pledge then N - {?n} else insert ?n N) s2" and fr: "pool_frame ?s1 s2"
    and pr: "promoted (attempts ?s1) (attempts s2)" and m2: "memo_ok (allocations s2) used2"
    and em: "emits pool_event ?evs1 evs2"
    and h2: "\<And>m d. held (allocations s2) m d \<le> max (held (allocations ?s1) m d) (cap_of ?s1 m d)"
    using pass_if_post [OF p1 m1 pass] by simp_all
  have s1: "jobs ?s1 = jobs s" "policy ?s1 = policy s" "quota_entities ?s1 = quota_entities s" "cap_of ?s1 = cap_of s"
    "attempts ?s1 = fmupd a (ended outcome t r) (attempts s)"
    by (simp_all add: released_def cap_of_def fun_eq_iff)
  note f2 = pool_frameD [OF fr]
  define actual where "actual = actual_cost_of r rt"
  define adj where "adj = settle_true_up (atr_charge r) actual t (po_decay (policy s)) (retains r outcome)"
  define s3 where "s3 = s2\<lparr>attempts := fmmodify a (settled actual adj) (attempts s2)\<rparr>"
  define s4 where "s4 = settle_ancestors (j_quota_entity (jr_spec jr)) adj t s3"
  have res: "((s', evs'), used') = (resolve_job (ajob r) outcome t (s4, evs2), used2)"
    using run [unfolded terminate_attempt_eq [OF r al(1) live]] pass n jr f2(1,4) s1
    by (simp add: Let_def s3_def s4_def adj_def actual_def cong: option.case_cong del: resolve_job.simps)
  have j4: "fmlookup (jobs s4) (ajob r) = Some jr"
    using jr f2(1) s1 by (simp add: s4_def s3_def settle_ancestors_def)
  have res': "s' = s4\<lparr>jobs := fmupd (ajob r) (resolve_record jr outcome t) (jobs s4)\<rparr>"
    "evs' = evs2 @ [JobStateChanged (ajob r) (Attempting a) (jr_state (resolve_record jr outcome t))]" "used' = used2"
    using res resolve_job_eq [OF j4] jr(2) by simp_all
  have f': "jobs s' = fmupd (ajob r) (resolve_record jr outcome t) (jobs s)" "allocations s' = allocations s2"
    "attempts s' = fmmodify a (settled actual adj) (attempts s2)" "accrual_queue s' = accrual_queue s2"
    "nodes s' = nodes s2" "next_allocation_seq s' = next_allocation_seq s2" "policy s' = policy s"
    using f2 s1 by (simp_all add: res' s4_def s3_def settle_ancestors_def)
  obtain r2 where r2: "fmlookup (attempts s2) a = Some r2" "r2 = ended outcome t r"
  proof -
    have "rel_option (\<lambda>r r'. r' = r \<or> astate r = AttAccruing \<and> r' = set_attempt_state Ready r)
      (Some (ended outcome t r)) (fmlookup (attempts s2) a)"
      using pr [unfolded promoted_def s1(5), rule_format, of a] by simp
    then show thesis using that by (auto simp: option_rel_Some1)
  qed
  have fate2: "advanced (fmupd a (ended outcome t r) (attempts s)) (attempts s2)"
    using promoted_advanced [OF pr] s1(5) by simp
  have fate: "advanced (attempts s2) (attempts s')"
    using advanced_upd [OF r2(1), of "settled actual adj r2"] by (simp add: f' fmmodify_Some [OF r2(1)])
  have jl: "job_link (jobs s') (attempts s')"
  proof -
    have "job_link (jobs s') (fmupd a (ended outcome t r) (attempts s))"
      unfolding f'(1) using resolve_record_ok [OF jok] resolve_record_state [of jr outcome t] jr(2)
      by (intro job_link_end [OF link r jr(1)]) auto
    then show ?thesis using job_link_same_fate advanced_same_fate [OF fate2] advanced_same_fate [OF fate] by blast
  qed
  have "attempts_ok (attempts s')"
    unfolding attempts_ok_def
  proof (intro allI impI)
    fix b br assume b: "fmlookup (attempts s') b = Some br"
    show "attempt_ok br"
    proof (cases "b = a")
      case True
      then have "br = settled actual adj (ended outcome t r)" using b r2 by (simp add: f')
      then show ?thesis using core_attempts [OF c] r(1) attempt_ok_settled by (auto simp: attempts_ok_def)
    next
      case False
      then have "fmlookup (attempts s2) b = Some br" using b by (simp add: f')
      then obtain b0 where "fmlookup (attempts ?s1) b = Some b0"
        "br = b0 \<or> astate b0 = AttAccruing \<and> br = set_attempt_state Ready b0"
        using promotedD' [OF pr] by blast
      moreover from this have "attempt_ok b0" using core_attempts [OF c] s1(5) False by (auto simp: attempts_ok_def)
      ultimately show ?thesis using attempt_ok_ready by blast
    qed
  qed
  moreover have "pools (if pledge then N - {?n} else insert ?n N) s'"
  proof -
    have "pools (if pledge then N - {?n} else insert ?n N) s3"
      unfolding s3_def fmmodify_Some [OF r2(1)] by (rule pools_same_state [OF p2 r2(1)]) simp_all
    then show ?thesis
      using pools_cong [of s' s3] by (simp add: f' s3_def)
  qed
  moreover have "no_oversell s s'"
    unfolding no_oversell_def
  proof (intro allI)
    fix m d
    have "held (allocations ?s1) m d \<le> held (allocations s) m d"
      using held_released [OF al(1), of m d] by (simp add: released_def)
    moreover have "cap_of s' m d = cap_of s m d" using f'(5) f2(2) by (simp add: cap_of_def released_def)
    ultimately show "held (allocations s') m d \<le> max (held (allocations s) m d) (cap_of s' m d)"
      using h2 [of m d] s1(4) f'(2) by simp
  qed
  moreover have "core_frame s s'"
  proof -
    have "core_frame s ?s1" by (simp add: core_frame_def released_def)
    moreover have "core_frame s2 s'" by (simp add: core_frame_def res' s4_def s3_def settle_ancestors_def)
    ultimately show ?thesis using pool_frame_core [OF fr] core_frame_trans by blast
  qed
  moreover have "quota_entities s' = update_ancestors QUOTA_TREE_DEPTH_CAP (usage_settle adj t (po_decay (policy s)))
      (Some (j_quota_entity (jr_spec jr))) (quota_entities s)"
    using f2(3,4) s1 by (simp add: res' s4_def s3_def settle_ancestors_def)
  moreover have "core_events evs' = core_events evs @ [JobStateChanged (ajob r) (Attempting a) (jr_state (resolve_record jr outcome t))]"
    using emits_core_events [OF em] by (simp add: res')
  moreover have "advanced (fmupd a (ended outcome t r) (attempts s)) (attempts s')"
    using fate2 fate by (rule advanced_trans)
  ultimately show thesis
    using that [OF jr] jl m2 res'(3) f' by (simp add: core_def ended_post_def adj_def actual_def)
qed

end
