(* ===== verification/Progress.thy ===== *)
theory Progress
  imports Terminate
begin

text \<open>
  The abstract job automaton, and the progress of a command against it. An observer who knows only the
  states of the jobs replays the events a command emits: every event must be a legal move of the
  transition table from the state the observer has, and at the end the observer must have the states of
  the replicated jobs. \<open>progress\<close> carries this through the effects of a command together with the
  invariant of the core and the bound on what nodes hold.
\<close>

section \<open>The observer\<close>

type_synonym job_states = "(job_id, job_state) fmap"

definition states_of :: "(job_id, job_record) fmap \<Rightarrow> job_states" where
  "states_of js = fmmap jr_state js"

fun observe :: "event \<Rightarrow> job_states \<Rightarrow> job_states option" where
  "observe (JobSubmitted j) m = (if fmlookup m j = None then Some (fmupd j Submitted m) else None)"
| "observe (JobStateChanged j before after) m =
     (if fmlookup m j = Some before \<and> job_may_transition before after then Some (fmupd j after m) else None)"
| "observe (JobEvicted j _) m =
     (case fmlookup m j of None \<Rightarrow> None | Some st \<Rightarrow> if job_terminal st then Some (fmdrop j m) else None)"
| "observe _ m = Some m"

fun replay :: "event list \<Rightarrow> job_states \<Rightarrow> job_states option" where
  "replay [] m = Some m"
| "replay (e # es) m = Option.bind (observe e m) (replay es)"

lemma replay_append: "replay (es @ es') m = Option.bind (replay es m) (replay es')"
  by (induction es arbitrary: m) (auto split: bind_splits)

lemma observe_pool_event: "pool_event e \<Longrightarrow> observe e m = Some m"
  by (cases e) simp_all

lemma replay_core_events: "replay (core_events es) m = replay es m"
  by (induction es arbitrary: m) (auto simp: observe_pool_event intro!: bind_option_cong)

lemma states_of_lookup [simp]: "fmlookup (states_of js) j = map_option jr_state (fmlookup js j)"
  by (simp add: states_of_def)

lemma states_of_upd [simp]: "states_of (fmupd j r js) = fmupd j (jr_state r) (states_of js)"
  by (rule fmap_ext) simp

lemma states_of_drop [simp]: "states_of (fmdrop j js) = fmdrop j (states_of js)"
  by (rule fmap_ext) simp

lemma states_of_same:
  "fmlookup js j = Some r \<Longrightarrow> jr_state r' = jr_state r \<Longrightarrow> states_of (fmupd j r' js) = states_of js"
  by (rule fmap_ext) auto

section \<open>Progress\<close>

definition progress :: "job_id set \<Rightarrow> node_id set \<Rightarrow> state_machine \<Rightarrow> effects \<Rightarrow> bool" where
  "progress J N s0 eff \<longleftrightarrow> core N (fst eff) \<and> aborts_ok J (jobs (fst eff)) (attempts (fst eff)) \<and> core_frame s0 (fst eff) \<and> no_oversell s0 (fst eff) \<and>
     replay (snd eff) (states_of (jobs s0)) = Some (states_of (jobs (fst eff)))"

lemma progressD:
  assumes "progress J N s0 eff"
  shows progress_core: "core N (fst eff)" and progress_aborts: "aborts_ok J (jobs (fst eff)) (attempts (fst eff))"
    and progress_frame: "core_frame s0 (fst eff)"
    and progress_held: "no_oversell s0 (fst eff)"
    and progress_replay: "replay (snd eff) (states_of (jobs s0)) = Some (states_of (jobs (fst eff)))"
  using assms by (simp_all add: progress_def)

lemma no_oversell_refl [simp]: "no_oversell s s"
  by (simp add: no_oversell_def)

lemma progress_start: "core N s \<Longrightarrow> aborts_ok J (jobs s) (attempts s) \<Longrightarrow> progress J N s (s, [])"
  by (simp add: progress_def)

text \<open>The invariant between commands.\<close>

definition sound :: "state_machine \<Rightarrow> bool" where
  "sound s \<longleftrightarrow> core {} s \<and> aborts_ok {} (jobs s) (attempts s)"

lemma soundD: "sound s \<Longrightarrow> core {} s" "sound s \<Longrightarrow> progress {} {} s (s, [])"
  by (simp_all add: sound_def progress_start)

lemma sound_default: "sound state_default"
  using core_default by (simp add: sound_def aborts_ok_def state_default_def)

lemma no_oversell_trans:
  assumes "no_oversell s s1" "no_oversell s1 s2" "cap_of s2 = cap_of s1"
  shows "no_oversell s s2"
  unfolding no_oversell_def
proof (intro allI)
  fix n d
  have "held (allocations s1) n d \<le> max (held (allocations s) n d) (cap_of s1 n d)"
    "held (allocations s2) n d \<le> max (held (allocations s1) n d) (cap_of s2 n d)"
    using assms(1,2) by (simp_all add: no_oversell_def)
  then show "held (allocations s2) n d \<le> max (held (allocations s) n d) (cap_of s2 n d)"
    using assms(3) by simp
qed

lemma progress_step:
  assumes p: "progress J N s0 (s, evs)" and c: "core M s'" "core_frame s s'" "no_oversell s s'"
    and ab: "aborts_ok J' (jobs s') (attempts s')"
    and ev: "core_events evs' = core_events evs @ new"
    and rp: "replay new (states_of (jobs s)) = Some (states_of (jobs s'))"
  shows "progress J' M s0 (s', evs')"
proof -
  have "replay evs' (states_of (jobs s0)) = Option.bind (replay (core_events evs) (states_of (jobs s0))) (replay new)"
    using replay_core_events [of evs'] by (simp add: ev replay_append [symmetric])
  also have "\<dots> = Some (states_of (jobs s'))"
    using progress_replay [OF p] rp by (simp add: replay_core_events)
  finally show ?thesis
    using c ab core_frame_trans [OF progress_frame [OF p], of s']
      no_oversell_trans [OF progress_held [OF p], of s'] core_frameD(6) [OF c(2)] by (simp add: progress_def)
qed

lemma progress_mono: "progress J N s0 eff \<Longrightarrow> N \<subseteq> M \<Longrightarrow> progress J M s0 eff"
  by (auto simp: progress_def intro: core_mono)

lemma resolve_legal: "job_may_transition (Attempting a) (jr_state (resolve_record jr outcome t))"
  using resolve_record_state [of jr outcome t] by (cases "jr_state (resolve_record jr outcome t)") auto

lemma aborts_ended:
  assumes ab: "aborts_ok J js ats" and l: "job_link js ats" and r: "fmlookup ats a = Some r"
    and jr': "j_abort_requested (jr_spec jr') \<noteq> None \<Longrightarrow> job_terminal (jr_state jr')" and J: "J \<subseteq> insert (ajob r) J'"
  shows "aborts_ok J' (fmupd (ajob r) jr' js) (fmupd a r1 ats)"
  unfolding aborts_ok_def
proof (intro allI impI)
  fix i ir assume i: "fmlookup (fmupd (ajob r) jr' js) i = Some ir" "i \<notin> J'" "j_abort_requested (jr_spec ir) \<noteq> None"
  show "job_terminal (jr_state ir) \<or> (\<exists>b br. jr_state ir = Attempting b \<and> fmlookup (fmupd a r1 ats) b = Some br \<and> on_node (astate br))"
  proof (cases "i = ajob r")
    case True
    then show ?thesis using i jr' by simp
  next
    case False
    then have i': "fmlookup js i = Some ir" "i \<notin> J" using i J by auto
    then have ok: "job_ok i ir ats" using l by (simp add: job_link_def)
    have "job_terminal (jr_state ir) \<or> (\<exists>b br. jr_state ir = Attempting b \<and> fmlookup ats b = Some br \<and> on_node (astate br))"
      using ab i' i(3) by (simp add: aborts_ok_def)
    moreover have "b \<noteq> a" if "jr_state ir = Attempting b" for b
      using ok that r False by (auto simp: job_ok_def)
    ultimately show ?thesis by auto
  qed
qed

lemma terminate_live_progress:
  assumes p: "progress J N s0 (s, evs)" and memo: "memo_ok (allocations s) used"
    and r: "fmlookup (attempts s) a = Some r" "\<not> attempt_terminal (astate r)"
    and node: "\<not> pledge \<Longrightarrow> att_node (atr_attempt r) \<in> N" and J: "J \<subseteq> insert (ajob r) J'"
    and run: "terminate_attempt a outcome rt t pledge used (s, evs) = (eff', used')"
  shows "progress J' N s0 eff' \<and> memo_ok (allocations (fst eff')) used'"
proof -
  obtain s' evs' where eff': "eff' = (s', evs')" by (cases eff')
  have c: "core N s" using progress_core [OF p] by simp
  obtain jr where jr: "fmlookup (jobs s) (ajob r) = Some jr" "jr_state jr = Attempting a"
    and c': "core (if pledge then N - {att_node (atr_attempt r)} else insert (att_node (atr_attempt r)) N) s'"
    and m': "memo_ok (allocations s') used'" and post: "ended_post a r jr outcome rt t (s, evs) (s', evs')"
    using terminate_core [OF c memo r run [unfolded eff']] by blast
  have N: "(if pledge then N - {att_node (atr_attempt r)} else insert (att_node (atr_attempt r)) N) \<subseteq> N"
    using node by auto
  have "aborts_ok J' (fmupd (ajob r) (resolve_record jr outcome t) (jobs s)) (fmupd a (ended outcome t r) (attempts s))"
    using progress_aborts [OF p] J resolve_record_abort by (intro aborts_ended [OF _ core_link [OF c] r(1)]) auto
  then have ab: "aborts_ok J' (jobs s') (attempts s')"
    using aborts_advanced post by (auto simp: ended_post_def)
  have "replay [JobStateChanged (ajob r) (Attempting a) (jr_state (resolve_record jr outcome t))] (states_of (jobs s)) =
      Some (states_of (jobs s'))"
    using post jr resolve_legal by (simp add: ended_post_def)
  then have "progress J' N s0 (s', evs')"
    using progress_step [OF p core_mono [OF c' N]] ab post by (simp add: ended_post_def)
  then show ?thesis using m' eff' by simp
qed

lemma terminate_progress:
  assumes p: "progress J N s0 (s, evs)" and memo: "memo_ok (allocations s) used"
    and node: "\<And>r. fmlookup (attempts s) a = Some r \<Longrightarrow> \<not> pledge \<Longrightarrow> att_node (atr_attempt r) \<in> N"
    and run: "terminate_attempt a outcome rt t pledge used (s, evs) = (eff', used')"
  shows "progress J N s0 eff' \<and> memo_ok (allocations (fst eff')) used'"
proof (cases "\<exists>r. fmlookup (attempts s) a = Some r \<and> \<not> attempt_terminal (astate r)")
  case True
  then show ?thesis using terminate_live_progress [OF p memo _ _ node _ run, of _ J] by blast
next
  case False
  then have "eff' = (s, evs)" "used' = used" using run by (auto split: option.splits)
  then show ?thesis using p memo by simp
qed

end
