(* ===== verification/Handlers.thy ===== *)
theory Handlers
  imports Placement
begin

text \<open>
  The handlers of \<open>coppice-state/src/apply.rs\<close> for jobs, attempts and nodes: what the API, the agents'
  reports, node lifecycle and housekeeping propose.
\<close>

definition authorize :: "state_machine \<Rightarrow> actor option \<Rightarrow> verb \<Rightarrow> rejection_reason + unit" where
  "authorize s actor v =
     (case actor of
        None \<Rightarrow> Inr ()
      | Some a \<Rightarrow>
          (case evaluate (bindings s) (quota_entities s) a v of
             Inl d \<Rightarrow> Inl (PermissionDenied d)
           | Inr _ \<Rightarrow> Inr ()))"

section \<open>Jobs\<close>

definition same_submission :: "job \<Rightarrow> job \<Rightarrow> bool" where
  "same_submission existing retried \<longleftrightarrow>
     j_id existing = j_id retried \<and> j_image existing = j_image retried \<and>
     j_command existing = j_command retried \<and> j_entrypoint existing = j_entrypoint retried \<and>
     j_requests existing = j_requests retried \<and> j_priority existing = j_priority retried \<and>
     j_max_runtime existing = j_max_runtime retried \<and> j_quota_entity existing = j_quota_entity retried \<and>
     j_retry existing = j_retry retried \<and> j_metadata existing = j_metadata retried \<and>
     j_env existing = j_env retried \<and> j_preemption existing = j_preemption retried"

definition with_notice :: "duration option \<Rightarrow> job \<Rightarrow> job" where
  "with_notice n j = j\<lparr>j_preemption := (j_preemption j)\<lparr>ps_notice := n\<rparr>\<rparr>"

definition submit_existing :: "submit_job_cmd \<Rightarrow> job_record \<Rightarrow> state_machine \<Rightarrow> apply_result" where
  "submit_existing c existing s =
     (let submitted = (if ps_notice (j_preemption (sj_job c)) = None
            then with_notice (ps_notice (j_preemption (jr_spec existing))) (sj_job c) else sj_job c)
      in if same_submission (jr_spec existing) submitted
         then (case authorize s (sj_actor c) (VSubmit (j_quota_entity (sj_job c))) of
             Inl r \<Rightarrow> (s, Inl r)
           | Inr _ \<Rightarrow> (s, Inr []))
         else (s, Inl (SubmitSpecMismatch (j_id (sj_job c)))))"

definition submit_fresh :: "submit_job_cmd \<Rightarrow> state_machine \<Rightarrow> apply_result" where
  "submit_fresh c s =
     (let j = sj_job c;
          notice = resolve_notice (ps_notice (j_preemption j)) (po_preemption_notice_floor (policy s));
          submitted = with_notice (Some notice) j
      in case validate_notice notice (po_preemption_notice_floor (policy s)) (po_preemption_notice_cap (policy s)) of
           Inl e \<Rightarrow> (s, Inl (InvalidJobPreemption e))
         | Inr _ \<Rightarrow>
             if \<not> has_key (j_quota_entity j) (quota_entities s)
             then (s, Inl (UnknownQuotaEntity (j_quota_entity j)))
             else (case authorize s (sj_actor c) (VSubmit (j_quota_entity j)) of
                 Inl r \<Rightarrow> (s, Inl r)
               | Inr _ \<Rightarrow>
                   let spec = (case sj_actor c of
                         None \<Rightarrow> submitted
                       | Some a \<Rightarrow> submitted\<lparr>j_submitted_by := Some (ac_principal a)\<rparr>)
                   in (s\<lparr>jobs := fmupd (j_id j)
                           \<lparr>jr_spec = spec, jr_state = Queued, jr_multiplier = sj_multiplier c,
                            jr_submitted_at = sj_submitted_at c, jr_terminal_at = None,
                            jr_retries_used = 0, jr_attempts = []\<rparr> (jobs s)\<rparr>,
                       Inr [JobSubmitted (j_id j), JobStateChanged (j_id j) Submitted Accepted,
                            JobStateChanged (j_id j) Accepted Queued])))"

definition submit_job :: "submit_job_cmd \<Rightarrow> state_machine \<Rightarrow> apply_result" where
  "submit_job c s =
     (if j_abort_requested (sj_job c) \<noteq> None then (s, Inl (InvalidCommand PresetAbortFlag))
      else case validate_metadata (j_metadata (sj_job c)) of
        Inl e \<Rightarrow> (s, Inl (InvalidJobMetadata e))
      | Inr _ \<Rightarrow>
          (case validate_env (j_env (sj_job c)) of
             Inl e \<Rightarrow> (s, Inl (InvalidJobEnv e))
           | Inr _ \<Rightarrow>
               (case fmlookup (jobs s) (j_id (sj_job c)) of
                  Some existing \<Rightarrow> submit_existing c existing s
                | None \<Rightarrow> submit_fresh c s)))"

definition flag_abort :: "abort_job_cmd \<Rightarrow> job_record \<Rightarrow> job_record" where
  "flag_abort c r =
     (if j_abort_requested (jr_spec r) = None
      then r\<lparr>jr_spec := (jr_spec r)\<lparr>j_abort_requested :=
             Some \<lparr>ar_reason = aj_reason c, ar_requested_at = aj_requested_at c\<rparr>\<rparr>\<rparr>
      else r)"

definition abort_effects :: "abort_job_cmd \<Rightarrow> job_state \<Rightarrow> state_machine \<Rightarrow> effects" where
  "abort_effects c st s =
     (let s = s\<lparr>jobs := fmmodify (aj_job c) (flag_abort c) (jobs s)\<rparr> in
      case st of
        Attempting aid \<Rightarrow>
          (case fmlookup (attempts s) aid of
             None \<Rightarrow> (s, [])
           | Some a \<Rightarrow>
               (case att_state (atr_attempt a) of
                  AttAccruing \<Rightarrow>
                    fst (terminate_attempt aid OutcomeAborted dur_zero (aj_requested_at c) True None (s, []))
                | Ready \<Rightarrow>
                    fst (terminate_attempt aid OutcomeAborted dur_zero (aj_requested_at c) True None (s, []))
                | Dispatching \<Rightarrow>
                    (s, [StopRequested (att_node (atr_attempt a)) (att_allocation (atr_attempt a)) (att_job (atr_attempt a))])
                | Running \<Rightarrow>
                    (s, [StopRequested (att_node (atr_attempt a)) (att_allocation (atr_attempt a)) (att_job (atr_attempt a))])
                | _ \<Rightarrow> (s, [])))
      | Succeeded \<Rightarrow> (s, [])
      | Failed \<Rightarrow> (s, [])
      | JobAborted \<Rightarrow> (s, [])
      | _ \<Rightarrow> job_terminal_transition (aj_job c) JobAborted (aj_requested_at c) (s, []))"

definition abort_job :: "abort_job_cmd \<Rightarrow> state_machine \<Rightarrow> apply_result" where
  "abort_job c s =
     (case fmlookup (jobs s) (aj_job c) of
        None \<Rightarrow> (s, Inl (UnknownJob (aj_job c)))
      | Some r \<Rightarrow>
          if job_terminal (jr_state r) then (s, Inl (JobTerminal (aj_job c)))
          else case authorize s (aj_actor c) (VAbort (j_quota_entity (jr_spec r)) (j_submitted_by (jr_spec r))) of
            Inl reason \<Rightarrow> (s, Inl reason)
          | Inr _ \<Rightarrow> let (s', evs) = abort_effects c (jr_state r) s in (s', Inr evs))"

definition next_metadata :: "job_metadata_update \<Rightarrow> job_metadata \<Rightarrow> job_metadata" where
  "next_metadata u current =
     (case u of
        ReplaceMetadata m \<Rightarrow> m
      | PatchMetadata set_ unset \<Rightarrow>
          fold fmdrop (sorted_list_of_fset unset) (fold (\<lambda>(k, v). fmupd k v) (entries set_) current))"

definition update_job_metadata :: "update_job_metadata_cmd \<Rightarrow> state_machine \<Rightarrow> apply_result" where
  "update_job_metadata c s =
     (case fmlookup (jobs s) (um_job c) of
        None \<Rightarrow> (s, Inl (UnknownJob (um_job c)))
      | Some r \<Rightarrow>
          (case authorize s (um_actor c) (VUpdateJobMetadata (j_quota_entity (jr_spec r)) (j_submitted_by (jr_spec r))) of
             Inl reason \<Rightarrow> (s, Inl reason)
           | Inr _ \<Rightarrow>
               let current = j_metadata (jr_spec r);
                   next = next_metadata (um_update c) current
               in (case validate_metadata next of
                     Inl e \<Rightarrow> (s, Inl (InvalidJobMetadata e))
                   | Inr _ \<Rightarrow>
                       if next = current then (s, Inr [])
                       else (s\<lparr>jobs := fmupd (um_job c) (r\<lparr>jr_spec := (jr_spec r)\<lparr>j_metadata := next\<rparr>\<rparr>) (jobs s)\<rparr>,
                             Inr [JobMetadataUpdated (um_job c) current]))))"

section \<open>Attempts\<close>

definition dispatch_attempt :: "attempt_id \<Rightarrow> timestamp \<Rightarrow> state_machine \<Rightarrow> apply_result" where
  "dispatch_attempt aid dispatched_at s =
     (case fmlookup (attempts s) aid of
        None \<Rightarrow> (s, Inl (UnknownAttempt aid))
      | Some a \<Rightarrow>
          if att_state (atr_attempt a) \<noteq> Ready then (s, Inl (StaleAttemptState aid))
          else let (s', evs) = attempt_transition aid Dispatching (s, []) in (s', Inr evs))"

definition record_attempt_started :: "attempt_id \<Rightarrow> timestamp \<Rightarrow> state_machine \<Rightarrow> apply_result" where
  "record_attempt_started aid observed_at s =
     (case fmlookup (attempts s) aid of
        None \<Rightarrow> (s, Inl (UnknownAttempt aid))
      | Some a \<Rightarrow>
          if att_state (atr_attempt a) \<noteq> Dispatching then (s, Inl (StaleAttemptState aid))
          else let (s', evs) = mark_attempt_running aid observed_at (s, []) in (s', Inr evs))"

definition record_attempt_exited :: "attempt_id \<Rightarrow> timestamp \<Rightarrow> state_machine \<Rightarrow> apply_result" where
  "record_attempt_exited aid observed_at s =
     (case fmlookup (attempts s) aid of
        None \<Rightarrow> (s, Inl (UnknownAttempt aid))
      | Some a \<Rightarrow>
          if att_state (atr_attempt a) \<noteq> Running then (s, Inl (StaleAttemptState aid))
          else let (s', evs) = attempt_transition aid Finalizing (s, []) in (s', Inr evs))"

definition record_attempt_outcome :: "record_attempt_outcome_cmd \<Rightarrow> state_machine \<Rightarrow> apply_result" where
  "record_attempt_outcome c s =
     (case fmlookup (attempts s) (ro_attempt c) of
        None \<Rightarrow> (s, Inl (UnknownAttempt (ro_attempt c)))
      | Some a \<Rightarrow>
          if attempt_terminal (att_state (atr_attempt a)) then (s, Inl (StaleAttemptState (ro_attempt c)))
          else if ro_outcome c = Revoked \<and> \<not> (atr_drain_cutoff a \<noteq> None \<and> atr_started_at a = None)
          then (s, Inl (InvalidCommand RevokedOutcome))
          else
            let ((s', evs), _) = terminate_attempt (ro_attempt c) (ro_outcome c) (ro_actual_runtime c)
                  (ro_observed_at c) True None (s, [])
            in (s', Inr evs))"

definition acknowledge :: "record_attempt_notified_cmd \<Rightarrow> preemption option \<Rightarrow> preemption option" where
  "acknowledge c current =
     (let deadline = ts_sat_add (rn_observed_at c) (max (rn_remaining c) dur_zero);
          shortfall = max (rn_shortfall c) dur_zero;
          ack = \<lparr>ack_notified_at = rn_observed_at c, ack_deadline = deadline, ack_notice_shortfall = shortfall\<rparr>
      in case current of
           None \<Rightarrow> Some \<lparr>pre_reason = rn_reason c, pre_requested_at = rn_observed_at c, pre_acknowledged = Some ack\<rparr>
         | Some p \<Rightarrow>
             (case pre_acknowledged p of
                None \<Rightarrow> Some (p\<lparr>pre_acknowledged := Some ack\<rparr>)
              | Some prior \<Rightarrow>
                  if deadline \<ge> ack_deadline prior then None
                  else Some (p\<lparr>pre_acknowledged := Some (prior\<lparr>ack_deadline := deadline, ack_notice_shortfall := shortfall\<rparr>)\<rparr>)))"

definition record_attempt_notified :: "record_attempt_notified_cmd \<Rightarrow> state_machine \<Rightarrow> apply_result" where
  "record_attempt_notified c s =
     (case fmlookup (attempts s) (rn_attempt c) of
        None \<Rightarrow> (s, Inl (UnknownAttempt (rn_attempt c)))
      | Some a \<Rightarrow>
          if att_state (atr_attempt a) \<noteq> Running then (s, Inl (StaleAttemptState (rn_attempt c)))
          else case acknowledge c (atr_preemption a) of
            None \<Rightarrow> (s, Inr [])
          | Some p \<Rightarrow>
              (s\<lparr>attempts := fmupd (rn_attempt c) (a\<lparr>atr_preemption := Some p\<rparr>) (attempts s)\<rparr>,
               Inr [AttemptNotified (rn_attempt c) (att_job (atr_attempt a)) (att_node (atr_attempt a))]))"

fun check_adopted :: "state_machine \<Rightarrow> node_id \<Rightarrow> attempt_id list \<Rightarrow> u32 \<Rightarrow> (u32 \<times> rejection_reason) list \<times> u32" where
  "check_adopted s n [] idx = ([], idx)"
| "check_adopted s n (aid # rest) idx =
     (let (items, idx') = check_adopted s n rest (idx + 1) in
      (case fmlookup (attempts s) aid of
         None \<Rightarrow> (idx, UnknownAttempt aid) # items
       | Some a \<Rightarrow>
           if att_node (atr_attempt a) \<noteq> n then (idx, AttemptNotOnNode aid n) # items else items, idx'))"

fun check_lost :: "state_machine \<Rightarrow> node_id \<Rightarrow> lost_attempt list \<Rightarrow> u32 \<Rightarrow> (u32 \<times> rejection_reason) list" where
  "check_lost s n [] idx = []"
| "check_lost s n (l # rest) idx =
     (let items = check_lost s n rest (idx + 1) in
      case fmlookup (attempts s) (la_attempt l) of
        None \<Rightarrow> (idx, UnknownAttempt (la_attempt l)) # items
      | Some a \<Rightarrow>
          if att_node (atr_attempt a) \<noteq> n then (idx, AttemptNotOnNode (la_attempt l) n) # items
          else if la_outcome l = Revoked then (idx, InvalidCommand LostOutcomeRevoked) # items
          else items)"

definition adopt :: "timestamp \<Rightarrow> attempt_id \<Rightarrow> effects \<Rightarrow> effects" where
  "adopt t aid eff =
     (case fmlookup (attempts (fst eff)) aid of
        None \<Rightarrow> eff
      | Some a \<Rightarrow> if att_state (atr_attempt a) = Dispatching then mark_attempt_running aid t eff else eff)"

definition lose :: "timestamp \<Rightarrow> lost_attempt \<Rightarrow> effects \<Rightarrow> effects" where
  "lose t l eff =
     (case fmlookup (attempts (fst eff)) (la_attempt l) of
        None \<Rightarrow> eff
      | Some a \<Rightarrow>
          if \<not> attempt_terminal (att_state (atr_attempt a))
          then fst (terminate_attempt (la_attempt l) (la_outcome l) (la_actual_runtime l) t True None eff)
          else eff)"

definition reconcile_node :: "reconcile_node_cmd \<Rightarrow> state_machine \<Rightarrow> apply_result" where
  "reconcile_node c s =
     (case fmlookup (nodes s) (rc_node c) of
        None \<Rightarrow> (s, Inl (UnknownNode (rc_node c)))
      | Some n \<Rightarrow>
          if nr_epoch n \<noteq> rc_node_epoch c
          then (s, Inl (StaleNodeEpoch (rc_node c) (nr_epoch n) (rc_node_epoch c)))
          else
            let (items, idx) = check_adopted s (rc_node c) (rc_adopted c) 0;
                items = items @ check_lost s (rc_node c) (rc_lost c) idx
            in if items \<noteq> [] then (s, Inl (InvalidBatch items))
               else
                 let eff = fold (adopt (rc_observed_at c)) (rc_adopted c) (s, []);
                     (s', evs) = fold (lose (rc_observed_at c)) (rc_lost c) eff
                 in (s', Inr evs))"

end
