(* ===== verification/Node_Handlers.thy ===== *)
theory Node_Handlers
  imports Handlers
begin

text \<open>
  The handlers of \<open>coppice-state/src/apply.rs\<close> for node lifecycle (registration, loss, drains) and for
  housekeeping (evictions and interval renewals).
\<close>

section \<open>Node lifecycle\<close>

definition reregister :: "register_node_cmd \<Rightarrow> node_record \<Rightarrow> node_record" where
  "reregister c r = r\<lparr>nr_epoch := nr_epoch r + 1, nr_draining := rg_draining c,
     nr_interruption_deadline := rg_interruption_deadline c,
     nr_node := (nr_node r)\<lparr>nd_capacity := rg_capacity c, nd_labels := rg_labels c,
       nd_service_addr := rg_service_addr c, nd_host_facts := rg_host_facts c,
       nd_detected_capacity := rg_detected_capacity c, nd_preemptible_only := rg_preemptible_only c\<rparr>\<rparr>"

definition new_node :: "register_node_cmd \<Rightarrow> node_record" where
  "new_node c = \<lparr>nr_node = \<lparr>nd_id = rg_node c, nd_capacity = rg_capacity c, nd_labels = rg_labels c,
       nd_drain = None, nd_service_addr = rg_service_addr c, nd_host_facts = rg_host_facts c,
       nd_detected_capacity = rg_detected_capacity c, nd_preemptible_only = rg_preemptible_only c\<rparr>,
     nr_epoch = 1, nr_draining = rg_draining c, nr_interruption_deadline = rg_interruption_deadline c\<rparr>"

definition register_node :: "register_node_cmd \<Rightarrow> state_machine \<Rightarrow> apply_result" where
  "register_node c s =
     (let r = (case fmlookup (nodes s) (rg_node c) of Some r \<Rightarrow> reregister c r | None \<Rightarrow> new_node c);
          s = s\<lparr>nodes := fmupd (rg_node c) r (nodes s)\<rparr>;
          ((s', evs), _) = pledge_node (rg_node c) None (s, [NodeEpochBumped (rg_node c) (nr_epoch r)])
      in (s', Inr evs))"

definition lost_runtime :: "state_machine \<Rightarrow> attempt_id \<Rightarrow> timestamp \<Rightarrow> duration" where
  "lost_runtime s aid declared_at =
     (case Option.bind (fmlookup (attempts s) aid) atr_started_at of
        None \<Rightarrow> dur_zero
      | Some started \<Rightarrow> max (ts_duration_since declared_at started) dur_zero)"

definition node_victims :: "state_machine \<Rightarrow> node_id \<Rightarrow> attempt_id list" where
  "node_victims s n =
     map (\<lambda>r. al_attempt (alr_allocation r))
       (sort_key alr_seq (filter (\<lambda>r. al_node (alr_allocation r) = n \<and> live_allocation r) (vals (allocations s))))"

definition lose_node_attempt :: "timestamp \<Rightarrow> attempt_id \<Rightarrow> effects \<Rightarrow> effects" where
  "lose_node_attempt t aid eff =
     fst (terminate_attempt aid NodeLost (lost_runtime (fst eff) aid t) t False None eff)"

definition declare_node_lost :: "node_id \<Rightarrow> timestamp \<Rightarrow> state_machine \<Rightarrow> apply_result" where
  "declare_node_lost n declared_at s =
     (case fmlookup (nodes s) n of
        None \<Rightarrow> (s, Inl (UnknownNode n))
      | Some r \<Rightarrow>
          let r' = r\<lparr>nr_epoch := nr_epoch r + 1,
                nr_node := (nr_node r)\<lparr>nd_drain := (case nd_drain (nr_node r) of
                    None \<Rightarrow> Some \<lparr>dr_requested_at = declared_at, dr_deadline = None\<rparr>
                  | Some d \<Rightarrow> Some d)\<rparr>\<rparr>;
              s' = s\<lparr>nodes := fmupd n r' (nodes s)\<rparr>;
              (s', evs) = fold (lose_node_attempt declared_at) (node_victims s' n) (s', [NodeEpochBumped n (nr_epoch r')])
          in (s', Inr evs))"

definition put_drain :: "node_id \<Rightarrow> node_record \<Rightarrow> drain option \<Rightarrow> state_machine \<Rightarrow> state_machine" where
  "put_drain n r d s = s\<lparr>nodes := fmupd n (r\<lparr>nr_node := (nr_node r)\<lparr>nd_drain := d\<rparr>\<rparr>) (nodes s)\<rparr>"

definition set_node_drain :: "set_node_drain_cmd \<Rightarrow> state_machine \<Rightarrow> apply_result" where
  "set_node_drain c s =
     (case fmlookup (nodes s) (sd_node c) of
        None \<Rightarrow> (s, Inl (UnknownNode (sd_node c)))
      | Some r \<Rightarrow>
          (case authorize s (sd_actor c) VDrain of
             Inl reason \<Rightarrow> (s, Inl reason)
           | Inr _ \<Rightarrow>
               (case sd_drain c of
                  None \<Rightarrow> (put_drain (sd_node c) r None s, Inr [])
                | Some d \<Rightarrow>
                    let now = dr_requested_at d; current = nd_drain (nr_node r) in
                    (case dr_deadline d of
                       None \<Rightarrow> (if current = None then put_drain (sd_node c) r (Some d) s else s, Inr [])
                     | Some deadline \<Rightarrow>
                         let previous = Option.bind current dr_deadline;
                             min_lead = deadline_drain_min_lead (policy s)
                         in
                         if previous = Some deadline then (s, Inr [])
                         else if ts_duration_since deadline now < min_lead
                         then (s, Inl (DrainDeadlineTooSoon (sd_node c) min_lead))
                         else
                           let notice_at = map_option (\<lambda>d. t_notice (deadline_drain_times_of (policy s) d)) previous in
                           (case notice_at of
                              Some notice_at \<Rightarrow>
                                if now \<ge> notice_at then (s, Inl (DrainNoticeStarted (sd_node c) notice_at))
                                else (put_drain (sd_node c) r (Some \<lparr>dr_requested_at =
                                        (case current of None \<Rightarrow> now | Some d \<Rightarrow> dr_requested_at d),
                                        dr_deadline = Some deadline\<rparr>) s, Inr [])
                            | None \<Rightarrow>
                                (put_drain (sd_node c) r (Some \<lparr>dr_requested_at =
                                        (case current of None \<Rightarrow> now | Some d \<Rightarrow> dr_requested_at d),
                                        dr_deadline = Some deadline\<rparr>) s, Inr []))))))"

definition set_node_draining :: "set_node_draining_cmd \<Rightarrow> state_machine \<Rightarrow> apply_result" where
  "set_node_draining c s =
     (case fmlookup (nodes s) (sg_node c) of
        None \<Rightarrow> (s, Inl (UnknownNode (sg_node c)))
      | Some r \<Rightarrow>
          (s\<lparr>nodes := fmupd (sg_node c) (r\<lparr>nr_draining := sg_draining c,
               nr_interruption_deadline := sg_interruption_deadline c\<rparr>) (nodes s)\<rparr>, Inr []))"

section \<open>Housekeeping\<close>

fun check_evict_jobs :: "state_machine \<Rightarrow> job_id list \<Rightarrow> u32 \<Rightarrow> (u32 \<times> rejection_reason) list" where
  "check_evict_jobs s [] idx = []"
| "check_evict_jobs s (j # rest) idx =
     (case fmlookup (jobs s) j of
        None \<Rightarrow> check_evict_jobs s rest (idx + 1)
      | Some r \<Rightarrow>
          if \<not> job_terminal (jr_state r) then (idx, JobNotTerminal j) # check_evict_jobs s rest (idx + 1)
          else check_evict_jobs s rest (idx + 1))"

definition evict_attempt :: "attempt_id \<Rightarrow> state_machine \<Rightarrow> state_machine" where
  "evict_attempt aid s =
     (case fmlookup (attempts s) aid of
        None \<Rightarrow> s
      | Some a \<Rightarrow>
          let s = s\<lparr>attempts := fmdrop aid (attempts s)\<rparr>; al = att_allocation (atr_attempt a) in
          case fmlookup (allocations s) al of
            None \<Rightarrow> s
          | Some r \<Rightarrow>
              s\<lparr>allocations := fmdrop al (allocations s),
                accrual_queue := fmdrop (al_node (alr_allocation r), alr_seq r) (accrual_queue s)\<rparr>)"

definition evict_job :: "job_id \<Rightarrow> effects \<Rightarrow> effects" where
  "evict_job j eff =
     (let (s, evs) = eff in
      case fmlookup (jobs s) j of
        None \<Rightarrow> (s, evs)
      | Some r \<Rightarrow>
          let s = fold evict_attempt (jr_attempts r) (s\<lparr>jobs := fmdrop j (jobs s)\<rparr>) in
          (s, evs @ [JobEvicted j \<lparr>sc_entity_chain = entity_chain (quota_entities s) (j_quota_entity (jr_spec r)),
             sc_submitted_by = j_submitted_by (jr_spec r), sc_metadata = j_metadata (jr_spec r)\<rparr>]))"

definition evict_terminal_jobs :: "job_id list \<Rightarrow> timestamp \<Rightarrow> state_machine \<Rightarrow> apply_result" where
  "evict_terminal_jobs js evicted_at s =
     (let items = check_evict_jobs s js 0 in
      if items \<noteq> [] then (s, Inl (InvalidBatch items))
      else let (s', evs) = fold evict_job js (s, []) in (s', Inr evs))"

definition node_evict_reason :: "state_machine \<Rightarrow> node_id \<Rightarrow> rejection_reason option" where
  "node_evict_reason s n =
     (case fmlookup (nodes s) n of
        None \<Rightarrow> None
      | Some r \<Rightarrow>
          if \<not> nr_is_draining r then Some (NodeNotDraining n)
          else if list_ex (\<lambda>a. al_node (alr_allocation a) = n \<and> live_allocation a) (vals (allocations s))
          then Some (NodeNotEmpty n)
          else None)"

fun check_evict_nodes :: "state_machine \<Rightarrow> node_id list \<Rightarrow> u32 \<Rightarrow> (u32 \<times> rejection_reason) list" where
  "check_evict_nodes s [] idx = []"
| "check_evict_nodes s (n # rest) idx =
     (case node_evict_reason s n of
        None \<Rightarrow> check_evict_nodes s rest (idx + 1)
      | Some reason \<Rightarrow> (idx, reason) # check_evict_nodes s rest (idx + 1))"

definition evict_node :: "node_id \<Rightarrow> state_machine \<Rightarrow> state_machine" where
  "evict_node n s =
     (if has_key n (nodes s)
      then s\<lparr>nodes := fmdrop n (nodes s),
             accrual_queue := fold fmdrop (map (\<lambda>(seq, _). (n, seq)) (node_queue s n)) (accrual_queue s)\<rparr>
      else s)"

definition evict_nodes :: "evict_nodes_cmd \<Rightarrow> state_machine \<Rightarrow> apply_result" where
  "evict_nodes c s =
     (let items = check_evict_nodes s (en_nodes c) 0 in
      if items \<noteq> [] then (s, Inl (InvalidBatch items))
      else case authorize s (en_actor c) VDrain of
        Inl reason \<Rightarrow> (s, Inl reason)
      | Inr _ \<Rightarrow> (fold evict_node (en_nodes c) s, Inr []))"

fun check_renewals :: "state_machine \<Rightarrow> interval_renewal list \<Rightarrow> u32 \<Rightarrow> (u32 \<times> rejection_reason) list" where
  "check_renewals s [] idx = []"
| "check_renewals s (r # rest) idx =
     (case fmlookup (attempts s) (ir_attempt r) of
        None \<Rightarrow> check_renewals s rest (idx + 1)
      | Some a \<Rightarrow>
          if ch_interval (atr_charge a) = None
          then (idx, AttemptNotIntervalCharged (ir_attempt r)) # check_renewals s rest (idx + 1)
          else check_renewals s rest (idx + 1))"

text \<open>The charge record after a renewal that pays up to \<open>target\<close> intervals.\<close>

definition renewed_charge :: "charge_record \<Rightarrow> charge_interval \<Rightarrow> u32 \<Rightarrow> cost_units \<Rightarrow> timestamp \<Rightarrow> charge_record" where
  "renewed_charge ch i target charge t =
     \<lparr>ch_amount = sat_add (ch_amount ch) charge, ch_charged_at = t,
      ch_refund_fraction_milli = ch_refund_fraction_milli ch,
      ch_interval = Some \<lparr>ci_seconds = ci_seconds i, ci_paid = target, ci_last_tranche = charge,
        ci_prior_charged_at = ch_charged_at ch\<rparr>\<rparr>"

definition renewal_charge :: "attempt_record \<Rightarrow> charge_interval \<Rightarrow> u32 \<Rightarrow> cost_units" where
  "renewal_charge a i target =
     cost_from_rate (atr_rate a)
       (sat_word (unat (target - ci_paid i) * unat (ci_seconds i))) (atr_multiplier a)"

definition renew_one :: "timestamp \<Rightarrow> interval_renewal \<Rightarrow> state_machine \<Rightarrow> state_machine" where
  "renew_one t r s =
     (case fmlookup (attempts s) (ir_attempt r) of
        None \<Rightarrow> s
      | Some a \<Rightarrow>
          if att_state (atr_attempt a) \<noteq> Running then s
          else (case (atr_started_at a, ch_interval (atr_charge a)) of
              (Some started_at, Some i) \<Rightarrow>
                if ci_paid i \<noteq> ir_paid r then s
                else
                  let target = intervals_due (ts_duration_since t started_at) (ci_seconds i) in
                  if target \<le> ci_paid i then s
                  else
                    let charge = renewal_charge a i target;
                        s = s\<lparr>attempts := fmupd (ir_attempt r)
                              (a\<lparr>atr_charge := renewed_charge (atr_charge a) i target charge t\<rparr>) (attempts s)\<rparr>
                    in (case fmlookup (jobs s) (att_job (atr_attempt a)) of
                          None \<Rightarrow> s
                        | Some j \<Rightarrow> charge_ancestors (j_quota_entity (jr_spec j)) charge t s)
            | _ \<Rightarrow> s))"

definition renew_interval_charges :: "interval_renewal list \<Rightarrow> timestamp \<Rightarrow> state_machine \<Rightarrow> apply_result" where
  "renew_interval_charges rs proposed_at s =
     (let items = check_renewals s rs 0 in
      if items \<noteq> [] then (s, Inl (InvalidBatch items))
      else (fold (renew_one proposed_at) rs s, Inr []))"

end
