(* ===== verification/Admin_Handlers.thy ===== *)
theory Admin_Handlers
  imports Handlers
begin

text \<open>
  The administrative handlers of \<open>coppice-state/src/apply.rs\<close>: quota entities, policy, authorization
  and the cluster version. \<open>str::trim\<close> strips Unicode white space, listed here by its UTF-8 bytes.
\<close>

section \<open>White space\<close>

definition white_space :: "string list" where
  "white_space =
     [[CHR 0x09], [CHR 0x0A], [CHR 0x0B], [CHR 0x0C], [CHR 0x0D], [CHR 0x20],
      [CHR 0xC2, CHR 0x85], [CHR 0xC2, CHR 0xA0], [CHR 0xE1, CHR 0x9A, CHR 0x80],
      [CHR 0xE2, CHR 0x80, CHR 0x80], [CHR 0xE2, CHR 0x80, CHR 0x81], [CHR 0xE2, CHR 0x80, CHR 0x82],
      [CHR 0xE2, CHR 0x80, CHR 0x83], [CHR 0xE2, CHR 0x80, CHR 0x84], [CHR 0xE2, CHR 0x80, CHR 0x85],
      [CHR 0xE2, CHR 0x80, CHR 0x86], [CHR 0xE2, CHR 0x80, CHR 0x87], [CHR 0xE2, CHR 0x80, CHR 0x88],
      [CHR 0xE2, CHR 0x80, CHR 0x89], [CHR 0xE2, CHR 0x80, CHR 0x8A], [CHR 0xE2, CHR 0x80, CHR 0xA8],
      [CHR 0xE2, CHR 0x80, CHR 0xA9], [CHR 0xE2, CHR 0x80, CHR 0xAF], [CHR 0xE2, CHR 0x81, CHR 0x9F],
      [CHR 0xE3, CHR 0x80, CHR 0x80]]"

definition strip_one :: "string list \<Rightarrow> string \<Rightarrow> string option" where
  "strip_one ws s = Option.bind (find (\<lambda>w. strip_prefix w s \<noteq> None) ws) (\<lambda>w. strip_prefix w s)"

fun trim_loop :: "nat \<Rightarrow> string list \<Rightarrow> string \<Rightarrow> string" where
  "trim_loop 0 ws s = s"
| "trim_loop (Suc n) ws s = (case strip_one ws s of None \<Rightarrow> s | Some rest \<Rightarrow> trim_loop n ws rest)"

definition trim :: "string \<Rightarrow> string" where
  "trim s =
     (let s = trim_loop (length s) white_space s
      in rev (trim_loop (length s) (map rev white_space) (rev s)))"

section \<open>Quota entities\<close>

definition configure_existing :: "configure_quota_entity_cmd \<Rightarrow> quota_entity \<Rightarrow> state_machine \<Rightarrow> apply_result" where
  "configure_existing c q s =
     (case authorize s (cq_actor c) (VConfigureQuotaEntity (cq_entity c) (cq_parent c)) of
        Inl reason \<Rightarrow> (s, Inl reason)
      | Inr _ \<Rightarrow>
          if qe_name q \<noteq> cq_name c \<or> qe_parent q \<noteq> cq_parent c
          then (s, Inl (QuotaEntityImmutable (cq_entity c)))
          else (s\<lparr>quota_entities := fmupd (cq_entity c)
                  (q\<lparr>qe_quota := cq_quota c,
                     qe_preemptible := (case cq_preemptible c of None \<Rightarrow> qe_preemptible q | Some b \<Rightarrow> b),
                     qe_updated_at := cq_updated_at c\<rparr>) (quota_entities s)\<rparr>,
                Inr [QuotaEntityConfigured (cq_entity c)]))"

definition check_parent :: "configure_quota_entity_cmd \<Rightarrow> quota_tree \<Rightarrow> rejection_reason + unit" where
  "check_parent c es =
     (case cq_parent c of
        None \<Rightarrow> Inr ()
      | Some parent \<Rightarrow>
          if \<not> has_key parent es then Inl (UnknownQuotaEntity parent)
          else if length (entity_chain es parent) \<ge> QUOTA_TREE_DEPTH_CAP
          then Inl (QuotaEntityTooDeep (cq_entity c))
          else Inr ())"

definition configure_new :: "externals \<Rightarrow> configure_quota_entity_cmd \<Rightarrow> state_machine \<Rightarrow> apply_result" where
  "configure_new ext c s =
     (case validate_segment ext (cq_name c) of
        Inl e \<Rightarrow> (s, Inl (InvalidQuotaEntityName e))
      | Inr _ \<Rightarrow>
          (case check_parent c (quota_entities s) of
             Inl r \<Rightarrow> (s, Inl r)
           | Inr _ \<Rightarrow>
               (case authorize s (cq_actor c) (VConfigureQuotaEntity (cq_entity c) (cq_parent c)) of
                  Inl r \<Rightarrow> (s, Inl r)
                | Inr _ \<Rightarrow>
                    (case child_named (quota_entities s) (cq_parent c) (cq_name c) of
                       Some holder \<Rightarrow> (s, Inl (QuotaEntityNameTaken (cq_name c) holder))
                     | None \<Rightarrow>
                         (s\<lparr>quota_entities := fmupd (cq_entity c)
                             \<lparr>qe_parent = cq_parent c, qe_name = cq_name c, qe_quota = cq_quota c,
                              qe_usage = usage_new (cq_updated_at c), qe_created_at = cq_updated_at c,
                              qe_updated_at = cq_updated_at c,
                              qe_preemptible = (case cq_preemptible c of None \<Rightarrow> True | Some b \<Rightarrow> b)\<rparr>
                             (quota_entities s)\<rparr>,
                          Inr [QuotaEntityConfigured (cq_entity c)])))))"

definition configure_quota_entity :: "externals \<Rightarrow> configure_quota_entity_cmd \<Rightarrow> state_machine \<Rightarrow> apply_result" where
  "configure_quota_entity ext c s =
     (case fmlookup (quota_entities s) (cq_entity c) of
        Some q \<Rightarrow> configure_existing c q s
      | None \<Rightarrow> configure_new ext c s)"

section \<open>Policy, authorization, cluster version\<close>

definition validate_policy :: "policy_config \<Rightarrow> invalid_policy + unit" where
  "validate_policy p =
     (case decay_validate (po_decay p) of
        Inl e \<Rightarrow> Inl (PolicyDecay e)
      | Inr _ \<Rightarrow>
          if po_unbounded_runtime_multiplier p < MULTIPLIER_ONE then Inl (PolicyRule ''unbounded_runtime_multiplier'')
          else if po_unbounded_charge_interval_s p = 0 then Inl (PolicyRule ''unbounded_charge_interval_s'')
          else if po_refund_fraction_milli p > FULL_REFUND_MILLI then Inl (PolicyRule ''refund_fraction_milli'')
          else if po_preemptible_multiplier p > MULTIPLIER_ONE then Inl (PolicyRule ''preemptible_multiplier'')
          else if dur_is_negative (po_preemption_notice_floor p) then Inl (PolicyRule ''preemption_notice_floor'')
          else if po_preemption_notice_floor p > po_preemption_notice_cap p then Inl (PolicyRule ''preemption_notice_cap'')
          else Inr ())"

definition update_policy :: "update_policy_cmd \<Rightarrow> state_machine \<Rightarrow> apply_result" where
  "update_policy c s =
     (case validate_policy (up_policy c) of
        Inl e \<Rightarrow> (s, Inl (InvalidPolicy e))
      | Inr _ \<Rightarrow>
          (case authorize s (up_actor c) VUpdatePolicy of
             Inl reason \<Rightarrow> (s, Inl reason)
           | Inr _ \<Rightarrow> (s\<lparr>policy := up_policy c\<rparr>, Inr [PolicyUpdated])))"

definition unknown_scope :: "quota_tree \<Rightarrow> binding list \<Rightarrow> quota_entity_id option" where
  "unknown_scope es bs = find (\<lambda>e. \<not> has_key e es) (List.map_filter bd_scope bs)"

definition validate_bindings :: "update_authorization_cmd \<Rightarrow> quota_tree \<Rightarrow> rejection_reason + unit" where
  "validate_bindings c es =
     (case find (\<lambda>(_, b). subject_name (bd_subject b) = []) (enumerate 0 (ua_bindings c)) of
        Some (i, b) \<Rightarrow> Inl (InvalidAuthorization (EmptySubject i (bd_subject b)))
      | None \<Rightarrow>
          (case unknown_scope es (ua_bindings c) of
             Some scope \<Rightarrow> Inl (UnknownQuotaEntity scope)
           | None \<Rightarrow>
               if (case ua_groups_claim c of None \<Rightarrow> False | Some claim \<Rightarrow> trim claim = [])
               then Inl (InvalidAuthorization BlankGroupsClaim)
               else if \<not> list_ex (\<lambda>b. bd_role b = Admin \<and> bd_scope b = None) (ua_bindings c)
               then Inl AuthorizationLockout
               else Inr ()))"

definition update_authorization :: "update_authorization_cmd \<Rightarrow> state_machine \<Rightarrow> apply_result" where
  "update_authorization c s =
     (case authorize s (ua_actor c) VUpdateAuthorization of
        Inl reason \<Rightarrow> (s, Inl reason)
      | Inr _ \<Rightarrow>
          (case validate_bindings c (quota_entities s) of
             Inl reason \<Rightarrow> (s, Inl reason)
           | Inr _ \<Rightarrow>
               let s = s\<lparr>bindings := ua_bindings c\<rparr> in
               (case ua_groups_claim c of
                  None \<Rightarrow> s
                | Some claim \<Rightarrow> s\<lparr>policy := (policy s)\<lparr>po_groups_claim := claim\<rparr>\<rparr>,
                Inr [AuthorizationUpdated])))"

definition bump_cluster_version :: "u32 \<Rightarrow> actor option \<Rightarrow> timestamp \<Rightarrow> state_machine \<Rightarrow> apply_result" where
  "bump_cluster_version to actor bumped_at s =
     (if to \<le> cluster_version s then (s, Inl (ClusterVersionNotMonotonic (cluster_version s) to))
      else case authorize s actor VBumpClusterVersion of
        Inl reason \<Rightarrow> (s, Inl reason)
      | Inr _ \<Rightarrow> (s\<lparr>cluster_version := to\<rparr>, Inr [ClusterVersionBumped to]))"

end
