(* ===== verification/Pki_Handlers.thy ===== *)
theory Pki_Handlers
  imports Admin_Handlers
begin

text \<open>
  Cluster identity: the CA certificate bundle (\<open>CaCertBundle\<close> of \<open>coppice-state/src/lib.rs\<close>) and
  the handlers of \<open>apply.rs\<close> for certificates, machine identities, enrollment tokens and the custody of
  the CA key.
\<close>

section \<open>PEM bundles\<close>

datatype invalid_ca_bundle =
    BundleEmpty
  | ForbiddenBlock string
  | Malformed string
  | NotACertificate nat
  | NotACa nat

definition text_lines :: "string \<Rightarrow> string list" where
  "text_lines s =
     (let segs = split_on (CHR 0x0A) s in
      map (\<lambda>l. case strip_suffix [CHR 0x0D] l of None \<Rightarrow> l | Some l' \<Rightarrow> l') (butlast segs)
      @ (if last segs = [] then [] else [last segs]))"

fun parse_lines :: "externals \<Rightarrow> string list \<Rightarrow> nat \<Rightarrow> string option \<Rightarrow> invalid_ca_bundle + nat" where
  "parse_lines ext [] blocks body =
     (if body \<noteq> None then Inl (Malformed ''unterminated CERTIFICATE block'') else Inr blocks)"
| "parse_lines ext (raw # rest) blocks body =
     (let line = trim raw in
      if line = [] then parse_lines ext rest blocks body
      else case strip_prefix ''-----BEGIN '' line of
        Some label_rest \<Rightarrow>
          if body \<noteq> None then Inl (Malformed ''BEGIN inside an open block'')
          else (case strip_suffix ''-----'' label_rest of
              None \<Rightarrow> Inl (Malformed ''unterminated BEGIN marker'')
            | Some label \<Rightarrow>
                if label \<noteq> ''CERTIFICATE'' then Inl (ForbiddenBlock label)
                else parse_lines ext rest blocks (Some []))
      | None \<Rightarrow>
          (case strip_prefix ''-----END '' line of
             Some label_rest \<Rightarrow>
               (case strip_suffix ''-----'' label_rest of
                  None \<Rightarrow> Inl (Malformed ''unterminated END marker'')
                | Some label \<Rightarrow>
                    (case body of
                       Some b \<Rightarrow>
                         if label \<noteq> ''CERTIFICATE'' then Inl (Malformed ''END without matching BEGIN'')
                         else (case x509_from_base64 ext b of
                             None \<Rightarrow> Inl (NotACertificate blocks)
                           | Some cert \<Rightarrow>
                               if \<not> cert_is_ca cert then Inl (NotACa blocks)
                               else parse_lines ext rest (blocks + 1) None)
                     | None \<Rightarrow> Inl (Malformed ''END without matching BEGIN'')))
           | None \<Rightarrow>
               (case body of
                  None \<Rightarrow> Inl (Malformed ''content outside a PEM block'')
                | Some b \<Rightarrow> parse_lines ext rest blocks (Some (b @ line)))))"

definition bundle_parse :: "externals \<Rightarrow> string \<Rightarrow> invalid_ca_bundle + ca_cert_bundle" where
  "bundle_parse ext pem =
     (case parse_lines ext (text_lines pem) 0 None of
        Inl e \<Rightarrow> Inl e
      | Inr blocks \<Rightarrow> if blocks = 0 then Inl BundleEmpty else Inr (CaCertBundle pem))"

definition hex_digit :: "nat \<Rightarrow> char" where
  "hex_digit n = ''0123456789abcdef'' ! n"

definition hex_byte :: "8 word \<Rightarrow> string" where
  "hex_byte b = [hex_digit (unat b div 16), hex_digit (unat b mod 16)]"

definition hex_serial :: "certificate \<Rightarrow> string" where
  "hex_serial cert = concat (map hex_byte (cert_raw_serial cert))"

fun serials_lines :: "externals \<Rightarrow> string list \<Rightarrow> string option \<Rightarrow> string list" where
  "serials_lines ext [] body = []"
| "serials_lines ext (raw # rest) body =
     (let line = trim raw in
      if line = [] then serials_lines ext rest body
      else if strip_prefix ''-----BEGIN '' line \<noteq> None then serials_lines ext rest (Some [])
      else if strip_prefix ''-----END '' line \<noteq> None then
        (case body of
           None \<Rightarrow> serials_lines ext rest None
         | Some b \<Rightarrow>
             (case x509_from_base64 ext b of
                None \<Rightarrow> serials_lines ext rest None
              | Some cert \<Rightarrow> hex_serial cert # serials_lines ext rest None))
      else serials_lines ext rest (map_option (\<lambda>b. b @ line) body))"

definition bundle_serials :: "externals \<Rightarrow> ca_cert_bundle \<Rightarrow> string list" where
  "bundle_serials ext b = serials_lines ext (text_lines (bundle_pem b)) None"

section \<open>Certificates and key custody\<close>

definition graduate_holder :: "u64 \<times> timestamp \<Rightarrow> state_machine \<Rightarrow> state_machine" where
  "graduate_holder nt s =
     (let (n, confirmed_at) = nt in
      s\<lparr>key_confirmations := (case fmlookup (key_confirmations s) n of
            Some existing \<Rightarrow>
              if existing \<ge> confirmed_at then key_confirmations s else fmupd n confirmed_at (key_confirmations s)
          | None \<Rightarrow> fmupd n confirmed_at (key_confirmations s)),
        key_transfer_intents := fmdrop n (key_transfer_intents s)\<rparr>)"

definition graduate_intent :: "u64 \<times> timestamp \<Rightarrow> state_machine \<Rightarrow> state_machine" where
  "graduate_intent nt s =
     (let (n, intended_at) = nt in
      if has_key n (key_confirmations s) then s
      else s\<lparr>key_transfer_intents := fm_or_insert n intended_at (key_transfer_intents s)\<rparr>)"

definition activate_staged :: "string list \<Rightarrow> state_machine \<Rightarrow> state_machine" where
  "activate_staged serials s =
     (case staged_root s of
        None \<Rightarrow> s
      | Some r \<Rightarrow>
          let s = s\<lparr>staged_root := None\<rparr> in
          if (case serials of [] \<Rightarrow> False | serial # _ \<Rightarrow> serial = sr_serial r)
          then fold graduate_intent (entries (sr_intents r)) (fold graduate_holder (entries (sr_holders r)) s)
          else s)"

definition stage_root :: "string \<Rightarrow> timestamp \<Rightarrow> state_machine \<Rightarrow> state_machine" where
  "stage_root serial t s =
     (let (holders, intents) = (case staged_root s of
          Some existing \<Rightarrow> if sr_serial existing = serial then (sr_holders existing, sr_intents existing) else (fmempty, fmempty)
        | None \<Rightarrow> (fmempty, fmempty))
      in s\<lparr>staged_root := Some \<lparr>sr_serial = serial, sr_staged_at = t, sr_holders = holders, sr_intents = intents\<rparr>\<rparr>)"

definition record_ca_certificate :: "externals \<Rightarrow> record_ca_certificate_cmd \<Rightarrow> state_machine \<Rightarrow> apply_result" where
  "record_ca_certificate ext c s =
     (let serials = bundle_serials ext (rca_bundle c);
          finish = (\<lambda>s. (s\<lparr>ca := Some \<lparr>ca_bundle = rca_bundle c, ca_recorded_at = rca_recorded_at c\<rparr>\<rparr>, Inr []))
      in case rca_staged_root_serial c of
           Some serial \<Rightarrow>
             if serial \<notin> set (tl serials) then (s, Inl (UnknownStagedRoot serial))
             else finish (stage_root serial (rca_recorded_at c) s)
         | None \<Rightarrow> finish (activate_staged serials s))"

definition confirm_key_possession :: "u64 \<Rightarrow> timestamp \<Rightarrow> state_machine \<Rightarrow> apply_result" where
  "confirm_key_possession n t s =
     (s\<lparr>key_confirmations := fmupd n t (key_confirmations s),
        key_transfer_intents := fmdrop n (key_transfer_intents s)\<rparr>, Inr [])"

definition record_key_transfer_intent :: "u64 \<Rightarrow> timestamp \<Rightarrow> state_machine \<Rightarrow> apply_result" where
  "record_key_transfer_intent n t s =
     (if has_key n (key_confirmations s) then (s, Inr [])
      else (s\<lparr>key_transfer_intents := fm_or_insert n t (key_transfer_intents s)\<rparr>, Inr []))"

definition staged_root_in_scope :: "staged_root option \<Rightarrow> string \<Rightarrow> rejection_reason + staged_root" where
  "staged_root_in_scope staged root_serial =
     (case staged of
        Some r \<Rightarrow> if sr_serial r = root_serial then Inr r else Inl (StagedRootMismatch (Some (sr_serial r)) root_serial)
      | None \<Rightarrow> Inl (StagedRootMismatch None root_serial))"

definition confirm_staged_key_possession :: "u64 \<Rightarrow> string \<Rightarrow> timestamp \<Rightarrow> state_machine \<Rightarrow> apply_result" where
  "confirm_staged_key_possession n root_serial t s =
     (case staged_root_in_scope (staged_root s) root_serial of
        Inl reason \<Rightarrow> (s, Inl reason)
      | Inr r \<Rightarrow>
          (s\<lparr>staged_root := Some (r\<lparr>sr_holders := fmupd n t (sr_holders r), sr_intents := fmdrop n (sr_intents r)\<rparr>)\<rparr>, Inr []))"

definition record_staged_key_transfer_intent :: "u64 \<Rightarrow> string \<Rightarrow> timestamp \<Rightarrow> state_machine \<Rightarrow> apply_result" where
  "record_staged_key_transfer_intent n root_serial t s =
     (case staged_root_in_scope (staged_root s) root_serial of
        Inl reason \<Rightarrow> (s, Inl reason)
      | Inr r \<Rightarrow>
          if has_key n (sr_holders r) then (s, Inr [])
          else (s\<lparr>staged_root := Some (r\<lparr>sr_intents := fm_or_insert n t (sr_intents r)\<rparr>)\<rparr>, Inr []))"

section \<open>Machine identities and tokens\<close>

definition bind_machine_identity :: "bind_machine_identity_cmd \<Rightarrow> state_machine \<Rightarrow> apply_result" where
  "bind_machine_identity c s =
     (let existing = fmlookup (machine_bindings s) (bm_machine c);
          conflict = (s, Inl (MachineIdentityConflict (bm_machine c) (bm_raft_node_id c)))
      in if (case existing of None \<Rightarrow> False | Some b \<Rightarrow> mb_retired_at b \<noteq> None)
         then (s, Inl (MachineIdentityRetired (bm_machine c)))
         else if (case machine_for_raft_node s (bm_raft_node_id c) of None \<Rightarrow> False | Some m \<Rightarrow> m \<noteq> bm_machine c)
         then conflict
         else (case existing of
             Some b \<Rightarrow>
               if mb_raft_node_id b \<noteq> bm_raft_node_id c then conflict
               else if mb_address b \<noteq> bm_address c
               then (s, Inl (MachineAddressConflict (bm_machine c) (bm_raft_node_id c)))
               else (s, Inr [])
           | None \<Rightarrow>
               (s\<lparr>machine_bindings := fmupd (bm_machine c)
                   \<lparr>mb_raft_node_id = bm_raft_node_id c, mb_address = bm_address c,
                    mb_bound_at = bm_bound_at c, mb_retired_at = None\<rparr> (machine_bindings s)\<rparr>, Inr [])))"

definition rebind_machine_address :: "u64 \<Rightarrow> string \<Rightarrow> timestamp \<Rightarrow> state_machine \<Rightarrow> apply_result" where
  "rebind_machine_address raft_node_id address rebound_at s =
     (case machine_for_raft_node s raft_node_id of
        None \<Rightarrow> (s, Inl (UnknownMachineBinding raft_node_id))
      | Some m \<Rightarrow>
          (case fmlookup (machine_bindings s) m of
             None \<Rightarrow> (s, Inl (UnknownMachineBinding raft_node_id))
           | Some b \<Rightarrow>
               if mb_retired_at b \<noteq> None then (s, Inl (MachineIdentityRetired m))
               else (s\<lparr>machine_bindings := fmupd m (b\<lparr>mb_address := address\<rparr>) (machine_bindings s)\<rparr>, Inr [])))"

definition retire_machine_binding :: "machine_id \<Rightarrow> timestamp \<Rightarrow> state_machine \<Rightarrow> apply_result" where
  "retire_machine_binding m retired_at s =
     (case fmlookup (machine_bindings s) m of
        None \<Rightarrow> (s, Inl (UnknownMachineIdentity m))
      | Some b \<Rightarrow>
          (if mb_retired_at b = None
           then s\<lparr>machine_bindings := fmupd m (b\<lparr>mb_retired_at := Some retired_at\<rparr>) (machine_bindings s)\<rparr>
           else s, Inr []))"

definition record_enrolled_identity :: "machine_id \<Rightarrow> timestamp \<Rightarrow> state_machine \<Rightarrow> apply_result" where
  "record_enrolled_identity m t s =
     (s\<lparr>enrolled_identities := fm_or_insert m t (enrolled_identities s)\<rparr>, Inr [])"

definition mint_enroll_token :: "mint_enroll_token_cmd \<Rightarrow> state_machine \<Rightarrow> apply_result" where
  "mint_enroll_token c s =
     (if has_key (mt_token c) (enroll_tokens s) then (s, Inl (DuplicateEnrollToken (mt_token c)))
      else if mt_hash c = [] then (s, Inl (InvalidCommand EmptyTokenHash))
      else (s\<lparr>enroll_tokens := fmupd (mt_token c)
              \<lparr>et_hash = mt_hash c, et_role = mt_role c, et_label = mt_label c, et_expires_at = mt_expires_at c,
               et_minted_at = mt_minted_at c, et_revoked = False\<rparr> (enroll_tokens s)\<rparr>, Inr []))"

definition revoke_enroll_token :: "enroll_token_id \<Rightarrow> timestamp \<Rightarrow> state_machine \<Rightarrow> apply_result" where
  "revoke_enroll_token t revoked_at s =
     (case fmlookup (enroll_tokens s) t of
        None \<Rightarrow> (s, Inl (UnknownEnrollToken t))
      | Some tok \<Rightarrow> (s\<lparr>enroll_tokens := fmupd t (tok\<lparr>et_revoked := True\<rparr>) (enroll_tokens s)\<rparr>, Inr []))"

definition revoke_identity :: "revoked_identity \<Rightarrow> timestamp \<Rightarrow> state_machine \<Rightarrow> apply_result" where
  "revoke_identity i revoked_at s =
     (s\<lparr>revoked_identities := finsert i (revoked_identities s)\<rparr>, Inr [])"

end
