(* ===== verification/Apply.thy ===== *)
theory Apply
  imports Node_Handlers Pki_Handlers
begin

text \<open>
  The dispatcher \<open>StateMachine::apply\<close> of \<open>coppice-state/src/apply.rs\<close>, and the replay of a log of
  committed commands from the empty state.
\<close>

definition dispatch :: "externals \<Rightarrow> command \<Rightarrow> state_machine \<Rightarrow> apply_result" where
  "dispatch ext cmd s =
     (case cmd of
        SubmitJob c \<Rightarrow> submit_job c s
      | AbortJob c \<Rightarrow> abort_job c s
      | UpdateJobMetadata c \<Rightarrow> update_job_metadata c s
      | CommitPlacements c \<Rightarrow> commit_placements c s
      | DispatchAttempt a t \<Rightarrow> dispatch_attempt a t s
      | RecordAttemptStarted a t \<Rightarrow> record_attempt_started a t s
      | RecordAttemptExited a t \<Rightarrow> record_attempt_exited a t s
      | RecordAttemptOutcome c \<Rightarrow> record_attempt_outcome c s
      | ReconcileNode c \<Rightarrow> reconcile_node c s
      | RecordAttemptNotified c \<Rightarrow> record_attempt_notified c s
      | RegisterNode c \<Rightarrow> register_node c s
      | DeclareNodeLost n t \<Rightarrow> declare_node_lost n t s
      | SetNodeDrain c \<Rightarrow> set_node_drain c s
      | SetNodeDraining c \<Rightarrow> set_node_draining c s
      | EvictTerminalJobs js t \<Rightarrow> evict_terminal_jobs js t s
      | EvictNodes c \<Rightarrow> evict_nodes c s
      | RenewIntervalCharges rs t \<Rightarrow> renew_interval_charges rs t s
      | ConfigureQuotaEntity c \<Rightarrow> configure_quota_entity ext c s
      | UpdatePolicy c \<Rightarrow> update_policy c s
      | UpdateAuthorization c \<Rightarrow> update_authorization c s
      | BumpClusterVersion to actor t \<Rightarrow> bump_cluster_version to actor t s
      | RecordCaCertificate c \<Rightarrow> record_ca_certificate ext c s
      | BindMachineIdentity c \<Rightarrow> bind_machine_identity c s
      | MintEnrollToken c \<Rightarrow> mint_enroll_token c s
      | RevokeEnrollToken tok t \<Rightarrow> revoke_enroll_token tok t s
      | RevokeIdentity i t \<Rightarrow> revoke_identity i t s
      | ConfirmKeyPossession n t \<Rightarrow> confirm_key_possession n t s
      | RecordEnrolledIdentity m t \<Rightarrow> record_enrolled_identity m t s
      | RebindMachineAddress n addr t \<Rightarrow> rebind_machine_address n addr t s
      | RetireMachineBinding m t \<Rightarrow> retire_machine_binding m t s
      | RecordKeyTransferIntent n t \<Rightarrow> record_key_transfer_intent n t s
      | RecordStagedKeyTransferIntent n serial t \<Rightarrow> record_staged_key_transfer_intent n serial t s
      | ConfirmStagedKeyPossession n serial t \<Rightarrow> confirm_staged_key_possession n serial t s)"

definition apply_command :: "externals \<Rightarrow> command \<Rightarrow> state_machine \<Rightarrow> apply_result" where
  "apply_command ext cmd s =
     (let (s', result) = dispatch ext cmd s in (s'\<lparr>version := version s' + 1\<rparr>, result))"

definition run_log :: "externals \<Rightarrow> command list \<Rightarrow> state_machine \<Rightarrow> state_machine" where
  "run_log ext cmds s = fold (\<lambda>cmd s. fst (apply_command ext cmd s)) cmds s"

section \<open>A refused command leaves no trace\<close>

text \<open>
  A handler is atomic when a refusal returns the state it was given. The handlers are proved atomic
  one by one and the collection carries the dispatcher.
\<close>

definition atomic :: "(state_machine \<Rightarrow> apply_result) \<Rightarrow> bool" where
  "atomic h \<longleftrightarrow> (\<forall>s s' r. h s = (s', Inl r) \<longrightarrow> s' = s)"

named_theorems atomic_handlers

lemma atomicI: "(\<And>s s' r. h s = (s', Inl r) \<Longrightarrow> s' = s) \<Longrightarrow> atomic h"
  by (simp add: atomic_def)

lemma submit_job_atomic [atomic_handlers]: "atomic (submit_job c)"
  by (rule atomicI) (auto simp: submit_job_def submit_existing_def submit_fresh_def Let_def
      split: if_splits sum.splits option.splits)

lemma abort_job_atomic [atomic_handlers]: "atomic (abort_job c)"
  by (rule atomicI) (auto simp: abort_job_def split: if_splits sum.splits option.splits prod.splits)

lemma update_job_metadata_atomic [atomic_handlers]: "atomic (update_job_metadata c)"
  by (rule atomicI) (auto simp: update_job_metadata_def Let_def split: if_splits sum.splits option.splits)

lemma commit_placements_atomic [atomic_handlers]: "atomic (commit_placements c)"
  by (rule atomicI) (auto simp: commit_placements_def Let_def split: if_splits option.splits prod.splits)

lemma attempt_handlers_atomic [atomic_handlers]:
  "atomic (dispatch_attempt a t)" "atomic (record_attempt_started a t)" "atomic (record_attempt_exited a t)"
  "atomic (record_attempt_outcome oc)" "atomic (record_attempt_notified nc)" "atomic (reconcile_node rc)"
  by (rule atomicI; auto simp: dispatch_attempt_def record_attempt_started_def record_attempt_exited_def
      record_attempt_outcome_def record_attempt_notified_def reconcile_node_def Let_def
      split: if_splits option.splits prod.splits)+

lemma node_handlers_atomic [atomic_handlers]:
  "atomic (register_node rg)" "atomic (declare_node_lost n t)" "atomic (set_node_drain sd)"
  "atomic (set_node_draining sg)" "atomic (evict_terminal_jobs js t)" "atomic (evict_nodes en)"
  "atomic (renew_interval_charges rs t)"
  by (rule atomicI; auto simp: register_node_def declare_node_lost_def set_node_drain_def
      set_node_draining_def evict_terminal_jobs_def evict_nodes_def renew_interval_charges_def Let_def
      split: if_splits option.splits prod.splits sum.splits)+

lemma admin_handlers_atomic [atomic_handlers]:
  "atomic (configure_quota_entity ext cq)" "atomic (update_policy up)" "atomic (update_authorization ua)"
  "atomic (bump_cluster_version v actor t)"
  by (rule atomicI; auto simp: configure_quota_entity_def configure_existing_def configure_new_def
      update_policy_def update_authorization_def bump_cluster_version_def Let_def
      split: if_splits option.splits sum.splits)+

lemma pki_handlers_atomic [atomic_handlers]:
  "atomic (record_ca_certificate ext rca)" "atomic (bind_machine_identity bm)" "atomic (mint_enroll_token mt)"
  "atomic (revoke_enroll_token tok t)" "atomic (revoke_identity i t)" "atomic (confirm_key_possession n t)"
  "atomic (record_enrolled_identity m t)" "atomic (rebind_machine_address n addr t)"
  "atomic (retire_machine_binding m t)" "atomic (record_key_transfer_intent n t)"
  "atomic (record_staged_key_transfer_intent n serial t)" "atomic (confirm_staged_key_possession n serial t)"
  by (rule atomicI; auto simp: record_ca_certificate_def bind_machine_identity_def mint_enroll_token_def
      revoke_enroll_token_def revoke_identity_def confirm_key_possession_def record_enrolled_identity_def
      rebind_machine_address_def retire_machine_binding_def record_key_transfer_intent_def
      record_staged_key_transfer_intent_def confirm_staged_key_possession_def Let_def
      split: if_splits option.splits sum.splits)+

lemma dispatch_atomic: "atomic (dispatch ext cmd)"
  using atomic_handlers by (cases cmd) (simp_all add: dispatch_def [abs_def])

end
