(* ===== verification/Core_Handlers.thy ===== *)
theory Core_Handlers
  imports Progress Apply
begin

text \<open>
  Every handler but the batch of placements keeps the invariant of the core, never funds beyond
  capacity, and emits events the observer can replay. A handler with these three properties is a
  \<open>keeps\<close> handler; the collection \<open>core_handlers\<close> holds the facts for the dispatcher.
\<close>

definition keeps :: "(state_machine \<Rightarrow> apply_result) \<Rightarrow> bool" where
  "keeps h \<longleftrightarrow> (\<forall>s s' evs. sound s \<longrightarrow> h s = (s', Inr evs) \<longrightarrow>
     sound s' \<and> next_allocation_seq s' = next_allocation_seq s \<and> no_oversell s s' \<and>
     replay evs (states_of (jobs s)) = Some (states_of (jobs s')))"

named_theorems core_handlers

lemma keepsI:
  "(\<And>s s' evs. sound s \<Longrightarrow> h s = (s', Inr evs) \<Longrightarrow>
     sound s' \<and> next_allocation_seq s' = next_allocation_seq s \<and> no_oversell s s' \<and>
     replay evs (states_of (jobs s)) = Some (states_of (jobs s'))) \<Longrightarrow> keeps h"
  unfolding keeps_def by blast

lemma keeps_progressI:
  "(\<And>s s' evs. sound s \<Longrightarrow> h s = (s', Inr evs) \<Longrightarrow> progress {} {} s (s', evs)) \<Longrightarrow> keeps h"
proof (rule keepsI)
  fix s s' evs assume p: "\<And>s s' evs. sound s \<Longrightarrow> h s = (s', Inr evs) \<Longrightarrow> progress {} {} s (s', evs)"
    and "sound s" "h s = (s', Inr evs)"
  then have "progress {} {} s (s', evs)" by blast
  then show "sound s' \<and> next_allocation_seq s' = next_allocation_seq s \<and> no_oversell s s' \<and>
      replay evs (states_of (jobs s)) = Some (states_of (jobs s'))"
    using core_frameD(3) [of s s'] by (simp add: progress_def sound_def)
qed

section \<open>Handlers outside the core\<close>

fun quiet :: "event \<Rightarrow> bool" where
  "quiet (JobSubmitted _) = False"
| "quiet (JobStateChanged _ _ _) = False"
| "quiet (JobEvicted _ _) = False"
| "quiet _ = True"

lemma replay_quiet: "list_all quiet evs \<Longrightarrow> replay evs m = Some m"
proof (induction evs arbitrary: m)
  case (Cons e evs)
  then show ?case by (cases e) simp_all
qed simp

definition same_core :: "state_machine \<Rightarrow> state_machine \<Rightarrow> bool" where
  "same_core s s' \<longleftrightarrow> jobs s' = jobs s \<and> attempts s' = attempts s \<and> allocations s' = allocations s \<and>
     accrual_queue s' = accrual_queue s \<and> next_allocation_seq s' = next_allocation_seq s"

lemma core_nodes_change:
  assumes "core N s" "same_core s s'" "\<And>n d. n \<notin> N \<Longrightarrow> cap_of s' n d = cap_of s n d"
    "\<And>n. has_key n (nodes s) \<Longrightarrow> has_key n (nodes s')"
  shows "core N s'"
  using assms by (simp add: core_def pools_def same_core_def pool_ok_def seqs_below_def live_nodes_def no_idle_def)

lemma sound_nodes_change:
  assumes s: "sound s" and sc: "same_core s s'" "\<And>n d. cap_of s' n d = cap_of s n d"
    "\<And>n. has_key n (nodes s) \<Longrightarrow> has_key n (nodes s')"
  shows "sound s'"
proof -
  have "core {} s'" using sc by (intro core_nodes_change [OF soundD(1) [OF s]]) simp_all
  then show ?thesis using s sc(1) by (simp add: sound_def same_core_def)
qed

lemma keeps_outside:
  assumes "\<And>s s' evs. h s = (s', Inr evs) \<Longrightarrow> same_core s s' \<and> nodes s' = nodes s \<and> list_all quiet evs"
  shows "keeps h"
proof (rule keepsI)
  fix s s' evs assume sd: "sound s" and h: "h s = (s', Inr evs)"
  note c = soundD(1) [OF sd]
  from h have sc: "same_core s s'" "nodes s' = nodes s" and q: "list_all quiet evs" using assms by blast+
  then have cap: "cap_of s' = cap_of s" by (simp add: cap_of_def fun_eq_iff)
  have "sound s'" using sc cap by (intro sound_nodes_change [OF sd]) simp_all
  then show "sound s' \<and> next_allocation_seq s' = next_allocation_seq s \<and> no_oversell s s' \<and>
      replay evs (states_of (jobs s)) = Some (states_of (jobs s'))"
    using sc q by (simp add: no_oversell_def same_core_def replay_quiet)
qed

lemma admin_keeps [core_handlers]:
  "keeps (configure_quota_entity ext cq)" "keeps (update_policy up)" "keeps (update_authorization ua)"
  "keeps (bump_cluster_version v actor t)"
  by (rule keeps_outside; auto simp: configure_quota_entity_def configure_existing_def configure_new_def
      update_policy_def update_authorization_def bump_cluster_version_def Let_def same_core_def
      split: if_splits option.splits sum.splits)+

lemma same_core_refl [simp]: "same_core s s"
  by (simp add: same_core_def)

lemma same_core_fold:
  "(\<And>x s. same_core s (f x s) \<and> nodes (f x s) = nodes s) \<Longrightarrow> same_core s (fold f xs s) \<and> nodes (fold f xs s) = nodes s"
proof (induction xs arbitrary: s)
  case (Cons x xs)
  have "same_core (f x s) (fold f xs (f x s)) \<and> nodes (fold f xs (f x s)) = nodes (f x s)"
    using Cons by blast
  moreover have "same_core s (f x s) \<and> nodes (f x s) = nodes s" using Cons.prems by blast
  ultimately show ?case by (simp add: same_core_def)
qed simp

lemma activate_staged_same: "same_core s (activate_staged serials s) \<and> nodes (activate_staged serials s) = nodes s"
proof (cases "staged_root s")
  case (Some r)
  let ?s = "s\<lparr>staged_root := None\<rparr>"
  have 1: "same_core ?s (fold graduate_holder xs ?s) \<and> nodes (fold graduate_holder xs ?s) = nodes ?s" for xs
    by (rule same_core_fold) (simp add: same_core_def graduate_holder_def split: prod.split)
  have 2: "same_core u (fold graduate_intent xs u) \<and> nodes (fold graduate_intent xs u) = nodes u" for xs u
    by (rule same_core_fold) (simp add: same_core_def graduate_intent_def split: prod.split)
  let ?u = "fold graduate_holder (entries (sr_holders r)) ?s"
  show ?thesis using 1 [of "entries (sr_holders r)"] 2 [of ?u "entries (sr_intents r)"] Some
    by (cases "case serials of [] \<Rightarrow> False | serial # _ \<Rightarrow> serial = sr_serial r")
      (simp_all add: activate_staged_def same_core_def)
qed (simp add: activate_staged_def)

lemma record_ca_keeps [core_handlers]: "keeps (record_ca_certificate ext rca)"
proof (rule keeps_outside)
  fix s s' evs assume h: "record_ca_certificate ext rca s = (s', Inr evs)"
  have st: "same_core s (stage_root serial t s) \<and> nodes (stage_root serial t s) = nodes s" for serial t
    by (simp add: stage_root_def same_core_def split: prod.split)
  show "same_core s s' \<and> nodes s' = nodes s \<and> list_all quiet evs"
  proof (cases "rca_staged_root_serial rca")
    case None
    then show ?thesis using h activate_staged_same [of s "bundle_serials ext (rca_bundle rca)"]
      by (auto simp: record_ca_certificate_def same_core_def)
  next
    case (Some serial)
    then show ?thesis using h st [of serial "rca_recorded_at rca"]
      by (auto simp: record_ca_certificate_def same_core_def Let_def split: if_splits)
  qed
qed

lemma pki_keeps [core_handlers]:
  "keeps (bind_machine_identity bm)" "keeps (mint_enroll_token mt)"
  "keeps (revoke_enroll_token tok t)" "keeps (revoke_identity i t)" "keeps (confirm_key_possession n t)"
  "keeps (record_enrolled_identity m t)" "keeps (rebind_machine_address n addr t)"
  "keeps (retire_machine_binding m t)" "keeps (record_key_transfer_intent n t)"
  "keeps (record_staged_key_transfer_intent n serial t)" "keeps (confirm_staged_key_possession n serial t)"
  by (rule keeps_outside; auto simp: bind_machine_identity_def mint_enroll_token_def
      revoke_enroll_token_def revoke_identity_def confirm_key_possession_def record_enrolled_identity_def
      rebind_machine_address_def retire_machine_binding_def record_key_transfer_intent_def
      record_staged_key_transfer_intent_def confirm_staged_key_possession_def Let_def same_core_def
      split: if_splits option.splits sum.splits)+

section \<open>Attempts\<close>

lemma progress_quiet:
  assumes p: "progress J N s0 (s, evs)" and c: "core N s'" "core_frame s s'" "no_oversell s s'"
    and ab: "aborts_ok J (jobs s') (attempts s')" and js: "states_of (jobs s') = states_of (jobs s)" and new: "list_all quiet new"
  shows "progress J N s0 (s', evs @ new)"
proof (rule progress_step [OF p c ab])
  show "core_events (evs @ new) = core_events evs @ core_events new" by simp
  show "replay (core_events new) (states_of (jobs s)) = Some (states_of (jobs s'))"
    using js new by (simp add: replay_core_events replay_quiet)
qed

lemma progress_attempt:
  assumes p: "progress J N s0 (s, evs)" and r: "fmlookup (attempts s) a = Some r" and same: "same_attempt r r'"
    and ok: "attempt_ok r'" and live: "\<not> attempt_terminal (astate r)" "\<not> attempt_terminal (astate r')"
    and st: "alloc_state_for (astate r') = alloc_state_for (astate r)" "on_node (astate r) \<longrightarrow> on_node (astate r')"
    and new: "list_all quiet new"
  shows "progress J N s0 (s\<lparr>attempts := fmupd a r' (attempts s)\<rparr>, evs @ new)"
proof -
  have c: "core N s" using progress_core [OF p] by simp
  show ?thesis
    using new aborts_upd [OF _ r st(2)] progress_aborts [OF p]
    by (intro progress_quiet [OF p core_step_attempt [OF c r same ok live st(1)]])
      (simp_all add: core_frame_def no_oversell_def)
qed

lemma core_attempt_ok: "core N s \<Longrightarrow> fmlookup (attempts s) a = Some r \<Longrightarrow> attempt_ok r"
  using core_attempts by (auto simp: attempts_ok_def)

lemma core_attempt_link: "core N s \<Longrightarrow> fmlookup (attempts s) a = Some r \<Longrightarrow> attempt_link (jobs s) a r"
  using core_link by (auto simp: job_link_def)

lemma progress_running:
  assumes p: "progress J N s0 (s, evs)" and r: "fmlookup (attempts s) a = Some r" "astate r = Dispatching"
  shows "progress J N s0 (mark_attempt_running a t (s, evs))"
proof -
  have c: "core N s" using progress_core [OF p] by simp
  have ok: "attempt_ok r" using core_attempt_ok [OF c r(1)] .
  then have st: "atr_started_at r = None" using r(2) by (simp add: attempt_ok_def)
  obtain al where al: "fmlookup (allocations s) (aalloc r) = Some al" "kstate al = alloc_state_for (astate r)"
    using pool_attempt_alloc [OF core_pool [OF c] r(1)] by auto
  let ?r = "set_attempt_state Running (r\<lparr>atr_started_at := Some t\<rparr>)"
  let ?al = "set_allocation_state (alloc_state_for (astate ?r)) al"
  let ?s = "s\<lparr>attempts := fmupd a ?r (attempts s), allocations := fmupd (aalloc r) ?al (allocations s)\<rparr>"
  have eq: "mark_attempt_running a t (s, evs) = (?s, evs @ [AttemptStateChanged a (ajob r) (att_node (atr_attempt r)) Running])"
    using r st al by (simp add: set_attempt_state_def fmmodify_Some)
  have "core N ?s"
    using ok r(2) by (intro core_step [OF c r(1) al(1)])
      (auto simp: attempt_ok_def same_attempt_def set_attempt_state_def)
  moreover have "hold n d ?al = hold n d al" for n d using al(2) r(2) by (simp add: hold_def live_allocation_def)
  then have "no_oversell s ?s" using held_same [OF al(1)] by (simp add: no_oversell_def)
  ultimately show ?thesis
    unfolding eq using progress_aborts [OF p] aborts_upd [OF _ r(1), of J "jobs s" ?r]
    by (intro progress_quiet [OF p]) (simp_all add: core_frame_def)
qed

lemma dispatch_attempt_keeps [core_handlers]: "keeps (dispatch_attempt a t)"
proof (rule keeps_progressI)
  fix s s' evs assume sd: "sound s" and h: "dispatch_attempt a t s = (s', Inr evs)"
  note c = soundD(1) [OF sd]
  from h obtain r where r: "fmlookup (attempts s) a = Some r" "astate r = Ready"
    by (auto simp: dispatch_attempt_def split: option.splits if_splits)
  have "progress {} {} s (s\<lparr>attempts := fmupd a (set_attempt_state Dispatching r) (attempts s)\<rparr>,
      [] @ [AttemptStateChanged a (ajob r) (att_node (atr_attempt r)) Dispatching])"
    using r core_attempt_ok [OF c r(1)] by (intro progress_attempt [OF soundD(2) [OF sd] r(1)])
      (auto simp: attempt_ok_def set_attempt_state_def same_attempt_def)
  then show "progress {} {} s (s', evs)" using h r by (simp add: dispatch_attempt_def)
qed

lemma record_attempt_exited_keeps [core_handlers]: "keeps (record_attempt_exited a t)"
proof (rule keeps_progressI)
  fix s s' evs assume sd: "sound s" and h: "record_attempt_exited a t s = (s', Inr evs)"
  note c = soundD(1) [OF sd]
  from h obtain r where r: "fmlookup (attempts s) a = Some r" "astate r = Running"
    by (auto simp: record_attempt_exited_def split: option.splits if_splits)
  have "progress {} {} s (s\<lparr>attempts := fmupd a (set_attempt_state Finalizing r) (attempts s)\<rparr>,
      [] @ [AttemptStateChanged a (ajob r) (att_node (atr_attempt r)) Finalizing])"
    using r core_attempt_ok [OF c r(1)] by (intro progress_attempt [OF soundD(2) [OF sd] r(1)])
      (auto simp: attempt_ok_def set_attempt_state_def same_attempt_def)
  then show "progress {} {} s (s', evs)" using h r by (simp add: record_attempt_exited_def)
qed

lemma record_attempt_started_keeps [core_handlers]: "keeps (record_attempt_started a t)"
proof (rule keeps_progressI)
  fix s s' evs assume sd: "sound s" and h: "record_attempt_started a t s = (s', Inr evs)"
  note c = soundD(1) [OF sd]
  from h obtain r where r: "fmlookup (attempts s) a = Some r" "astate r = Dispatching"
    by (auto simp: record_attempt_started_def split: option.splits if_splits)
  then show "progress {} {} s (s', evs)"
    using h progress_running [OF soundD(2) [OF sd] r, of t]
    by (auto simp: record_attempt_started_def case_prod_unfold Let_def simp del: mark_attempt_running.simps)
qed

lemma record_attempt_notified_keeps [core_handlers]: "keeps (record_attempt_notified nc)"
proof (rule keeps_progressI)
  fix s s' evs assume sd: "sound s" and h: "record_attempt_notified nc s = (s', Inr evs)"
  note c = soundD(1) [OF sd]
  from h obtain r where r: "fmlookup (attempts s) (rn_attempt nc) = Some r" "astate r = Running"
    by (auto simp: record_attempt_notified_def split: option.splits if_splits)
  have "progress {} {} s (s\<lparr>attempts := fmupd (rn_attempt nc) (r\<lparr>atr_preemption := Some p\<rparr>) (attempts s)\<rparr>,
      [] @ [AttemptNotified (rn_attempt nc) (ajob r) (att_node (atr_attempt r))])" for p
    using r core_attempt_ok [OF c r(1)] by (intro progress_attempt [OF soundD(2) [OF sd] r(1)])
      (auto simp: attempt_ok_def same_attempt_def)
  then show "progress {} {} s (s', evs)"
    using h r soundD(2) [OF sd] by (auto simp: record_attempt_notified_def split: option.splits)
qed

lemma progress_fold:
  "(\<And>x eff. progress J N s0 eff \<Longrightarrow> progress J N s0 (f x eff)) \<Longrightarrow> progress J N s0 eff \<Longrightarrow> progress J N s0 (fold f xs eff)"
  by (induction xs arbitrary: eff) simp_all

lemma progress_terminate:
  assumes "progress J N s0 eff"
  shows "progress J N s0 (fst (terminate_attempt a outcome rt t True None eff))"
proof -
  obtain s evs where eff: "eff = (s, evs)" by (cases eff)
  show ?thesis
    using terminate_progress [OF assms [unfolded eff], of None a True outcome rt t] eff
    by (cases "terminate_attempt a outcome rt t True None (s, evs)") simp
qed

lemma record_attempt_outcome_keeps [core_handlers]: "keeps (record_attempt_outcome oc)"
proof (rule keeps_progressI)
  fix s s' evs assume sd: "sound s" and h: "record_attempt_outcome oc s = (s', Inr evs)"
  note c = soundD(1) [OF sd]
  from h have "(s', evs) = fst (terminate_attempt (ro_attempt oc) (ro_outcome oc) (ro_actual_runtime oc)
      (ro_observed_at oc) True None (s, []))"
    by (auto simp: record_attempt_outcome_def Let_def case_prod_unfold simp del: terminate_attempt.simps
        split: option.splits if_splits)
  then show "progress {} {} s (s', evs)" using progress_terminate [OF soundD(2) [OF sd]] by simp
qed

lemma progress_adopt: "progress J N s0 eff \<Longrightarrow> progress J N s0 (adopt t a eff)"
  using progress_running [of J N s0 "fst eff" "snd eff" a _ t]
  by (simp add: adopt_def del: mark_attempt_running.simps split: option.split)

lemma progress_lose: "progress J N s0 eff \<Longrightarrow> progress J N s0 (lose t l eff)"
  using progress_terminate [of J N s0 eff]
  by (simp add: lose_def del: terminate_attempt.simps split: option.split)

lemma reconcile_node_keeps [core_handlers]: "keeps (reconcile_node rc)"
proof (rule keeps_progressI)
  fix s s' evs assume sd: "sound s" and h: "reconcile_node rc s = (s', Inr evs)"
  note c = soundD(1) [OF sd]
  from h have "(s', evs) = fold (lose (rc_observed_at rc)) (rc_lost rc)
      (fold (adopt (rc_observed_at rc)) (rc_adopted rc) (s, []))"
    by (auto simp: reconcile_node_def Let_def case_prod_unfold split: option.splits if_splits)
  then show "progress {} {} s (s', evs)"
    using progress_fold [OF progress_lose progress_fold [OF progress_adopt soundD(2) [OF sd]]] by simp
qed

lemma progress_quota:
  assumes p: "progress J N s0 (s, evs)"
  shows "progress J N s0 (s\<lparr>quota_entities := es\<rparr>, evs)"
proof -
  have "core N (s\<lparr>quota_entities := es\<rparr>)"
    using core_cong [of "s\<lparr>quota_entities := es\<rparr>" s] progress_core [OF p] by simp
  then show ?thesis
    using progress_quiet [OF p, of "s\<lparr>quota_entities := es\<rparr>" "[]"] progress_aborts [OF p] by (simp add: no_oversell_def core_frame_def)
qed

lemma progress_renew: "progress J N s0 (s, evs) \<Longrightarrow> progress J N s0 (renew_one t x s, evs)"
proof -
  assume p: "progress J N s0 (s, evs)"
  have c: "core N s" using progress_core [OF p] by simp
  have upd: "progress J N s0 (s\<lparr>attempts := fmupd (ir_attempt x) (r\<lparr>atr_charge := ch\<rparr>) (attempts s)\<rparr>, evs)"
    if r: "fmlookup (attempts s) (ir_attempt x) = Some r" "astate r = Running" for r ch
    using r core_attempt_ok [OF c r(1)]
      progress_attempt [OF p r(1), of "r\<lparr>atr_charge := ch\<rparr>" "[]"]
    by (auto simp: attempt_ok_def same_attempt_def)
  have upd': "progress J N s0 (charge_ancestors e amount t
      (s\<lparr>attempts := fmupd (ir_attempt x) (r\<lparr>atr_charge := ch\<rparr>) (attempts s)\<rparr>), evs)"
    if r: "fmlookup (attempts s) (ir_attempt x) = Some r" "astate r = Running" for r ch e amount
    unfolding charge_ancestors_def by (rule progress_quota [OF upd [OF r]])
  show ?thesis
    using p upd upd' by (simp add: renew_one_def Let_def split: option.split)
qed

lemma renew_interval_charges_keeps [core_handlers]: "keeps (renew_interval_charges rs t)"
proof (rule keeps_progressI)
  fix s s' evs assume sd: "sound s" and h: "renew_interval_charges rs t s = (s', Inr evs)"
  note c = soundD(1) [OF sd]
  have "progress {} {} s (u, []) \<Longrightarrow> progress {} {} s (fold (renew_one t) xs u, [])" for xs u
    by (induction xs arbitrary: u) (simp_all add: progress_renew)
  then show "progress {} {} s (s', evs)"
    using h soundD(2) [OF sd] by (auto simp: renew_interval_charges_def Let_def split: if_splits)
qed

section \<open>Jobs\<close>

lemma core_jobs: "core N s \<Longrightarrow> job_link js (attempts s) \<Longrightarrow> core N (s\<lparr>jobs := js\<rparr>)"
  using pools_cong [of "s\<lparr>jobs := js\<rparr>" s N] by (simp add: core_def)

lemma job_link_upd:
  assumes l: "job_link js ats" and r: "fmlookup js j = Some r" and ok: "job_ok j r' ats"
    and same: "jr_attempts r' = jr_attempts r" "\<And>a. jr_state r' = Attempting a \<longleftrightarrow> jr_state r = Attempting a"
  shows "job_link (fmupd j r' js) ats"
  unfolding job_link_def
proof (intro conjI allI impI)
  fix i ir assume "fmlookup (fmupd j r' js) i = Some ir"
  then show "job_ok i ir ats" using l ok by (cases "i = j") (simp_all add: job_link_def)
next
  fix a ar assume "fmlookup ats a = Some ar"
  then have "attempt_link js a ar" using l by (simp add: job_link_def)
  then show "attempt_link (fmupd j r' js) a ar"
    using r same by (cases "ajob ar = j") (simp_all add: attempt_link_def)
qed

lemma job_link_new:
  assumes l: "job_link js ats" and r: "fmlookup js j = None" and ok: "job_ok j r ats"
  shows "job_link (fmupd j r js) ats"
  unfolding job_link_def
proof (intro conjI allI impI)
  fix i ir assume "fmlookup (fmupd j r js) i = Some ir"
  then show "job_ok i ir ats" using l ok by (cases "i = j") (simp_all add: job_link_def)
next
  fix a ar assume "fmlookup ats a = Some ar"
  then have "attempt_link js a ar" using l by (simp add: job_link_def)
  then show "attempt_link (fmupd j r js) a ar" using r by (auto simp: attempt_link_def)
qed

lemma core_job_ok: "core N s \<Longrightarrow> fmlookup (jobs s) j = Some r \<Longrightarrow> job_ok j r (attempts s)"
  using core_link by (auto simp: job_link_def)

lemma submit_job_keeps [core_handlers]: "keeps (submit_job sj)"
proof (rule keeps_progressI)
  fix s s' evs assume sd: "sound s" and h: "submit_job sj s = (s', Inr evs)"
  note c = soundD(1) [OF sd]
  show "progress {} {} s (s', evs)"
  proof (cases "fmlookup (jobs s) (j_id (sj_job sj))")
    case (Some existing)
    then have "s' = s \<and> evs = []"
      using h by (auto simp: submit_job_def submit_existing_def Let_def split: if_splits sum.splits)
    then show ?thesis using soundD(2) [OF sd] by simp
  next
    case None
    let ?j = "j_id (sj_job sj)"
    obtain r where r: "s' = s\<lparr>jobs := fmupd ?j r (jobs s)\<rparr>"
      "evs = [JobSubmitted ?j, JobStateChanged ?j Submitted Accepted, JobStateChanged ?j Accepted Queued]"
      "jr_state r = Queued" "jr_terminal_at r = None" "jr_retries_used r = 0" "jr_attempts r = []" "j_id (jr_spec r) = ?j"
      "j_abort_requested (jr_spec r) = None"
      using h None by (auto simp: submit_job_def submit_fresh_def with_notice_def Let_def
          split: if_splits sum.splits option.splits)
    have "job_ok ?j r (attempts s)" using r by (simp add: job_ok_def)
    then have "core {} s'" using core_jobs [OF c job_link_new [OF core_link [OF c] None]] r(1) by simp
    moreover have "replay evs (states_of (jobs s)) = Some (states_of (jobs s'))" using r None by simp
    moreover have "aborts_ok {} (jobs s') (attempts s')"
      using sd r aborts_job [of "{}" "jobs s" "attempts s" r ?j "{}"] by (simp add: sound_def)
    ultimately show ?thesis using r(1) by (simp add: progress_def core_frame_def no_oversell_def)
  qed
qed

lemma progress_job:
  assumes p: "progress J N s0 (s, evs)" and r: "fmlookup (jobs s) j = Some r" and ok: "job_ok j r' (attempts s)"
    and same: "jr_attempts r' = jr_attempts r" "jr_state r' = jr_state r" and new: "list_all quiet new"
    and ab: "aborts_ok J' (fmupd j r' (jobs s)) (attempts s)"
  shows "progress J' N s0 (s\<lparr>jobs := fmupd j r' (jobs s)\<rparr>, evs @ new)"
proof -
  have c: "core N s" using progress_core [OF p] by simp
  have c': "core N (s\<lparr>jobs := fmupd j r' (jobs s)\<rparr>)"
    using same by (intro core_jobs [OF c] job_link_upd [OF core_link [OF c] r ok]) simp_all
  show ?thesis
  proof (rule progress_step [OF p c'])
    show "core_events (evs @ new) = core_events evs @ core_events new" by simp
    show "replay (core_events new) (states_of (jobs s)) = Some (states_of (jobs (s\<lparr>jobs := fmupd j r' (jobs s)\<rparr>)))"
      using same new states_of_same [OF r, of r'] by (simp add: replay_core_events replay_quiet del: states_of_upd)
  qed (use ab in \<open>simp_all add: core_frame_def no_oversell_def\<close>)
qed

lemma update_job_metadata_keeps [core_handlers]: "keeps (update_job_metadata um)"
proof (rule keeps_progressI)
  fix s s' evs assume sd: "sound s" and h: "update_job_metadata um s = (s', Inr evs)"
  note c = soundD(1) [OF sd]
  from h obtain r where r: "fmlookup (jobs s) (um_job um) = Some r"
    by (auto simp: update_job_metadata_def split: option.splits)
  have "progress {} {} s (s\<lparr>jobs := fmupd (um_job um) (r\<lparr>jr_spec := (jr_spec r)\<lparr>j_metadata := m\<rparr>\<rparr>) (jobs s)\<rparr>,
      [] @ [JobMetadataUpdated (um_job um) m'])" for m m'
    using core_job_ok [OF c r] sd
      aborts_job [of "{}" "jobs s" "attempts s" "r\<lparr>jr_spec := (jr_spec r)\<lparr>j_metadata := m\<rparr>\<rparr>" "um_job um" "{}"] r
    by (intro progress_job [OF soundD(2) [OF sd] r]) (simp_all add: job_ok_def sound_def aborts_ok_def)
  then show "progress {} {} s (s', evs)"
    using h r soundD(2) [OF sd] by (auto simp: update_job_metadata_def Let_def split: sum.splits if_splits)
qed

lemma flag_abort_simps [simp]:
  "jr_state (flag_abort c r) = jr_state r" "jr_attempts (flag_abort c r) = jr_attempts r"
  "job_ok j (flag_abort c r) ats = job_ok j r ats" "jr_terminal_at (flag_abort c r) = jr_terminal_at r"
  by (simp_all add: flag_abort_def job_ok_def)

lemma progress_abort_queued:
  assumes p: "progress {j} N s0 (s, evs)" and r: "fmlookup (jobs s) j = Some r" "jr_state r = Queued"
  shows "progress {} N s0 (job_terminal_transition j JobAborted t (s, evs))"
proof -
  let ?r = "r\<lparr>jr_terminal_at := Some t, jr_state := JobAborted\<rparr>"
  have c: "core N s" using progress_core [OF p] by simp
  have ok: "job_ok j r (attempts s)" using core_job_ok [OF c r(1)] .
  then have "jr_terminal_at r = None" using r(2) by (auto simp: job_ok_def)
  then have eq: "job_terminal_transition j JobAborted t (s, evs) =
      (s\<lparr>jobs := fmupd j ?r (jobs s)\<rparr>, evs @ [JobStateChanged j Queued JobAborted])"
    using r by (simp add: fmmodify_Some)
  have "job_ok j ?r (attempts s)" using ok r(2) by (simp add: job_ok_def)
  then have c': "core N (s\<lparr>jobs := fmupd j ?r (jobs s)\<rparr>)"
    using r(2) by (intro core_jobs [OF c] job_link_upd [OF core_link [OF c] r(1)]) simp_all
  show ?thesis
    unfolding eq using r aborts_job [of "{j}" "jobs s" "attempts s" ?r j "{}"] progress_aborts [OF p]
    by (intro progress_step [OF p c', of _ _ "[JobStateChanged j Queued JobAborted]"])
      (simp_all add: core_frame_def no_oversell_def)
qed

lemma abort_job_keeps [core_handlers]: "keeps (abort_job aj)"
proof (rule keeps_progressI)
  fix s s' evs assume sd: "sound s" and h: "abort_job aj s = (s', Inr evs)"
  note c = soundD(1) [OF sd]
  let ?j = "aj_job aj"
  from h obtain r where r: "fmlookup (jobs s) ?j = Some r" "\<not> job_terminal (jr_state r)"
    and eff: "(s', evs) = abort_effects aj (jr_state r) s"
    by (auto simp: abort_job_def split: option.splits if_splits sum.splits prod.splits)
  define s1 where "s1 = s\<lparr>jobs := fmupd ?j (flag_abort aj r) (jobs s)\<rparr>"
  have ok: "job_ok ?j r (attempts s)" using core_job_ok [OF c r(1)] .
  have p1: "progress J {} s (s1, [] @ new)"
    if "list_all quiet new" "aborts_ok J (fmupd ?j (flag_abort aj r) (jobs s)) (attempts s)" for new J
    unfolding s1_def using ok that by (intro progress_job [OF soundD(2) [OF sd] r(1)]) simp_all
  have pj: "progress {?j} {} s (s1, [])"
    using p1 [of "[]" "{?j}"] sd aborts_job [of "{}" "jobs s" "attempts s" "flag_abort aj r" ?j "{?j}"] by (simp add: sound_def)
  have j1: "fmlookup (jobs s1) ?j = Some (flag_abort aj r)" by (simp add: s1_def)
  have st: "jr_state r \<noteq> Submitted" "jr_state r \<noteq> Accepted" using ok by (simp_all add: job_ok_def)
  note eff = eff [unfolded abort_effects_def fmmodify_Some [OF r(1)] Let_def, folded s1_def]
  show "progress {} {} s (s', evs)"
  proof (cases "jr_state r")
    case Queued
    then show ?thesis using eff progress_abort_queued [OF pj j1] by simp
  next
    case (Attempting a)
    obtain ar where ar: "fmlookup (attempts s) a = Some ar" "ajob ar = ?j"
      using ok Attempting by (auto simp: job_ok_def)
    then have live: "\<not> attempt_terminal (astate ar)"
      using core_attempt_link [OF c ar(1)] Attempting r(1) by (simp add: attempt_link_def)
    have a1: "fmlookup (attempts s1) a = Some ar" using ar by (simp add: s1_def)
    show ?thesis
    proof (cases "on_node (astate ar)")
      case True
      then have "aborts_ok {} (fmupd ?j (flag_abort aj r) (jobs s)) (attempts s)"
        using sd Attempting ar(1) by (intro aborts_job [of "{}"]) (simp_all add: sound_def)
      then have "progress {} {} s (s1, [])" "progress {} {} s (s1, [StopRequested x y z])" for x y z
        using p1 [of "[]"] p1 [of "[StopRequested x y z]"] by simp_all
      then show ?thesis using eff a1 Attempting True by (cases "astate ar") auto
    next
      case False
      have "progress {} {} s (fst (terminate_attempt a OutcomeAborted dur_zero (aj_requested_at aj) True None (s1, [])))"
        using terminate_live_progress [OF pj _ a1 live, of None True "{}"] ar(2)
        by (cases "terminate_attempt a OutcomeAborted dur_zero (aj_requested_at aj) True None (s1, [])") simp
      then show ?thesis using eff a1 Attempting False live
        by (cases "astate ar") (simp_all del: terminate_attempt.simps)
    qed
  qed (use r(2) st in simp_all)
qed

end
