(* ===== verification/Core_Nodes.thy ===== *)
theory Core_Nodes
  imports Core_Handlers
begin

text \<open>
  Node lifecycle and housekeeping keep the core: registration ends with a pledge pass on the node,
  a lost node loses every attempt it hosted, and evictions remove only what no live record refers to.
\<close>

section \<open>Drains and registration\<close>

lemma keeps_nodes:
  assumes "\<And>s s' evs. h s = (s', Inr evs) \<Longrightarrow> same_core s s' \<and> cap_of s' = cap_of s \<and>
    (\<forall>n. has_key n (nodes s) \<longrightarrow> has_key n (nodes s')) \<and> list_all quiet evs"
  shows "keeps h"
proof (rule keepsI)
  fix s s' evs assume sd: "sound s" and h: "h s = (s', Inr evs)"
  note c = soundD(1) [OF sd]
  from h have sc: "same_core s s'" "cap_of s' = cap_of s" "\<forall>n. has_key n (nodes s) \<longrightarrow> has_key n (nodes s')"
    and q: "list_all quiet evs" using assms by blast+
  have "sound s'" using sc by (intro sound_nodes_change [OF sd]) simp_all
  then show "sound s' \<and> next_allocation_seq s' = next_allocation_seq s \<and> no_oversell s s' \<and>
      replay evs (states_of (jobs s)) = Some (states_of (jobs s'))"
    using sc q by (simp add: no_oversell_def same_core_def replay_quiet)
qed

lemma cap_of_upd:
  "cap_of (s\<lparr>nodes := fmupd n r (nodes s)\<rparr>) m d = (if m = n then rget d (nd_capacity (nr_node r)) else cap_of s m d)"
  by (simp add: cap_of_def)

lemma cap_of_same:
  "fmlookup (nodes s) n = Some r \<Longrightarrow> nd_capacity (nr_node r') = nd_capacity (nr_node r) \<Longrightarrow>
     cap_of (s\<lparr>nodes := fmupd n r' (nodes s)\<rparr>) = cap_of s"
  by (simp add: fun_eq_iff cap_of_def)

lemma set_node_drain_keeps [core_handlers]: "keeps (set_node_drain sd)"
proof (rule keeps_nodes)
  fix s s' evs assume h: "set_node_drain sd s = (s', Inr evs)"
  then obtain r where r: "fmlookup (nodes s) (sd_node sd) = Some r"
    by (auto simp: set_node_drain_def split: option.splits)
  have "evs = [] \<and> (s' = s \<or> (\<exists>d. s' = put_drain (sd_node sd) r d s))"
    using h r by (auto simp: set_node_drain_def Let_def split: option.splits if_splits sum.splits)
  then show "same_core s s' \<and> cap_of s' = cap_of s \<and>
      (\<forall>n. has_key n (nodes s) \<longrightarrow> has_key n (nodes s')) \<and> list_all quiet evs"
    using cap_of_same [OF r] by (auto simp: put_drain_def same_core_def)
qed

lemma set_node_draining_keeps [core_handlers]: "keeps (set_node_draining sg)"
proof (rule keeps_nodes)
  fix s s' evs assume h: "set_node_draining sg s = (s', Inr evs)"
  then obtain r where r: "fmlookup (nodes s) (sg_node sg) = Some r"
    by (auto simp: set_node_draining_def split: option.splits)
  then show "same_core s s' \<and> cap_of s' = cap_of s \<and>
      (\<forall>n. has_key n (nodes s) \<longrightarrow> has_key n (nodes s')) \<and> list_all quiet evs"
    using h cap_of_same [OF r] by (auto simp: set_node_draining_def same_core_def)
qed

lemma pool_event_quiet: "pool_event e \<Longrightarrow> quiet e"
  by (cases e) simp_all

lemma register_node_keeps [core_handlers]: "keeps (register_node rg)"
proof (rule keepsI)
  fix s s' evs assume sd: "sound s" and h: "register_node rg s = (s', Inr evs)"
  note c = soundD(1) [OF sd]
  let ?n = "rg_node rg"
  obtain r where h: "fst (pledge_node ?n None (s\<lparr>nodes := fmupd ?n r (nodes s)\<rparr>, [NodeEpochBumped ?n (nr_epoch r)])) = (s', evs)"
    using h by (auto simp: register_node_def Let_def case_prod_unfold)
  define s1 where "s1 = s\<lparr>nodes := fmupd ?n r (nodes s)\<rparr>"
  obtain used where run: "pledge_node ?n None (s1, [NodeEpochBumped ?n (nr_epoch r)]) = ((s', evs), used)"
    using h by (metis prod.collapse s1_def)
  have sc: "same_core s s1" by (simp add: same_core_def s1_def)
  have c1: "core {?n} s1"
    using sc by (intro core_nodes_change [OF core_mono [OF c]]) (simp_all add: s1_def cap_of_upd)
  have ok1: "pool_ok s1" using core_pool [OF c1] .
  have post: "pass_post ?n s1 s'" and em: "emits pool_event [NodeEpochBumped ?n (nr_epoch r)] evs"
    using pledge_node_post [OF ok1 _ run] by simp_all
  have fr: "pool_frame s1 s'" and hm: "hold_moves ?n (free_capacity s1 ?n None) (allocations s1) (allocations s')"
    using post by (simp_all add: pass_post_def)
  have "aborts_ok {} (jobs s') (attempts s')"
    using sd sc pool_frameD(1) [OF fr] aborts_advanced promoted_advanced pass_post_fate(2) [OF post]
    by (auto simp: sound_def same_core_def)
  then have "sound s'" using core_pass [OF c1 post] by (simp add: sound_def)
  moreover have "held (allocations s') m d \<le> max (held (allocations s1) m d) (cap_of s1 m d)" for m d
    by (rule hold_moves_no_overflow(2) [OF pool_okD(2) [OF ok1] hm])
  then have "no_oversell s s'" using pool_frameD(8) [OF fr] sc by (simp add: no_oversell_def same_core_def)
  moreover have "list_all quiet evs"
    using em pool_event_quiet by (auto simp: emits_def list_all_iff)
  then have "replay evs (states_of (jobs s)) = Some (states_of (jobs s'))"
    using pool_frameD(1) [OF fr] sc by (simp add: replay_quiet same_core_def)
  ultimately show "sound s' \<and> next_allocation_seq s' = next_allocation_seq s \<and> no_oversell s s' \<and>
      replay evs (states_of (jobs s)) = Some (states_of (jobs s'))"
    using pool_frameD(5) [OF fr] sc by (simp add: same_core_def)
qed

section \<open>A lost node\<close>

definition aged :: "attempt_map \<Rightarrow> attempt_map \<Rightarrow> bool" where
  "aged ats ats' \<longleftrightarrow> (\<forall>a. rel_option (\<lambda>r r'. same_attempt r r' \<and>
     (attempt_terminal (astate r) \<longrightarrow> attempt_terminal (astate r'))) (fmlookup ats a) (fmlookup ats' a))"

lemma aged_refl [simp]: "aged ats ats"
  by (simp add: aged_def option.rel_refl)

lemma aged_trans:
  assumes "aged a b" "aged b c"
  shows "aged a c"
  unfolding aged_def
proof
  fix x
  show "rel_option (\<lambda>r r'. same_attempt r r' \<and> (attempt_terminal (astate r) \<longrightarrow> attempt_terminal (astate r')))
    (fmlookup a x) (fmlookup c x)"
    using assms(1) [unfolded aged_def, rule_format, of x] assms(2) [unfolded aged_def, rule_format, of x]
    by (cases "fmlookup a x"; cases "fmlookup b x"; cases "fmlookup c x") (auto intro: same_attempt_trans)
qed

lemma same_fate_aged: "same_fate ats ats' \<Longrightarrow> aged ats ats'"
  unfolding same_fate_def aged_def
  by (rule allI) (erule allE, erule option.rel_mono_strong, auto)

lemma aged_upd:
  "fmlookup ats a = Some r \<Longrightarrow> same_attempt r r' \<Longrightarrow> attempt_terminal (astate r') \<Longrightarrow> aged ats (fmupd a r' ats)"
  by (simp add: aged_def option.rel_refl)

lemma agedD:
  "aged ats ats' \<Longrightarrow> fmlookup ats a = Some r \<Longrightarrow> \<exists>r'. fmlookup ats' a = Some r' \<and> same_attempt r r' \<and>
     (attempt_terminal (astate r) \<longrightarrow> attempt_terminal (astate r'))"
  unfolding aged_def by (metis (mono_tags, lifting) option_rel_Some1)

lemma agedD':
  "aged ats ats' \<Longrightarrow> fmlookup ats' a = Some r' \<Longrightarrow> \<exists>r. fmlookup ats a = Some r \<and> same_attempt r r' \<and>
     (attempt_terminal (astate r) \<longrightarrow> attempt_terminal (astate r'))"
  unfolding aged_def by (metis (mono_tags, lifting) option_rel_Some2)

lemma lose_node_attempt_post:
  assumes p: "progress {} {n} s0 (s, evs)" and r: "fmlookup (attempts s) a = Some r" "att_node (atr_attempt r) = n"
  obtains s' evs' r' where "lose_node_attempt t a (s, evs) = (s', evs')" "progress {} {n} s0 (s', evs')"
    "aged (attempts s) (attempts s')" "fmlookup (attempts s') a = Some r'" "attempt_terminal (astate r')"
proof -
  obtain s' evs' used' where run: "terminate_attempt a NodeLost (lost_runtime s a t) t False None (s, evs) = ((s', evs'), used')"
    by (metis surj_pair)
  then have eq: "lose_node_attempt t a (s, evs) = (s', evs')" by (simp add: lose_node_attempt_def del: terminate_attempt.simps)
  have p': "progress {} {n} s0 (s', evs')" using terminate_progress [OF p _ _ run] r by simp
  show thesis
  proof (cases "attempt_terminal (astate r)")
    case True
    then have "s' = s" using run r by simp
    then show ?thesis using that [OF eq p'] True r by simp
  next
    case False
    have c: "core {n} s" using progress_core [OF p] by simp
    obtain jr where "ended_post a r jr NodeLost (lost_runtime s a t) t (s, evs) (s', evs')"
      using terminate_core [OF c _ r(1) False run] by auto
    then have sf: "same_fate (fmupd a (ended NodeLost t r) (attempts s)) (attempts s')"
      by (simp add: ended_post_def advanced_same_fate)
    have "aged (attempts s) (fmupd a (ended NodeLost t r) (attempts s))" using r(1) by (rule aged_upd) simp_all
    then have ag: "aged (attempts s) (attempts s')" using aged_trans same_fate_aged [OF sf] by blast
    obtain r' where "fmlookup (attempts s') a = Some r'" "attempt_terminal (astate r')"
      using same_fateD [OF sf, of a] by auto
    then show ?thesis by (rule that [OF eq p' ag])
  qed
qed

lemma lose_fold_post:
  assumes "progress {} {n} s0 (s, evs)"
    "\<And>a. a \<in> set xs \<Longrightarrow> \<exists>r. fmlookup (attempts s) a = Some r \<and> att_node (atr_attempt r) = n"
    "fold (lose_node_attempt t) xs (s, evs) = (s', evs')"
  shows "progress {} {n} s0 (s', evs') \<and> aged (attempts s) (attempts s') \<and>
    (\<forall>a \<in> set xs. \<forall>r. fmlookup (attempts s') a = Some r \<longrightarrow> attempt_terminal (astate r))"
  using assms
proof (induction xs arbitrary: s evs)
  case (Cons x xs)
  obtain r where r: "fmlookup (attempts s) x = Some r" "att_node (atr_attempt r) = n" using Cons.prems(2) by auto
  obtain s1 evs1 r1 where s1: "lose_node_attempt t x (s, evs) = (s1, evs1)" "progress {} {n} s0 (s1, evs1)"
    "aged (attempts s) (attempts s1)" "fmlookup (attempts s1) x = Some r1" "attempt_terminal (astate r1)"
    by (rule lose_node_attempt_post [OF Cons.prems(1) r])
  have nodes: "\<exists>r. fmlookup (attempts s1) a = Some r \<and> att_node (atr_attempt r) = n"
    if a: "a \<in> set xs" for a
  proof -
    obtain q where "fmlookup (attempts s) a = Some q" "att_node (atr_attempt q) = n"
      using Cons.prems(2) [of a] a by auto
    then show ?thesis using agedD [OF s1(3)] by (fastforce simp: same_attempt_def)
  qed
  have IH: "progress {} {n} s0 (s', evs') \<and> aged (attempts s1) (attempts s') \<and>
    (\<forall>a \<in> set xs. \<forall>r. fmlookup (attempts s') a = Some r \<longrightarrow> attempt_terminal (astate r))"
    using Cons.prems(3) s1(1) by (intro Cons.IH [OF s1(2) nodes]) simp_all
  have "attempt_terminal (astate r)" if "fmlookup (attempts s') x = Some r" for r
    using agedD [OF IH [THEN conjunct2, THEN conjunct1] s1(4)] s1(5) that by auto
  then show ?case using IH aged_trans [OF s1(3)] by auto
qed simp

lemma set_node_victims:
  "a \<in> set (node_victims s n) \<longleftrightarrow> (\<exists>k al. fmlookup (allocations s) k = Some al \<and> knode al = n \<and> live_allocation al \<and> kattempt al = a)"
proof -
  have "a \<in> set (node_victims s n) \<longleftrightarrow> (\<exists>al \<in> set (vals (allocations s)). knode al = n \<and> live_allocation al \<and> kattempt al = a)"
    by (auto simp: node_victims_def)
  then show ?thesis unfolding Bex_def set_vals by blast
qed

lemma lost_node_idle:
  assumes ok: "pool_ok s1" and ok': "pool_ok s'" and ag: "aged (attempts s1) (attempts s')"
    and gone: "\<And>a r. a \<in> set (node_victims s1 n) \<Longrightarrow> fmlookup (attempts s') a = Some r \<Longrightarrow> attempt_terminal (astate r)"
  shows "no_idle s' n"
  unfolding no_idle_def
proof (intro allI impI)
  fix k al d assume al: "fmlookup (allocations s') k = Some al" "kstate al = Accruing" "knode al = n"
  obtain r' where r': "fmlookup (attempts s') (kattempt al) = Some r'" "linked (kattempt al) r' k al"
    "matched (k \<in> {}) (astate r') (kstate al)"
    using pool_allocation [OF pool_okD(1) [OF ok'] al(1)] by metis
  then have live': "\<not> attempt_terminal (astate r')" 
    using al(2) alloc_state_for_Accruing [of "astate r'"] by (auto simp: matched_def)
  obtain r where r: "fmlookup (attempts s1) (kattempt al) = Some r" "same_attempt r r'" "\<not> attempt_terminal (astate r)"
    using agedD' [OF ag r'(1)] live' by blast
  obtain al1 where al1: "fmlookup (allocations s1) (aalloc r) = Some al1" "linked (kattempt al) r (aalloc r) al1"
    "kstate al1 = alloc_state_for (astate r)"
    using pool_attempt_alloc [OF ok r(1)] by auto
  have "knode al1 = n" using al1(2) r(2) r'(2) al(3) by (simp add: linked_def same_attempt_def)
  moreover have "live_allocation al1" using al1(3) r(3) by (simp add: live_allocation_def alloc_state_for_Released)
  moreover have "kattempt al1 = kattempt al" using al1(2) by (simp add: linked_def)
  ultimately have "kattempt al \<in> set (node_victims s1 n)" using al1(1) by (auto simp: set_node_victims)
  then show "cap_of s' n d \<le> held (allocations s') n d \<or> rget d (allocation_need al) = 0"
    using gone r'(1) live' by blast
qed

lemma declare_node_lost_keeps [core_handlers]: "keeps (declare_node_lost n t)"
proof (rule keepsI)
  fix s s' evs assume sd: "sound s" and h: "declare_node_lost n t s = (s', Inr evs)"
  note c = soundD(1) [OF sd]
  from h obtain r where r0: "fmlookup (nodes s) n = Some r" by (auto simp: declare_node_lost_def split: option.splits)
  define r1 where "r1 = r\<lparr>nr_epoch := nr_epoch r + 1, nr_node := (nr_node r)\<lparr>nd_drain := (case nd_drain (nr_node r) of
      None \<Rightarrow> Some \<lparr>dr_requested_at = t, dr_deadline = None\<rparr> | Some d \<Rightarrow> Some d)\<rparr>\<rparr>"
  have r: "fmlookup (nodes s) n = Some r" "nd_capacity (nr_node r1) = nd_capacity (nr_node r)"
    using r0 by (simp_all add: r1_def)
  have run: "fold (lose_node_attempt t) (node_victims (s\<lparr>nodes := fmupd n r1 (nodes s)\<rparr>) n)
      (s\<lparr>nodes := fmupd n r1 (nodes s)\<rparr>, [NodeEpochBumped n (nr_epoch r1)]) = (s', evs)"
    using h r0 unfolding r1_def by (simp add: declare_node_lost_def Let_def case_prod_unfold prod_eq_iff)
  define s1 where "s1 = s\<lparr>nodes := fmupd n r1 (nodes s)\<rparr>"
  have sc: "same_core s s1" "cap_of s1 = cap_of s" "\<And>m. has_key m (nodes s) \<Longrightarrow> has_key m (nodes s1)"
    using cap_of_same [OF r] by (simp_all add: same_core_def s1_def)
  have c1: "core {} s1" using sc by (intro core_nodes_change [OF c]) simp_all
  then have p1: "progress {} {n} s1 (s1, [NodeEpochBumped n (nr_epoch r1)])"
    using core_mono [OF c1] sd sc(1) by (simp add: progress_def sound_def same_core_def)
  have ok1: "pool_ok s1" using core_pool [OF c1] .
  have victims: "\<exists>ar. fmlookup (attempts s1) a = Some ar \<and> att_node (atr_attempt ar) = n"
    if a: "a \<in> set (node_victims s1 n)" for a
  proof -
    obtain k al where al: "fmlookup (allocations s1) k = Some al" "knode al = n" "kattempt al = a"
      using a by (auto simp: set_node_victims)
    show ?thesis by (rule pool_allocation [OF pool_okD(1) [OF ok1] al(1)]) (use al(2,3) in \<open>auto simp: linked_def\<close>)
  qed
  have post: "progress {} {n} s1 (s', evs)" "aged (attempts s1) (attempts s')"
    "\<And>a r. a \<in> set (node_victims s1 n) \<Longrightarrow> fmlookup (attempts s') a = Some r \<Longrightarrow> attempt_terminal (astate r)"
    using lose_fold_post [OF p1 victims run [folded s1_def]] by blast+
  have c': "core {n} s'" using progress_core [OF post(1)] by simp
  have "no_idle s' n" by (rule lost_node_idle [OF ok1 core_pool [OF c'] post(2,3)])
  then have "sound s'" using c' progress_aborts [OF post(1)] by (auto simp: sound_def core_def pools_def)
  then show "sound s' \<and> next_allocation_seq s' = next_allocation_seq s \<and> no_oversell s s' \<and>
      replay evs (states_of (jobs s)) = Some (states_of (jobs s'))"
    using post(1) core_frameD(3) [OF progress_frame [OF post(1)]] sc
    by (simp add: progress_def same_core_def no_oversell_def)
qed

section \<open>Evictions\<close>

definition evicted_post :: "attempt_id set \<Rightarrow> state_machine \<Rightarrow> state_machine \<Rightarrow> bool" where
  "evicted_post A s s' \<longleftrightarrow> core_frame s s' \<and> jobs s' = jobs s \<and> quota_entities s' = quota_entities s \<and>
     attempts s' = fmfilter (\<lambda>a. a \<notin> A) (attempts s) \<and> held (allocations s') = held (allocations s)"

lemma evict_attempt_post:
  assumes p: "pools N s" and dead: "\<And>r. fmlookup (attempts s) a = Some r \<Longrightarrow> attempt_terminal (astate r)"
  shows "pools N (evict_attempt a s) \<and> evicted_post {a} s (evict_attempt a s)"
proof (cases "fmlookup (attempts s) a")
  case None
  then have "fmfilter (\<lambda>b. b \<notin> {a}) (attempts s) = attempts s" by (intro fmap_ext) auto
  then show ?thesis using None p by (simp add: evict_attempt_def evicted_post_def)
next
  case (Some r)
  note ok = pools_pool [OF p] and P = pool_okD(1) [OF pools_pool [OF p]]
  obtain al where al: "fmlookup (allocations s) (aalloc r) = Some al" "kstate al = alloc_state_for (astate r)"
    using pool_attempt_alloc [OF ok Some] by auto
  then have rel: "kstate al = Released" using dead [OF Some] by (simp add: alloc_state_for_Released)
  let ?s = "s\<lparr>attempts := fmdrop a (attempts s), allocations := fmdrop (aalloc r) (allocations s)\<rparr>"
  have q: "fmdrop (knode al, alr_seq al) (accrual_queue s) = accrual_queue s"
    using pool_drop_id [OF P al(1)] rel by simp
  then have eq: "evict_attempt a s = ?s" using Some al by (simp add: evict_attempt_def Let_def)
  have held: "held (fmdrop (aalloc r) (allocations s)) m d = held (allocations s) m d" for m d
    using held_drop [OF al(1), of m d] rel by (simp add: hold_def live_allocation_def)
  have "pool {} (fmdrop a (attempts s)) (fmdrop (aalloc r) (allocations s)) (accrual_queue s)"
    using pool_evict [OF P Some al(1)] q by simp
  then have "pool_ok ?s" using pool_okD(2) [OF ok] by (simp add: pool_ok_def no_overflow_def held)
  moreover have "seqs_below ?s" "live_nodes ?s"
    using pools_seqs [OF p] pools_nodes [OF p] by (auto simp: seqs_below_def live_nodes_def)
  moreover have "no_idle ?s n" if "n \<notin> N" for n
    using pools_idle [OF p that] by (auto simp: no_idle_def held cap_of_def)
  moreover have "evicted_post {a} s ?s"
    by (auto simp: evicted_post_def core_frame_def held fun_eq_iff intro!: fmap_ext)
  ultimately show ?thesis unfolding eq by (simp add: pools_def)
qed

lemma evicted_post_trans:
  assumes "evicted_post A s s1" "evicted_post B s1 s2"
  shows "evicted_post (A \<union> B) s s2"
proof -
  have "attempts s2 = fmfilter (\<lambda>a. a \<notin> A \<union> B) (attempts s)"
    using assms by (intro fmap_ext) (simp add: evicted_post_def)
  then show ?thesis using assms core_frame_trans [of s s1 s2] by (simp add: evicted_post_def)
qed

lemma evict_attempts_post:
  assumes "pools N s" "\<And>a r. a \<in> set xs \<Longrightarrow> fmlookup (attempts s) a = Some r \<Longrightarrow> attempt_terminal (astate r)"
  shows "pools N (fold evict_attempt xs s) \<and> evicted_post (set xs) s (fold evict_attempt xs s)"
  using assms
proof (induction xs arbitrary: s)
  case Nil
  have "fmfilter (\<lambda>b. b \<notin> {}) (attempts s) = attempts s" by (intro fmap_ext) auto
  then show ?case using Nil by (simp add: evicted_post_def)
next
  case (Cons a xs)
  let ?s = "evict_attempt a s"
  have 1: "pools N ?s" "evicted_post {a} s ?s" using evict_attempt_post [of N s a] Cons.prems by auto
  then have "attempts ?s = fmfilter (\<lambda>b. b \<notin> {a}) (attempts s)" by (simp add: evicted_post_def)
  then have "pools N (fold evict_attempt xs ?s) \<and> evicted_post (set xs) ?s (fold evict_attempt xs ?s)"
    using Cons.prems(2) by (intro Cons.IH [OF 1(1)]) (auto split: if_splits)
  then show ?case using evicted_post_trans [OF 1(2)] by auto
qed

lemma job_link_evict:
  assumes l: "job_link js ats" and r: "fmlookup js j = Some r"
  shows "job_link (fmdrop j js) (fmfilter (\<lambda>a. a \<notin> set (jr_attempts r)) ats)"
  unfolding job_link_def
proof (intro conjI allI impI)
  fix i ir assume "fmlookup (fmdrop j js) i = Some ir"
  then have i: "i \<noteq> j" "job_ok i ir ats" using l by (auto simp: job_link_def split: if_splits)
  have rok: "job_ok j r ats" using l r by (simp add: job_link_def)
  have "a \<notin> set (jr_attempts r)" if a: "a \<in> set (jr_attempts ir)" for a
    using a i rok unfolding job_ok_def by fastforce
  then show "job_ok i ir (fmfilter (\<lambda>a. a \<notin> set (jr_attempts r)) ats)" using i(2) by (simp add: job_ok_def)
next
  fix a ar assume "fmlookup (fmfilter (\<lambda>a. a \<notin> set (jr_attempts r)) ats) a = Some ar"
  then have a: "a \<notin> set (jr_attempts r)" "fmlookup ats a = Some ar" by (auto split: if_splits)
  then have "attempt_link js a ar" using l by (simp add: job_link_def)
  moreover from this have "ajob ar \<noteq> j" using a(1) r by (auto simp: attempt_link_def)
  ultimately show "attempt_link (fmdrop j js) a ar" by (simp add: attempt_link_def)
qed

lemma aborts_evict:
  assumes ab: "aborts_ok J js ats" and l: "job_link js ats" and r: "fmlookup js j = Some r"
  shows "aborts_ok J (fmdrop j js) (fmfilter (\<lambda>a. a \<notin> set (jr_attempts r)) ats)"
  unfolding aborts_ok_def
proof (intro allI impI)
  fix i ir assume i: "fmlookup (fmdrop j js) i = Some ir" "i \<notin> J" "j_abort_requested (jr_spec ir) \<noteq> None"
  then have i': "i \<noteq> j" "fmlookup js i = Some ir" by (auto split: if_splits)
  then have ok: "job_ok i ir ats" "job_ok j r ats" using l r by (simp_all add: job_link_def)
  have "job_terminal (jr_state ir) \<or> (\<exists>a ar. jr_state ir = Attempting a \<and> fmlookup ats a = Some ar \<and> on_node (astate ar))"
    using ab i i' by (simp add: aborts_ok_def)
  moreover have "a \<notin> set (jr_attempts r)" if "jr_state ir = Attempting a" for a
    using ok i'(1) that unfolding job_ok_def by fastforce
  ultimately show "job_terminal (jr_state ir) \<or> (\<exists>a ar. jr_state ir = Attempting a \<and>
      fmlookup (fmfilter (\<lambda>a. a \<notin> set (jr_attempts r)) ats) a = Some ar \<and> on_node (astate ar))" by auto
qed

lemma progress_evict_job:
  assumes p: "progress {} {} s0 (s, evs)" and dead: "\<And>r. fmlookup (jobs s) j = Some r \<Longrightarrow> job_terminal (jr_state r)"
  shows "progress {} {} s0 (evict_job j (s, evs))"
proof (cases "fmlookup (jobs s) j")
  case None
  then show ?thesis using p by (simp add: evict_job_def)
next
  case (Some r)
  let ?u = "s\<lparr>jobs := fmdrop j (jobs s)\<rparr>"
  let ?s = "fold evict_attempt (jr_attempts r) ?u"
  have c: "core {} s" using progress_core [OF p] by simp
  have over: "attempt_terminal (astate ar)" if a: "a \<in> set (jr_attempts r)" "fmlookup (attempts s) a = Some ar" for a ar
  proof -
    have "ajob ar = j" using core_job_ok [OF c Some] a by (auto simp: job_ok_def)
    moreover have "attempt_link (jobs s) a ar" using core_link [OF c] a(2) by (simp add: job_link_def)
    ultimately show ?thesis using Some dead [OF Some] by (auto simp: attempt_link_def)
  qed
  have p0: "pools {} ?u" using pools_cong [of ?u s] core_pools [OF c] by simp
  have post: "pools {} ?s" "evicted_post (set (jr_attempts r)) ?u ?s"
    using evict_attempts_post [OF p0, of "jr_attempts r"] over by simp_all
  have u: "attempts ?u = attempts s" by simp
  have f: "jobs ?s = fmdrop j (jobs s)" "attempts ?s = fmfilter (\<lambda>a. a \<notin> set (jr_attempts r)) (attempts s)"
    "held (allocations ?s) = held (allocations s)" "core_frame ?u ?s"
    using post(2) unfolding evicted_post_def u by simp_all
  have "core_frame s ?u" by (simp add: core_frame_def)
  then have fr: "core_frame s ?s" using f(4) by (rule core_frame_trans)
  have "attempts_ok (attempts ?s)"
    using core_attempts [OF c] by (auto simp: attempts_ok_def f(2) split: if_splits)
  then have c': "core {} ?s"
    using post(1) job_link_evict [OF core_link [OF c] Some] f(1,2) by (simp add: core_def)
  have ab: "aborts_ok {} (jobs ?s) (attempts ?s)"
    unfolding f by (rule aborts_evict [OF progress_aborts [OF p, simplified] core_link [OF c] Some])
  have "\<exists>sc. evict_job j (s, evs) = (?s, evs @ [JobEvicted j sc])"
    using Some by (simp add: evict_job_def Let_def)
  moreover have "progress {} {} s0 (?s, evs @ [JobEvicted j sc])" for sc
    using Some dead [OF Some] f ab by (intro progress_step [OF p c' fr, of _ _ "[JobEvicted j sc]"])
      (simp_all add: no_oversell_def)
  ultimately show ?thesis by auto
qed

lemma check_evict_jobs_ok:
  "check_evict_jobs s js idx = [] \<Longrightarrow> j \<in> set js \<Longrightarrow> fmlookup (jobs s) j = Some r \<Longrightarrow> job_terminal (jr_state r)"
  by (induction s js idx rule: check_evict_jobs.induct) (auto split: option.splits if_splits)

lemma evict_job_jobs: "jobs (fst (evict_job j (s, evs))) = fmdrop j (jobs s)"
proof (cases "fmlookup (jobs s) j")
  case None
  then have "fmdrop j (jobs s) = jobs s" by (intro fmap_ext) auto
  then show ?thesis using None by (simp add: evict_job_def)
next
  case (Some r)
  have "jobs (fold evict_attempt xs u) = jobs u" for xs u
    by (induction xs arbitrary: u) (simp_all add: evict_attempt_def Let_def split: option.split)
  then show ?thesis using Some by (simp add: evict_job_def Let_def)
qed

lemma evict_terminal_jobs_keeps [core_handlers]: "keeps (evict_terminal_jobs js t)"
proof (rule keeps_progressI)
  fix s s' evs assume sd: "sound s" and h: "evict_terminal_jobs js t s = (s', Inr evs)"
  note c = soundD(1) [OF sd]
  have "progress {} {} s eff \<Longrightarrow> (\<And>j r. j \<in> set xs \<Longrightarrow> fmlookup (jobs (fst eff)) j = Some r \<Longrightarrow> job_terminal (jr_state r)) \<Longrightarrow>
      progress {} {} s (fold evict_job xs eff)" for xs eff
  proof (induction xs arbitrary: eff)
    case (Cons x xs)
    obtain u es where eff: "eff = (u, es)" by (cases eff)
    have "progress {} {} s (evict_job x eff)" using Cons.prems eff by (auto intro: progress_evict_job)
    then show ?case
      using Cons.prems(2) by (simp add: eff) (rule Cons.IH, auto simp: evict_job_jobs split: if_splits)
  qed simp
  then have "progress {} {} s (fold evict_job js (s, []))"
    if "check_evict_jobs s js 0 = []" using soundD(2) [OF sd] check_evict_jobs_ok [OF that] by fastforce
  then show "progress {} {} s (s', evs)"
    using h by (auto simp: evict_terminal_jobs_def Let_def split: if_splits prod.splits)
qed

lemma evict_node_core:
  assumes c: "core {} s" and idle: "has_key n (nodes s) \<Longrightarrow> (\<And>k al. fmlookup (allocations s) k = Some al \<Longrightarrow> knode al = n \<Longrightarrow> \<not> live_allocation al)"
  shows "core {} (evict_node n s) \<and> same_core s (evict_node n s)"
proof (cases "has_key n (nodes s)")
  case True
  note idle = idle [OF True]
  have P: "pool {} (attempts s) (allocations s) (accrual_queue s)" using pool_okD(1) [OF core_pool [OF c]] .
  have acc: "\<And>k al. fmlookup (allocations s) k = Some al \<Longrightarrow> knode al = n \<Longrightarrow> kstate al \<noteq> Accruing"
    using idle by (force simp: live_allocation_def)
  have "node_queue s n = []"
  proof (rule ccontr)
    assume "node_queue s n \<noteq> []"
    then obtain seq k where "(seq, k) \<in> set (node_queue s n)" by (cases "node_queue s n") auto
    then have "fmlookup (accrual_queue s) (n, seq) = Some k" by (simp add: set_node_queue)
    then show False using acc by (auto simp: pool_queue [OF P])
  qed
  then have eq: "evict_node n s = s\<lparr>nodes := fmdrop n (nodes s)\<rparr>" using True by (simp add: evict_node_def)
  let ?s = "s\<lparr>nodes := fmdrop n (nodes s)\<rparr>"
  have "live_nodes ?s"
    using pools_nodes [OF core_pools [OF c]] idle by (auto simp: live_nodes_def)
  moreover have "no_idle ?s m" for m
    using pools_idle [OF core_pools [OF c], of m] acc by (cases "m = n") (auto simp: no_idle_def cap_of_def)
  ultimately show ?thesis
    using c unfolding eq by (simp add: core_def pools_def pool_ok_def seqs_below_def same_core_def)
qed (use c in \<open>simp add: evict_node_def\<close>)

lemma check_evict_nodes_ok:
  "check_evict_nodes s ns idx = [] \<Longrightarrow> n \<in> set ns \<Longrightarrow> node_evict_reason s n = None"
  by (induction s ns idx rule: check_evict_nodes.induct) (auto split: option.splits)

lemma evict_nodes_fold:
  assumes "core {} s" "\<And>n k al. n \<in> set ns \<Longrightarrow> has_key n (nodes s) \<Longrightarrow> fmlookup (allocations s) k = Some al \<Longrightarrow>
    knode al = n \<Longrightarrow> \<not> live_allocation al"
  shows "core {} (fold evict_node ns s) \<and> same_core s (fold evict_node ns s)"
  using assms
proof (induction ns arbitrary: s)
  case (Cons n ns)
  let ?s = "evict_node n s"
  have "core {} ?s \<and> same_core s ?s"
    by (rule evict_node_core [OF Cons.prems(1)]) (rule Cons.prems(2), simp_all)
  then have 1: "core {} ?s" "same_core s ?s" by simp_all
  have keys: "has_key m (nodes ?s) \<Longrightarrow> has_key m (nodes s)" for m by (simp add: evict_node_def split: if_splits)
  have "\<not> live_allocation al" if m: "m \<in> set ns" "has_key m (nodes ?s)" "fmlookup (allocations ?s) k = Some al" "knode al = m"
    for m k al
    using Cons.prems(2) [OF _ keys [OF m(2)], of k al] m 1(2) by (simp add: same_core_def)
  then have "core {} (fold evict_node ns ?s) \<and> same_core ?s (fold evict_node ns ?s)"
    by (intro Cons.IH [OF 1(1)])
  then show ?case using 1(2) by (simp add: same_core_def)
qed simp

lemma evict_nodes_keeps [core_handlers]: "keeps (evict_nodes en)"
proof (rule keepsI)
  fix s s' evs assume sd: "sound s" and h: "evict_nodes en s = (s', Inr evs)"
  note c = soundD(1) [OF sd]
  from h have s': "s' = fold evict_node (en_nodes en) s" "evs = []" and chk: "check_evict_nodes s (en_nodes en) 0 = []"
    by (auto simp: evict_nodes_def Let_def split: if_splits sum.splits)
  have "\<not> live_allocation al" if n: "n \<in> set (en_nodes en)" "has_key n (nodes s)"
      "fmlookup (allocations s) k = Some al" "knode al = n" for n k al
  proof -
    have "al \<in> set (vals (allocations s))" unfolding set_vals using n(3) by (rule exI)
    moreover have "node_evict_reason s n = None" by (rule check_evict_nodes_ok [OF chk n(1)])
    ultimately show ?thesis
      using n(2,4) by (auto simp: node_evict_reason_def list_ex_iff split: option.splits if_splits)
  qed
  then have "core {} s'" "same_core s s'" using evict_nodes_fold [OF c, of "en_nodes en"] s'(1) by blast+
  then have "sound s'" "same_core s s'" using sd by (simp_all add: sound_def same_core_def)
  then show "sound s' \<and> next_allocation_seq s' = next_allocation_seq s \<and> no_oversell s s' \<and>
      replay evs (states_of (jobs s)) = Some (states_of (jobs s'))"
    using s'(2) by (simp add: same_core_def no_oversell_def)
qed

end
