(* ===== verification/Core_Placement.thy ===== *)
theory Core_Placement
  imports Core_Nodes
begin

text \<open>
  The scheduler's batch keeps the core. Revocations end accruing attempts and give their jobs back to
  the queue; every accepted placement then finds its job queued, its ids fresh and its node known, so
  that seating it keeps the pool, funds it from what the node has free and no more, and moves the job
  from the queue to the attempt. Preemption notices go to running attempts only.
\<close>

section \<open>A batch in progress\<close>

definition batch :: "state_machine \<Rightarrow> effects \<Rightarrow> bool" where
  "batch s0 eff \<longleftrightarrow> sound (fst eff) \<and> nodes (fst eff) = nodes s0 \<and> no_oversell s0 (fst eff) \<and>
     replay (snd eff) (states_of (jobs s0)) = Some (states_of (jobs (fst eff)))"

lemma batchD:
  assumes "batch s0 (s, evs)"
  shows batch_sound: "sound s" and batch_core: "core {} s" and batch_nodes: "nodes s = nodes s0"
    and batch_held: "no_oversell s0 s" and batch_replay: "replay evs (states_of (jobs s0)) = Some (states_of (jobs s))"
    and batch_aborts: "aborts_ok {} (jobs s) (attempts s)"
  using assms by (simp_all add: batch_def sound_def)

lemma progress_batch: "progress {} {} s0 eff \<Longrightarrow> batch s0 eff"
  using core_frameD(1) by (auto simp: progress_def batch_def sound_def)

lemma cap_of_nodes: "nodes s' = nodes s \<Longrightarrow> cap_of s' = cap_of s"
  by (simp add: cap_of_def fun_eq_iff)

lemma batch_step:
  assumes b: "batch s0 (s, evs)" and s': "sound s'" "nodes s' = nodes s" "no_oversell s s'"
    and rp: "replay new (states_of (jobs s)) = Some (states_of (jobs s'))"
  shows "batch s0 (s', evs @ new)"
proof -
  have "no_oversell s0 s'"
    by (rule no_oversell_trans [OF batch_held [OF b] s'(3) cap_of_nodes [OF s'(2)]])
  then show ?thesis using s' batch_nodes [OF b] batch_replay [OF b] rp by (simp add: batch_def replay_append)
qed

section \<open>Attempts across the revocations\<close>

definition survives :: "allocation_id set \<Rightarrow> attempt_map \<Rightarrow> attempt_map \<Rightarrow> bool" where
  "survives D ats ats' \<longleftrightarrow> (\<forall>a. rel_option (\<lambda>r r'. same_attempt r r' \<and> (aalloc r \<notin> D \<longrightarrow>
     astate r' = astate r \<or> astate r = AttAccruing \<and> astate r' = Ready)) (fmlookup ats a) (fmlookup ats' a))"

lemma survives_refl [simp]: "survives {} ats ats"
  by (simp add: survives_def option.rel_refl)

lemma survivesD:
  "survives D ats ats' \<Longrightarrow> fmlookup ats a = Some r \<Longrightarrow> \<exists>r'. fmlookup ats' a = Some r' \<and> same_attempt r r' \<and>
     (aalloc r \<notin> D \<longrightarrow> astate r' = astate r \<or> astate r = AttAccruing \<and> astate r' = Ready)"
  unfolding survives_def by (metis (mono_tags, lifting) option_rel_Some1)

lemma survives_dom: "survives D ats ats' \<Longrightarrow> fmlookup ats' a = None \<longleftrightarrow> fmlookup ats a = None"
  unfolding survives_def by (metis (mono_tags, lifting) option.rel_sel)

lemma survives_end:
  assumes s: "survives D ats ats1" and r: "fmlookup ats1 a = Some r" and e: "same_attempt r r1"
    and adv: "advanced (fmupd a r1 ats1) ats2"
  shows "survives (insert (aalloc r) D) ats ats2"
  unfolding survives_def
proof
  fix x
  have 1: "rel_option (\<lambda>r r'. same_attempt r r' \<and> (aalloc r \<notin> D \<longrightarrow>
     astate r' = astate r \<or> astate r = AttAccruing \<and> astate r' = Ready)) (fmlookup ats x) (fmlookup ats1 x)"
    using s by (simp add: survives_def)
  have 2: "rel_option (\<lambda>r r'. same_attempt r r' \<and> (astate r' = astate r \<or> astate r = AttAccruing \<and> astate r' = Ready))
     (fmlookup (fmupd a r1 ats1) x) (fmlookup ats2 x)"
    using adv by (simp add: advanced_def)
  show "rel_option (\<lambda>q q'. same_attempt q q' \<and> (aalloc q \<notin> insert (aalloc r) D \<longrightarrow>
     astate q' = astate q \<or> astate q = AttAccruing \<and> astate q' = Ready)) (fmlookup ats x) (fmlookup ats2 x)"
  proof (cases "x = a")
    case True
    then show ?thesis using 1 2 r e
      by (cases "fmlookup ats x"; cases "fmlookup ats2 x") (auto simp: same_attempt_def)
  next
    case False
    then show ?thesis using 1 2
      by (cases "fmlookup ats x"; cases "fmlookup ats1 x"; cases "fmlookup ats2 x") (auto simp: same_attempt_def)
  qed
qed

text \<open>The jobs of revoked attempts are back in the queue; queued jobs stay there.\<close>

definition requeued :: "allocation_id set \<Rightarrow> state_machine \<Rightarrow> state_machine \<Rightarrow> bool" where
  "requeued D s0 s \<longleftrightarrow> (\<forall>j r. fmlookup (jobs s0) j = Some r \<longrightarrow> (\<exists>r'. fmlookup (jobs s) j = Some r' \<and>
     (jr_state r = Queued \<longrightarrow> jr_state r' = Queued) \<and>
     (\<forall>a ar. jr_state r = Attempting a \<longrightarrow> fmlookup (attempts s0) a = Some ar \<longrightarrow> aalloc ar \<in> D \<longrightarrow> jr_state r' = Queued)))"

lemma revoked_resolves:
  "j_abort_requested (jr_spec r) = None \<Longrightarrow> jr_state (resolve_record r Revoked t) = Queued"
  by (simp add: resolve_record_def resolution_of_def)

lemma requeued_step:
  assumes q: "requeued D s0 s" and s0: "core {} s0" and r0: "fmlookup (attempts s0) a = Some r0"
    and jobs: "jobs s' = fmupd (ajob r0) jr (jobs s)" and jr: "jr_state jr = Queued"
  shows "requeued (insert (aalloc r0) D) s0 s'"
  unfolding requeued_def
proof (intro allI impI)
  fix j rj assume j: "fmlookup (jobs s0) j = Some rj"
  show "\<exists>r'. fmlookup (jobs s') j = Some r' \<and> (jr_state rj = Queued \<longrightarrow> jr_state r' = Queued) \<and>
     (\<forall>b br. jr_state rj = Attempting b \<longrightarrow> fmlookup (attempts s0) b = Some br \<longrightarrow>
        aalloc br \<in> insert (aalloc r0) D \<longrightarrow> jr_state r' = Queued)"
  proof (cases "j = ajob r0")
    case True
    then show ?thesis using jobs jr by simp
  next
    case False
    have other: "aalloc br \<noteq> aalloc r0" if b: "jr_state rj = Attempting b" "fmlookup (attempts s0) b = Some br" for b br
    proof
      assume eq: "aalloc br = aalloc r0"
      obtain al where "fmlookup (allocations s0) (aalloc r0) = Some al" "linked a r0 (aalloc r0) al"
        using pool_attempt_alloc [OF core_pool [OF s0] r0] by blast
      moreover obtain al' where "fmlookup (allocations s0) (aalloc br) = Some al'" "linked b br (aalloc br) al'"
        using pool_attempt_alloc [OF core_pool [OF s0] b(2)] by blast
      ultimately have "b = a" using eq by (simp add: linked_def)
      moreover have "ajob br = j" using core_job_ok [OF s0 j] b by (auto simp: job_ok_def)
      ultimately show False using b(2) r0 False by simp
    qed
    obtain r' where r': "fmlookup (jobs s) j = Some r'" "jr_state rj = Queued \<longrightarrow> jr_state r' = Queued"
      "\<forall>b br. jr_state rj = Attempting b \<longrightarrow> fmlookup (attempts s0) b = Some br \<longrightarrow> aalloc br \<in> D \<longrightarrow> jr_state r' = Queued"
      using q [unfolded requeued_def, rule_format, OF j] by blast
    then show ?thesis using jobs False other by auto
  qed
qed

lemma pending_abort_none:
  assumes ab: "aborts_ok {} (jobs s) (attempts s)" and j: "fmlookup (jobs s) j = Some jr" "\<not> job_terminal (jr_state jr)"
    and off: "\<And>a ar. jr_state jr = Attempting a \<Longrightarrow> fmlookup (attempts s) a = Some ar \<Longrightarrow> \<not> on_node (astate ar)"
  shows "j_abort_requested (jr_spec jr) = None"
proof (rule ccontr)
  assume "j_abort_requested (jr_spec jr) \<noteq> None"
  then have "job_terminal (jr_state jr) \<or> (\<exists>a ar. jr_state jr = Attempting a \<and> fmlookup (attempts s) a = Some ar \<and> on_node (astate ar))"
    using ab j(1) by (simp add: aborts_ok_def)
  then show False using j(2) off by blast
qed

definition revoking :: "state_machine \<Rightarrow> allocation_id set \<Rightarrow> effects \<times> capacity_memo option \<Rightarrow> bool" where
  "revoking s0 D st \<longleftrightarrow> progress {} {} s0 (fst st) \<and> memo_ok (allocations (fst (fst st))) (snd st) \<and>
     survives D (attempts s0) (attempts (fst (fst st))) \<and> requeued D s0 (fst (fst st))"

lemma revoke_step:
  assumes rv: "revoking s0 D ((s, evs), used)" and sd: "sound s0"
    and al0: "fmlookup (allocations s0) k = Some al0" "kstate al0 = Accruing" and k: "k \<notin> D"
  shows "revoking s0 (insert k D) (revoke_allocation t k ((s, evs), used))"
proof -
  have p: "progress {} {} s0 (s, evs)" and m: "memo_ok (allocations s) used"
    and sv: "survives D (attempts s0) (attempts s)" and rq: "requeued D s0 s"
    using rv by (simp_all add: revoking_def)
  have c0: "core {} s0" and c: "core {} s" using soundD(1) [OF sd] progress_core [OF p] by simp_all
  let ?a = "kattempt al0"
  obtain r0 where r0: "fmlookup (attempts s0) ?a = Some r0" "linked ?a r0 k al0" "matched (k \<in> {}) (astate r0) (kstate al0)"
    using pool_allocation [OF pool_okD(1) [OF core_pool [OF c0]] al0(1)] by metis
  have k0: "aalloc r0 = k" using r0(2) by (simp add: linked_def)
  have "astate r0 = AttAccruing" 
    using r0(3) al0(2) alloc_state_for_Accruing [of "astate r0"] by (auto simp: matched_def)
  then obtain r where r: "fmlookup (attempts s) ?a = Some r" "same_attempt r0 r" "astate r = AttAccruing \<or> astate r = Ready"
    using survivesD [OF sv r0(1)] k k0 by auto
  have rk: "aalloc r = k" "ajob r = ajob r0" using r(2) k0 by (simp_all add: same_attempt_def)
  have live: "\<not> attempt_terminal (astate r)" "\<not> on_node (astate r)" using r(3) by auto
  obtain al where al: "fmlookup (allocations s) k = Some al" "kattempt al = ?a"
    using pool_attempt_alloc [OF core_pool [OF c] r(1)] rk by (auto simp: linked_def)
  obtain s' evs' used' where run: "terminate_attempt ?a Revoked dur_zero t True used (s, evs) = ((s', evs'), used')"
    by (metis surj_pair)
  have eq: "revoke_allocation t k ((s, evs), used) = ((s', evs'), used')"
    using al run by (simp add: revoke_allocation_def del: terminate_attempt.simps)
  have "progress {} {} s0 (s', evs') \<and> memo_ok (allocations s') used'"
    using terminate_live_progress [OF p m r(1) live(1) _ _ run, of "{}"] by simp
  moreover obtain jr where jr: "fmlookup (jobs s) (ajob r) = Some jr" "jr_state jr = Attempting ?a"
    and post: "ended_post ?a r jr Revoked dur_zero t (s, evs) (s', evs')"
    using terminate_core [OF c m r(1) live(1) run] by blast
  moreover have "survives (insert k D) (attempts s0) (attempts s')"
    using survives_end [OF sv r(1), of "ended Revoked t r"] post rk(1) by (simp add: ended_post_def)
  moreover have "requeued (insert k D) s0 s'"
  proof -
    have "j_abort_requested (jr_spec jr) = None"
      using live r(1) jr progress_aborts [OF p] by (intro pending_abort_none) auto
    then show ?thesis
      using requeued_step [OF rq c0 r0(1), of s'] post revoked_resolves rk k0 by (simp add: ended_post_def)
  qed
  ultimately show ?thesis unfolding eq by (simp add: revoking_def)
qed

lemma revoke_fold:
  assumes "revoking s0 D ((s, evs), used)" "sound s0" "distinct ks" "set ks \<inter> D = {}"
    "\<And>k. k \<in> set ks \<Longrightarrow> \<exists>al. fmlookup (allocations s0) k = Some al \<and> kstate al = Accruing"
  shows "revoking s0 (D \<union> set ks) (fold (revoke_allocation t) ks ((s, evs), used))"
  using assms
proof (induction ks arbitrary: D s evs used)
  case (Cons k ks)
  obtain al0 where "fmlookup (allocations s0) k = Some al0" "kstate al0 = Accruing" using Cons.prems(5) [of k] by auto
  then have step: "revoking s0 (insert k D) (revoke_allocation t k ((s, evs), used))"
    using Cons.prems by (intro revoke_step) auto
  obtain s' evs' used' where eq: "revoke_allocation t k ((s, evs), used) = ((s', evs'), used')" by (metis surj_pair)
  have "revoking s0 (insert k D \<union> set ks) (fold (revoke_allocation t) ks ((s', evs'), used'))"
    using Cons.prems step eq by (intro Cons.IH) auto
  then show ?case using eq by simp
qed simp

lemma validate_revocations_ok:
  assumes "validate_revocations s ks idx D = ([], idx', D')"
  shows "distinct ks \<and> set ks \<inter> fset D = {} \<and> fset D' = fset D \<union> set ks \<and>
    (\<forall>k \<in> set ks. \<exists>al. fmlookup (allocations s) k = Some al \<and> kstate al = Accruing)"
  using assms
proof (induction s ks idx D arbitrary: idx' D' rule: validate_revocations.induct)
  case (2 s al rest idx revoked)
  show ?case
  proof (cases "fmlookup (allocations s) al")
    case None
    then show ?thesis using 2(4) by (auto simp: Let_def split: prod.splits)
  next
    case (Some r)
    then have st: "kstate r = Accruing" "al |\<notin>| revoked"
      using 2(4) by (auto simp: Let_def split: prod.splits if_splits)
    then have "validate_revocations s rest (idx + 1) (finsert al revoked) = ([], idx', D')" using 2(4) Some by simp
    then have "distinct rest \<and> set rest \<inter> fset (finsert al revoked) = {} \<and> fset D' = fset (finsert al revoked) \<union> set rest \<and>
        (\<forall>k \<in> set rest. \<exists>al. fmlookup (allocations s) k = Some al \<and> kstate al = Accruing)"
      using 2(3) [OF Some] st by simp
    then show ?thesis using Some st by auto
  qed
qed simp

section \<open>Seating one placement\<close>

lemma seat_attempt_fields [simp]:
  "att_id (atr_attempt (seat_attempt s j p spec fully t cutoff)) = pl_attempt p"
  "ajob (seat_attempt s j p spec fully t cutoff) = pl_job p"
  "aalloc (seat_attempt s j p spec fully t cutoff) = as_id spec"
  "att_node (atr_attempt (seat_attempt s j p spec fully t cutoff)) = as_node spec"
  "astate (seat_attempt s j p spec fully t cutoff) = (if fully then Ready else AttAccruing)"
  "atr_group (seat_attempt s j p spec fully t cutoff) = pl_group p"
  "attempt_ok (seat_attempt s j p spec fully t cutoff)"
  by (auto simp: seat_attempt_def attempt_ok_def Let_def split: prod.split)

lemma seat_allocation_fields [simp]:
  "al_id (alr_allocation (seat_allocation p spec funded seq)) = as_id spec"
  "al_job (alr_allocation (seat_allocation p spec funded seq)) = pl_job p"
  "kattempt (seat_allocation p spec funded seq) = pl_attempt p"
  "knode (seat_allocation p spec funded seq) = as_node spec"
  "krequested (seat_allocation p spec funded seq) = as_requested spec"
  "kfunded (seat_allocation p spec funded seq) = funded"
  "kstate (seat_allocation p spec funded seq) = (if funded = as_requested spec then Funded else Accruing)"
  "alr_seq (seat_allocation p spec funded seq) = seq"
  by (simp_all add: seat_allocation_def)

text \<open>The job's side of a placement.\<close>

definition seated_job :: "attempt_id \<Rightarrow> job_record \<Rightarrow> job_record" where
  "seated_job a j = j\<lparr>jr_attempts := jr_attempts j @ [a], jr_state := Attempting a\<rparr>"

lemma seated_job_fields [simp]:
  "jr_state (seated_job a j) = Attempting a" "jr_attempts (seated_job a j) = jr_attempts j @ [a]"
  "jr_spec (seated_job a j) = jr_spec j" "jr_terminal_at (seated_job a j) = jr_terminal_at j"
  "jr_retries_used (seated_job a j) = jr_retries_used j"
  by (simp_all add: seated_job_def)

lemma job_link_seat:
  assumes l: "job_link js ats" and j: "fmlookup js j = Some jr" "jr_state jr = Queued"
    and a: "fmlookup ats a = None" and r: "ajob r = j" "\<not> attempt_terminal (astate r)"
  shows "job_link (fmupd j (seated_job a jr) js) (fmupd a r ats)"
  unfolding job_link_def
proof (intro conjI allI impI)
  fix i ir assume i: "fmlookup (fmupd j (seated_job a jr) js) i = Some ir"
  have fresh: "a \<notin> set (jr_attempts q)" if "fmlookup js x = Some q" for x q
    using l a that unfolding job_link_def job_ok_def by force
  have keep: "\<exists>ar. fmlookup (fmupd a r ats) b = Some ar \<and> ajob ar = x"
    if "fmlookup js x = Some q" "b \<in> set (jr_attempts q)" for x q b
    using l that fresh [OF that(1)] unfolding job_link_def job_ok_def by auto
  show "job_ok i ir (fmupd a r ats)"
  proof (cases "i = j")
    case True
    have "job_ok j jr ats" using l j(1) by (simp add: job_link_def)
    then show ?thesis using i True fresh [OF j(1)] keep [OF j(1)] j(2) r(1) by (auto simp: job_ok_def)
  next
    case False
    then have i': "fmlookup js i = Some ir" using i by simp
    then have "job_ok i ir ats" using l by (simp add: job_link_def)
    then show ?thesis using keep [OF i'] by (auto simp: job_ok_def)
  qed
next
  fix b br assume b: "fmlookup (fmupd a r ats) b = Some br"
  show "attempt_link (fmupd j (seated_job a jr) js) b br"
  proof (cases "b = a")
    case True
    then show ?thesis using b r by (simp add: attempt_link_def)
  next
    case False
    then have "fmlookup ats b = Some br" using b by simp
    then have "attempt_link js b br" using l by (simp add: job_link_def)
    then show ?thesis using j False by (cases "ajob br = j") (auto simp: attempt_link_def)
  qed
qed

text \<open>The pool's side: the record is funded from what the node has free.\<close>

definition seated :: "placement \<Rightarrow> allocation_spec \<Rightarrow> resources \<Rightarrow> attempt_record \<Rightarrow> state_machine \<Rightarrow> state_machine" where
  "seated p spec funded r s =
     s\<lparr>next_allocation_seq := next_allocation_seq s + 1,
       allocations := fmupd (as_id spec) (seat_allocation p spec funded (next_allocation_seq s)) (allocations s),
       accrual_queue := (if funded = as_requested spec then accrual_queue s
         else fmupd (as_node spec, next_allocation_seq s) (as_id spec) (accrual_queue s)),
       attempts := fmupd (pl_attempt p) r (attempts s)\<rparr>"

lemma held_seated:
  assumes ov: "no_overflow (allocations s)" and memo: "memo_ok (allocations s) used"
    and k: "fmlookup (allocations s) (as_id spec) = None"
    and f: "funded = component_min (free_capacity s (as_node spec) used) (as_requested spec)"
  shows "held (allocations (seated p spec funded r s)) m d =
      held (allocations s) m d + (if m = as_node spec then rget d funded else 0)"
    and "rget d funded = min (cap_of s (as_node spec) d - held (allocations s) (as_node spec) d) (rget d (as_requested spec))"
proof -
  show "rget d funded = min (cap_of s (as_node spec) d - held (allocations s) (as_node spec) d) (rget d (as_requested spec))"
    by (simp add: f rget_min rget_free [OF ov memo])
  show "held (allocations (seated p spec funded r s)) m d =
      held (allocations s) m d + (if m = as_node spec then rget d funded else 0)"
    using held_upd_new [OF k] by (simp add: seated_def hold_def live_allocation_def)
qed

lemma unat_inc: "unat (x :: u64) + 1 < 2 ^ 64 \<Longrightarrow> unat (x + 1) = unat x + 1"
  using unat_add_lem [of x 1] by simp

lemma pools_seated:
  assumes p: "pools {} s" and memo: "memo_ok (allocations s) used"
    and fresh: "fmlookup (attempts s) (pl_attempt p) = None" "fmlookup (allocations s) (as_id spec) = None"
    and node: "has_key (as_node spec) (nodes s)" and room: "unat (next_allocation_seq s) + 1 < 2 ^ 64"
    and idle: "\<And>b br. fmlookup (attempts s) b = Some br \<Longrightarrow> ajob br = pl_job p \<Longrightarrow> attempt_terminal (astate br)"
    and grp: "tid_uuid (pl_group p) = tid_uuid (pl_job p)"
    and f: "funded = component_min (free_capacity s (as_node spec) used) (as_requested spec)"
    and r: "r = seat_attempt s j p spec (funded = as_requested spec) t cutoff"
  shows "pools {} (seated p spec funded r s) \<and> no_oversell s (seated p spec funded r s)"
proof -
  let ?s = "seated p spec funded r s" and ?al = "seat_allocation p spec funded (next_allocation_seq s)"
  note ok = pools_pool [OF p]
  note ov = pool_okD(2) [OF ok]
  have held: "held (allocations ?s) m d = held (allocations s) m d + (if m = as_node spec then rget d funded else 0)" for m d
    by (rule held_seated(1) [OF ov memo fresh(2) f])
  have fd: "rget d funded = min (cap_of s (as_node spec) d - held (allocations s) (as_node spec) d) (rget d (as_requested spec))" for d
    by (rule held_seated(2) [OF ov memo fresh(2) f])
  have cap: "cap_of ?s = cap_of s" by (rule cap_of_nodes) (simp add: seated_def)
  have seq: "alr_seq al < next_allocation_seq s" if "fmlookup (allocations s) k = Some al" for k al
    using pools_seqs [OF p] that by (simp add: seqs_below_def)
  have "linked (pl_attempt p) r (as_id spec) ?al" using grp by (simp add: linked_def r)
  moreover have "fund_ok ?al" by (auto simp: fund_ok_def fits_within_iff fd)
  moreover have "matched False (astate r) (kstate ?al)" by (auto simp: matched_def r)
  moreover have "alr_seq al \<noteq> alr_seq ?al" if "fmlookup (allocations s) k = Some al" for k al
    using seq [OF that] by simp
  ultimately have "pool {} (fmupd (pl_attempt p) r (attempts s)) (fmupd (as_id spec) ?al (allocations s))
      (if kstate ?al = Accruing then fmupd (knode ?al, alr_seq ?al) (as_id spec) (accrual_queue s) else accrual_queue s)"
    using idle by (intro pool_new [OF pool_okD(1) [OF ok] fresh]) (simp_all add: r)
  moreover have "held (allocations ?s) m d \<le> max (held (allocations s) m d) (cap_of s m d)" for m d
    using held [of m d] fd [of d] by auto
  then have le: "held (allocations ?s) m d \<le> max (held (allocations s) m d) (cap_of s m d)" for m d .
  moreover have "held (allocations ?s) m d \<le> U64_MAX" for m d
    using le [of m d] no_overflowD [OF ov, of m d] cap_of_le [of s m d] by simp
  ultimately have "pool_ok ?s" by (auto simp: pool_ok_def no_overflow_def seated_def)
  moreover have "seqs_below ?s"
    unfolding seqs_below_def
  proof (intro allI impI)
    fix k al assume k: "fmlookup (allocations ?s) k = Some al"
    have "unat (alr_seq al) \<le> unat (next_allocation_seq s)"
      using k seq [of k al] by (auto simp: seated_def word_less_nat_alt split: if_splits)
    then show "alr_seq al < next_allocation_seq ?s"
      using unat_inc [OF room] by (simp add: seated_def word_less_nat_alt)
  qed
  moreover have "live_nodes ?s"
    using pools_nodes [OF p] node by (auto simp: live_nodes_def seated_def)
  moreover have "no_idle ?s n" for n
    unfolding no_idle_def
  proof (intro allI impI)
    fix k al d assume k: "fmlookup (allocations ?s) k = Some al" "kstate al = Accruing" "knode al = n"
    show "cap_of ?s n d \<le> held (allocations ?s) n d \<or> rget d (allocation_need al) = 0"
    proof (cases "k = as_id spec")
      case True
      then have "al = ?al" "n = as_node spec" using k by (auto simp: seated_def)
      then show ?thesis using held [of n d] fd [of d] cap by (auto simp: rget_need)
    next
      case False
      then have "cap_of s n d \<le> held (allocations s) n d \<or> rget d (allocation_need al) = 0"
        using pools_idle [OF p, of n] k by (simp add: no_idle_def seated_def)
      then show ?thesis using held [of n d] cap by auto
    qed
  qed
  ultimately show ?thesis using le cap by (simp add: pools_def no_oversell_def)
qed

section \<open>Preemption notices\<close>

definition running_on :: "attempt_map \<Rightarrow> allocation_id \<Rightarrow> bool" where
  "running_on ats v \<longleftrightarrow> (\<exists>a ar. fmlookup ats a = Some ar \<and> aalloc ar = v \<and> astate ar = Running)"

lemma running_advanced: "running_on ats v \<Longrightarrow> advanced ats ats' \<Longrightarrow> running_on ats' v"
  unfolding running_on_def using advancedD by (fastforce simp: same_attempt_def)

lemma running_new: "running_on ats v \<Longrightarrow> fmlookup ats a = None \<Longrightarrow> running_on (fmupd a r ats) v"
  unfolding running_on_def by (metis fmupd_lookup option.distinct(1))

lemma core_same_state:
  assumes c: "core N s" and r: "fmlookup (attempts s) a = Some r" "same_attempt r r'" "astate r' = astate r" "attempt_ok r'"
  shows "core N (s\<lparr>attempts := fmupd a r' (attempts s)\<rparr>)"
proof -
  have "job_link (jobs s) (fmupd a r' (attempts s))"
    using r(2,3) by (intro job_link_same_fate [OF core_link [OF c]] same_fate_upd [OF r(1)]) simp_all
  then show ?thesis
    using pools_same_state [OF core_pools [OF c] r(1-3)] core_attempts [OF c] r(4) by (simp add: core_def attempts_ok_def)
qed

lemma request_step:
  assumes b: "batch s0 (s, evs)" and v: "running_on (attempts s) (fst vr)"
  shows "batch s0 (request_preemption t n vr (s, evs)) \<and>
    (\<exists>ats. fst (request_preemption t n vr (s, evs)) = s\<lparr>attempts := ats\<rparr> \<and> advanced (attempts s) ats)"
proof -
  obtain v reason where vr: "vr = (v, reason)" by (cases vr)
  obtain a ar where ar: "fmlookup (attempts s) a = Some ar" "aalloc ar = v" "astate ar = Running"
    using v vr by (auto simp: running_on_def)
  note c = batch_core [OF b]
  obtain al where al: "fmlookup (allocations s) v = Some al" "kattempt al = a"
    using pool_attempt_alloc [OF core_pool [OF c] ar(1)] ar(2) by (auto simp: linked_def)
  let ?r = "ar\<lparr>atr_preemption := Some \<lparr>pre_reason = reason, pre_requested_at = t, pre_acknowledged = None\<rparr>\<rparr>"
  let ?s = "s\<lparr>attempts := fmupd a ?r (attempts s)\<rparr>"
  obtain e where eq: "request_preemption t n vr (s, evs) = (?s, evs @ [e])" "quiet e"
    using al ar by (simp add: request_preemption_def vr Let_def fmmodify_Some)
  have adv: "advanced (attempts s) (attempts ?s)" using ar(1) by (simp add: advanced_upd same_attempt_def)
  have "attempt_ok ?r" using core_attempt_ok [OF c ar(1)] ar(3) by (auto simp: attempt_ok_def)
  then have "core {} ?s" using ar(1) by (intro core_same_state [OF c]) (simp_all add: same_attempt_def)
  moreover have "aborts_ok {} (jobs ?s) (attempts ?s)" using aborts_advanced [OF batch_aborts [OF b] adv] by simp
  ultimately have "batch s0 (?s, evs @ [e])"
    using replay_quiet [of "[e]"] eq(2)
    by (intro batch_step [OF b]) (simp_all add: sound_def no_oversell_def del: replay.simps)
  then show ?thesis using eq(1) adv by auto
qed

lemma request_fold:
  assumes "batch s0 (s, evs)" "\<And>v reason. (v, reason) \<in> set grp \<Longrightarrow> running_on (attempts s) v"
  shows "batch s0 (fold (request_preemption t n) grp (s, evs)) \<and>
    (\<exists>ats. fst (fold (request_preemption t n) grp (s, evs)) = s\<lparr>attempts := ats\<rparr> \<and> advanced (attempts s) ats)"
  using assms
proof (induction grp arbitrary: s evs)
  case Nil
  then show ?case by (auto intro!: exI [of _ "attempts s"])
next
  case (Cons vr grp)
  obtain ats evs' where s1: "request_preemption t n vr (s, evs) = (s\<lparr>attempts := ats\<rparr>, evs')" "advanced (attempts s) ats"
    "batch s0 (s\<lparr>attempts := ats\<rparr>, evs')"
    using request_step [OF Cons.prems(1), of vr t n] Cons.prems(2) [of "fst vr" "snd vr"]
    by (cases "request_preemption t n vr (s, evs)") auto
  have "batch s0 (fold (request_preemption t n) grp (s\<lparr>attempts := ats\<rparr>, evs')) \<and>
    (\<exists>ats'. fst (fold (request_preemption t n) grp (s\<lparr>attempts := ats\<rparr>, evs')) = s\<lparr>attempts := ats\<rparr>\<lparr>attempts := ats'\<rparr> \<and>
       advanced (attempts (s\<lparr>attempts := ats\<rparr>)) ats')"
    using Cons.prems(2) running_advanced [OF _ s1(2)] by (intro Cons.IH [OF s1(3)]) auto
  then show ?case using s1(1) advanced_trans [OF s1(2)] by auto
qed

section \<open>One placement\<close>

definition placeable :: "state_machine \<Rightarrow> accepted_placement \<Rightarrow> bool" where
  "placeable s ap \<longleftrightarrow> (case ap of (p, cutoff, grp) \<Rightarrow> \<exists>spec j. pl_allocations p = [spec] \<and>
     fmlookup (jobs s) (pl_job p) = Some j \<and> jr_state j = Queued \<and>
     tid_uuid (pl_group p) = tid_uuid (pl_job p) \<and>
     fmlookup (attempts s) (pl_attempt p) = None \<and> fmlookup (allocations s) (as_id spec) = None \<and>
     has_key (as_node spec) (nodes s) \<and> (\<forall>v reason. (v, reason) \<in> set grp \<longrightarrow> running_on (attempts s) v))"

lemma place_eq:
  assumes spec: "pl_allocations p = [spec]" and j: "fmlookup (jobs s) (pl_job p) = Some j" "jr_state j = Queued"
    and f: "funded = component_min (free_capacity s (as_node spec) (Some used)) (as_requested spec)"
    and r: "r = seat_attempt s j p spec (funded = as_requested spec) t cutoff"
  obtains evs' es where "place t (p, cutoff, grp) ((s, evs), used) =
      (fold (request_preemption t (as_node spec)) grp
         ((seated p spec funded r s)\<lparr>jobs := fmupd (pl_job p) (seated_job (pl_attempt p) j) (jobs s), quota_entities := es\<rparr>,
          (evs @ evs') @ [JobStateChanged (pl_job p) Queued (Attempting (pl_attempt p))]),
       memo_add (as_node spec) funded used)" "list_all pool_event evs'"
proof -
  let ?evs = "[AttemptStateChanged (pl_attempt p) (pl_job p) (as_node spec) (astate r)]
      @ (if funded = as_requested spec then [AllocationFunded (as_id spec) (pl_job p) (as_node spec)] else [])"
  let ?es = "update_ancestors QUOTA_TREE_DEPTH_CAP (usage_charge (ch_amount (atr_charge r)) t (po_decay (policy s)))
      (Some (j_quota_entity (jr_spec j))) (quota_entities s)"
  have "place t (p, cutoff, grp) ((s, evs), used) =
      (fold (request_preemption t (as_node spec)) grp
         ((seated p spec funded r s)\<lparr>jobs := fmupd (pl_job p) (seated_job (pl_attempt p) j) (jobs s), quota_entities := ?es\<rparr>,
          (evs @ ?evs) @ [JobStateChanged (pl_job p) Queued (Attempting (pl_attempt p))]),
       memo_add (as_node spec) funded used)"
    using spec j unfolding place_def r f
    by (simp add: Let_def seated_def seated_job_def charge_ancestors_def fmmodify_Some)
  then show thesis by (rule that) simp
qed

definition placed :: "placement \<Rightarrow> allocation_spec \<Rightarrow> state_machine \<Rightarrow> state_machine \<Rightarrow> bool" where
  "placed p spec s s' \<longleftrightarrow> (\<exists>r j. advanced (fmupd (pl_attempt p) r (attempts s)) (attempts s') \<and>
     jobs s' = fmupd (pl_job p) j (jobs s) \<and> (\<exists>al. allocations s' = fmupd (as_id spec) al (allocations s)) \<and>
     next_allocation_seq s' = next_allocation_seq s + 1)"

lemma place_step:
  assumes b: "batch s0 (s, evs)" and memo: "memo_ok (allocations s) (Some used)"
    and pl: "placeable s (p, cutoff, grp)" and spec: "pl_allocations p = [spec]"
    and room: "unat (next_allocation_seq s) + 1 < 2 ^ 64"
  obtains s' evs' used' where "place t (p, cutoff, grp) ((s, evs), used) = ((s', evs'), used')"
    "batch s0 (s', evs')" "memo_ok (allocations s') (Some used')" "placed p spec s s'"
proof -
  obtain j where j: "fmlookup (jobs s) (pl_job p) = Some j" "jr_state j = Queued"
    and fresh: "fmlookup (attempts s) (pl_attempt p) = None" "fmlookup (allocations s) (as_id spec) = None"
    and grp: "tid_uuid (pl_group p) = tid_uuid (pl_job p)" and node: "has_key (as_node spec) (nodes s)"
    and vs: "\<And>v reason. (v, reason) \<in> set grp \<Longrightarrow> running_on (attempts s) v"
    using pl spec by (auto simp: placeable_def)
  note c = batch_core [OF b]
  define funded where "funded = component_min (free_capacity s (as_node spec) (Some used)) (as_requested spec)"
  define r where "r = seat_attempt s j p spec (funded = as_requested spec) t cutoff"
  obtain new es where eq: "place t (p, cutoff, grp) ((s, evs), used) =
      (fold (request_preemption t (as_node spec)) grp
         ((seated p spec funded r s)\<lparr>jobs := fmupd (pl_job p) (seated_job (pl_attempt p) j) (jobs s), quota_entities := es\<rparr>,
          (evs @ new) @ [JobStateChanged (pl_job p) Queued (Attempting (pl_attempt p))]),
       memo_add (as_node spec) funded used)" and new: "list_all pool_event new"
    by (rule place_eq [OF spec j funded_def r_def])
  define s1 where "s1 = (seated p spec funded r s)\<lparr>jobs := fmupd (pl_job p) (seated_job (pl_attempt p) j) (jobs s), quota_entities := es\<rparr>"
  have idle: "attempt_terminal (astate br)" if "fmlookup (attempts s) b = Some br" "ajob br = pl_job p" for b br
    using core_attempt_link [OF c that(1)] that(2) j by (simp add: attempt_link_def)
  have ps: "pools {} (seated p spec funded r s)" "no_oversell s (seated p spec funded r s)"
    using pools_seated [OF core_pools [OF c] memo fresh node room idle grp funded_def r_def] by simp_all
  have f1: "attempts s1 = fmupd (pl_attempt p) r (attempts s)" "allocations s1 = allocations (seated p spec funded r s)"
    "jobs s1 = fmupd (pl_job p) (seated_job (pl_attempt p) j) (jobs s)" "nodes s1 = nodes s"
    "next_allocation_seq s1 = next_allocation_seq s + 1"
    by (simp_all add: s1_def seated_def)
  have rj: "ajob r = pl_job p" "\<not> attempt_terminal (astate r)" "attempt_ok r" by (simp_all add: r_def)
  have "job_link (jobs s1) (attempts s1)"
    unfolding f1 by (rule job_link_seat [OF core_link [OF c] j fresh(1) rj(1,2)])
  moreover have "attempts_ok (attempts s1)"
    using core_attempts [OF c] rj(3) by (simp add: attempts_ok_def f1)
  moreover have "pools {} s1" using ps(1) pools_cong [of s1 "seated p spec funded r s"] by (simp add: s1_def)
  ultimately have "core {} s1" by (simp add: core_def)
  moreover have "j_abort_requested (jr_spec j) = None"
    using j by (intro pending_abort_none [OF batch_aborts [OF b] j(1)]) simp_all
  then have "aborts_ok {} (jobs s1) (attempts s1)"
    unfolding f1 using fresh(1) by (intro aborts_job [OF aborts_attempts [OF batch_aborts [OF b]]]) auto
  moreover have "no_oversell s s1" using ps(2) cap_of_nodes [of s1 "seated p spec funded r s"]
    by (simp add: no_oversell_def f1 seated_def)
  moreover have "replay (new @ [JobStateChanged (pl_job p) Queued (Attempting (pl_attempt p))]) (states_of (jobs s)) =
      Some (states_of (jobs s1))"
    using new pool_event_quiet replay_quiet [of new] j by (simp add: replay_append f1 list_all_iff)
  ultimately have b1: "batch s0 (s1, evs @ (new @ [JobStateChanged (pl_job p) Queued (Attempting (pl_attempt p))]))"
    using f1(4) by (intro batch_step [OF b]) (simp_all add: sound_def)
  then obtain ats evs' where fin: "fold (request_preemption t (as_node spec)) grp
      (s1, (evs @ new) @ [JobStateChanged (pl_job p) Queued (Attempting (pl_attempt p))]) = (s1\<lparr>attempts := ats\<rparr>, evs')"
    "batch s0 (s1\<lparr>attempts := ats\<rparr>, evs')" "advanced (attempts s1) ats"
    using request_fold [OF b1, of grp t "as_node spec"] vs running_new [OF _ fresh(1)] f1(1)
    by (cases "fold (request_preemption t (as_node spec)) grp
      (s1, (evs @ new) @ [JobStateChanged (pl_job p) Queued (Attempting (pl_attempt p))])") fastforce
  have "memo_ok (allocations s1) (map_option (memo_add (as_node spec) funded) (Some used))"
    using held_seated(1) [OF pool_okD(2) [OF core_pool [OF c]] memo fresh(2) funded_def, of p r]
      no_overflowD [OF pool_okD(2) [OF pools_pool [OF ps(1)]], of "as_node spec"]
    by (intro memo_ok_add [OF memo]) (simp_all add: f1)
  then have "memo_ok (allocations (s1\<lparr>attempts := ats\<rparr>)) (Some (memo_add (as_node spec) funded used))" by simp
  moreover have "placed p spec s (s1\<lparr>attempts := ats\<rparr>)"
    using fin(3) f1 unfolding placed_def by (auto simp: s1_def seated_def)
  ultimately show thesis using that eq fin unfolding s1_def [symmetric] by simp
qed

lemma placeable_placed:
  assumes pl: "placeable s (p', cutoff, grp)" and pd: "placed p spec s s'" and nodes: "nodes s' = nodes s"
    and ne: "pl_job p' \<noteq> pl_job p" "pl_attempt p' \<noteq> pl_attempt p" "as_id (hd (pl_allocations p')) \<noteq> as_id spec"
    and fresh: "fmlookup (attempts s) (pl_attempt p) = None"
  shows "placeable s' (p', cutoff, grp)"
proof -
  obtain r j al where s': "advanced (fmupd (pl_attempt p) r (attempts s)) (attempts s')"
     "jobs s' = fmupd (pl_job p) j (jobs s)" "allocations s' = fmupd (as_id spec) al (allocations s)"
    using pd by (auto simp: placed_def)
  have "fmlookup (attempts s') (pl_attempt p') = None" if "fmlookup (attempts s) (pl_attempt p') = None"
    using s'(1) [unfolded advanced_def, rule_format, of "pl_attempt p'"] ne(2) that by simp
  moreover have "running_on (attempts s') v" if "running_on (attempts s) v" for v
    using running_advanced [OF running_new [OF that fresh] s'(1)] .
  moreover obtain spec' j' where
    "pl_allocations p' = [spec'] \<and> fmlookup (jobs s) (pl_job p') = Some j' \<and> jr_state j' = Queued \<and>
     tid_uuid (pl_group p') = tid_uuid (pl_job p') \<and>
     fmlookup (attempts s) (pl_attempt p') = None \<and> fmlookup (allocations s) (as_id spec') = None \<and>
     has_key (as_node spec') (nodes s) \<and> (\<forall>v reason. (v, reason) \<in> set grp \<longrightarrow> running_on (attempts s) v)"
    using pl by (auto simp: placeable_def)
  ultimately show ?thesis
    using s'(2,3) nodes ne unfolding placeable_def prod.case by (intro exI [of _ spec'] exI [of _ j']) auto
qed

lemma place_fold:
  assumes "batch s0 (s, evs)" "memo_ok (allocations s) (Some used)"
    "\<And>ap. ap \<in> set aps \<Longrightarrow> placeable s ap"
    "distinct (map (\<lambda>ap. pl_job (fst ap)) aps)" "distinct (map (\<lambda>ap. pl_attempt (fst ap)) aps)"
    "distinct (map (\<lambda>ap. as_id (hd (pl_allocations (fst ap)))) aps)"
    "unat (next_allocation_seq s) + length aps < 2 ^ 64"
  shows "batch s0 (fst (fold (place t) aps ((s, evs), used))) \<and>
    unat (next_allocation_seq (fst (fst (fold (place t) aps ((s, evs), used))))) = unat (next_allocation_seq s) + length aps"
  using assms
proof (induction aps arbitrary: s evs used)
  case (Cons ap aps)
  obtain p cutoff grp where ap: "ap = (p, cutoff, grp)" by (cases ap)
  have pl: "placeable s (p, cutoff, grp)" using Cons.prems(3) ap by simp
  then obtain spec where spec: "pl_allocations p = [spec]" and fresh: "fmlookup (attempts s) (pl_attempt p) = None"
    by (auto simp: placeable_def)
  have room: "unat (next_allocation_seq s) + 1 < 2 ^ 64" using Cons.prems(7) by simp
  obtain s' evs' used' where s': "place t (p, cutoff, grp) ((s, evs), used) = ((s', evs'), used')"
    "batch s0 (s', evs')" "memo_ok (allocations s') (Some used')" "placed p spec s s'"
    by (rule place_step [OF Cons.prems(1,2) pl spec room])
  have seq: "unat (next_allocation_seq s') = unat (next_allocation_seq s) + 1"
    using s'(4) unat_inc [OF room] by (auto simp: placed_def)
  have nd: "nodes s' = nodes s" using batch_nodes [OF s'(2)] batch_nodes [OF Cons.prems(1)] by simp
  have "placeable s' q" if q: "q \<in> set aps" for q
  proof -
    obtain p' cutoff' grp' where q': "q = (p', cutoff', grp')" by (cases q)
    have "pl_job p' \<noteq> pl_job p" "pl_attempt p' \<noteq> pl_attempt p" "as_id (hd (pl_allocations p')) \<noteq> as_id spec"
      using Cons.prems(4-6) q ap q' spec by force+
    then show ?thesis using Cons.prems(3) [of q] q placeable_placed [OF _ s'(4) nd _ _ _ fresh] by (simp add: q')
  qed
  then have "batch s0 (fst (fold (place t) aps ((s', evs'), used'))) \<and>
    unat (next_allocation_seq (fst (fst (fold (place t) aps ((s', evs'), used'))))) = unat (next_allocation_seq s') + length aps"
    using Cons.prems(4-7) seq by (intro Cons.IH [OF s'(2,3)]) simp_all
  then show ?case using s'(1) seq ap by simp
qed simp

section \<open>What validation establishes\<close>

text \<open>A victim the batch accepts is running on its allocation.\<close>

lemma validate_victim_running:
  assumes "validate_victim s p j n relocating used e check = (check', Inr out)"
  obtains al a where "fmlookup (allocations s) (ev_allocation e) = Some al"
    "fmlookup (attempts s) (kattempt al) = Some a" "astate a = Running"
  using assms by (auto simp: validate_victim_def refuse_def Let_def split: if_splits option.splits)

lemma victim_running:
  assumes ok: "pool_ok s" and al: "fmlookup (allocations s) v = Some al"
    and a: "fmlookup (attempts s) (kattempt al) = Some a" "astate a = Running"
  shows "running_on (attempts s) v"
proof -
  obtain r where "fmlookup (attempts s) (kattempt al) = Some r" "linked (kattempt al) r v al"
    using pool_allocation [OF pool_okD(1) [OF ok] al] by metis
  then show ?thesis using a by (auto simp: running_on_def linked_def)
qed

lemma validate_victims_running:
  assumes "pool_ok s" "validate_victims s p j n relocating used es check = (check', Inr (out, notice))"
    "(v, reason) \<in> set out"
  shows "running_on (attempts s) v"
  using assms(2,3)
proof (induction es arbitrary: check check' out notice)
  case (Cons e es)
  obtain c1 reason1 notice1 where v1: "validate_victim s p j n relocating used e check = (c1, Inr (reason1, notice1))"
    using Cons.prems(1) by (auto split: prod.splits sum.splits)
  then obtain out2 notice2 where v2: "validate_victims s p j n relocating used es c1 = (check', Inr (out2, notice2))"
    and out: "out = (ev_allocation e, reason1) # out2"
    using Cons.prems(1) by (auto split: prod.splits sum.splits)
  show ?case
  proof (cases "v = ev_allocation e")
    case True
    then show ?thesis using validate_victim_running [OF v1] victim_running [OF assms(1)] by metis
  next
    case False
    then show ?thesis using Cons.IH [OF v2] Cons.prems(2) out by simp
  qed
qed simp

lemma validate_preemptions_running:
  assumes "pool_ok s" "validate_preemptions s p revoked used check = (check', Inr grp)" "(v, reason) \<in> set grp"
  shows "running_on (attempts s) v"
  using assms(2,3) validate_victims_running [OF assms(1)]
  by (auto simp: validate_preemptions_def refuse_def Let_def simp del: validate_victims.simps split: list.splits option.splits if_splits prod.splits sum.splits)

lemma validate_placement_facts:
  assumes "validate_placement s p revoked seen_jobs seen_attempts seen_allocs bf = (bf', Inr cutoff)"
  obtains j spec where "fmlookup (jobs s) (pl_job p) = Some j" "jr_state j = Queued \<or> is_reseat s revoked j"
    "pl_job p |\<notin>| seen_jobs" "tid_uuid (pl_group p) = tid_uuid (pl_job p)" "pl_allocations p = [spec]"
    "fmlookup (attempts s) (pl_attempt p) = None" "pl_attempt p |\<notin>| seen_attempts"
    "fmlookup (allocations s) (as_id spec) = None" "as_id spec |\<notin>| seen_allocs" "has_key (as_node spec) (nodes s)"
proof -
  obtain j where j: "fmlookup (jobs s) (pl_job p) = Some j"
    using assms by (auto simp: validate_placement_def split: option.splits)
  then have len: "length (pl_allocations p) = 1"
    using assms by (auto simp: validate_placement_def Let_def split: if_splits)
  then obtain spec where spec: "pl_allocations p = [spec]" by (cases "pl_allocations p") auto
  show thesis
    by (rule that [OF j _ _ _ spec])
      (use assms j spec in \<open>auto simp: validate_placement_def Let_def split: if_splits option.splits\<close>)
qed

definition acceptable :: "state_machine \<Rightarrow> allocation_id fset \<Rightarrow> accepted_placement \<Rightarrow> bool" where
  "acceptable s revoked ap \<longleftrightarrow> (case ap of (p, cutoff, grp) \<Rightarrow> \<exists>spec j. pl_allocations p = [spec] \<and>
     fmlookup (jobs s) (pl_job p) = Some j \<and> (jr_state j = Queued \<or> is_reseat s revoked j) \<and>
     tid_uuid (pl_group p) = tid_uuid (pl_job p) \<and>
     fmlookup (attempts s) (pl_attempt p) = None \<and> fmlookup (allocations s) (as_id spec) = None \<and>
     has_key (as_node spec) (nodes s) \<and> (\<forall>v reason. (v, reason) \<in> set grp \<longrightarrow> running_on (attempts s) v))"

lemma validate_item_facts:
  assumes ok: "pool_ok s"
    and v: "validate_item s p revoked sj sa sl used bf preempt = (bf', preempt', Inr (cutoff, grp))"
  obtains spec where "acceptable s revoked (p, cutoff, grp)" "pl_allocations p = [spec]"
    "pl_job p |\<notin>| sj" "pl_attempt p |\<notin>| sa" "as_id spec |\<notin>| sl"
proof -
  obtain bf1 where vp: "validate_placement s p revoked sj sa sl bf = (bf1, Inr cutoff)"
    using v by (auto simp: validate_item_def split: prod.splits sum.splits option.splits)
  have grp: "running_on (attempts s) x" if x: "(x, reason) \<in> set grp" for x reason
  proof (cases preempt)
    case None
    then show ?thesis using v vp x by (simp add: validate_item_def)
  next
    case (Some check)
    then obtain check' where "validate_preemptions s p revoked used check = (check', Inr grp)"
      using v vp by (auto simp: validate_item_def split: prod.splits sum.splits)
    then show ?thesis using validate_preemptions_running [OF ok _ x] by blast
  qed
  show thesis
  proof (rule validate_placement_facts [OF vp])
    fix j spec
    assume "fmlookup (jobs s) (pl_job p) = Some j" "jr_state j = Queued \<or> is_reseat s revoked j" "pl_job p |\<notin>| sj"
      "tid_uuid (pl_group p) = tid_uuid (pl_job p)" "pl_allocations p = [spec]"
      "fmlookup (attempts s) (pl_attempt p) = None" "pl_attempt p |\<notin>| sa"
      "fmlookup (allocations s) (as_id spec) = None" "as_id spec |\<notin>| sl" "has_key (as_node spec) (nodes s)"
    then show thesis using that [of spec] grp by (auto simp: acceptable_def)
  qed
qed

lemma validate_placements_ok:
  assumes ok: "pool_ok s" and v: "validate_placements s ps idx revoked sj sa sl used bf preempt = ([], acc)"
  shows "map fst acc = ps \<and> (\<forall>ap \<in> set acc. acceptable s revoked ap) \<and>
    distinct (map pl_job ps) \<and> set (map pl_job ps) \<inter> fset sj = {} \<and>
    distinct (map pl_attempt ps) \<and> set (map pl_attempt ps) \<inter> fset sa = {} \<and>
    distinct (map (\<lambda>p. as_id (hd (pl_allocations p))) ps) \<and>
    set (map (\<lambda>p. as_id (hd (pl_allocations p))) ps) \<inter> fset sl = {}"
  using v
proof (induction ps arbitrary: idx sj sa sl bf preempt acc)
  case (Cons p ps)
  obtain bf' preempt' cutoff grp where v: "validate_item s p revoked sj sa sl used bf preempt = (bf', preempt', Inr (cutoff, grp))"
    using Cons.prems by (auto simp: Let_def split: prod.splits sum.splits)
  obtain spec where p: "acceptable s revoked (p, cutoff, grp)" "pl_allocations p = [spec]"
    "pl_job p |\<notin>| sj" "pl_attempt p |\<notin>| sa" "as_id spec |\<notin>| sl"
    by (rule validate_item_facts [OF ok v])
  obtain acc' where rest: "validate_placements s ps (idx + 1) revoked (finsert (pl_job p) sj) (finsert (pl_attempt p) sa)
      (finsert (as_id spec) sl) used bf' preempt' = ([], acc')" and acc: "acc = (p, cutoff, grp) # acc'"
    using Cons.prems v p(2) by (auto simp: Let_def split: prod.splits)
  show ?case using Cons.IH [OF rest] p acc by auto
qed simp

section \<open>The batch\<close>

lemma acceptable_placeable:
  assumes acc: "acceptable s0 D ap" and rv: "revoking s0 (fset D) ((s, evs), used)" and sd: "sound s0"
    and rk: "\<And>k. k |\<in>| D \<Longrightarrow> \<exists>al. fmlookup (allocations s0) k = Some al \<and> kstate al = Accruing"
  shows "placeable s ap"
proof -
  obtain p cutoff grp where ap: "ap = (p, cutoff, grp)" by (cases ap)
  have p: "progress {} {} s0 (s, evs)" and sv: "survives (fset D) (attempts s0) (attempts s)" and rq: "requeued (fset D) s0 s"
    using rv by (simp_all add: revoking_def)
  have c: "core {} s" "core {} s0" using progress_core [OF p] soundD(1) [OF sd] by simp_all
  obtain spec j where a: "pl_allocations p = [spec]" "fmlookup (jobs s0) (pl_job p) = Some j"
    "jr_state j = Queued \<or> is_reseat s0 D j" "tid_uuid (pl_group p) = tid_uuid (pl_job p)"
    "fmlookup (attempts s0) (pl_attempt p) = None" "fmlookup (allocations s0) (as_id spec) = None"
    "has_key (as_node spec) (nodes s0)" "\<forall>v reason. (v, reason) \<in> set grp \<longrightarrow> running_on (attempts s0) v"
    using acc by (auto simp: acceptable_def ap)
  obtain j' where j': "fmlookup (jobs s) (pl_job p) = Some j'" "jr_state j' = Queued"
  proof -
    obtain j' where *: "fmlookup (jobs s) (pl_job p) = Some j'" "jr_state j = Queued \<longrightarrow> jr_state j' = Queued"
      "\<forall>b br. jr_state j = Attempting b \<longrightarrow> fmlookup (attempts s0) b = Some br \<longrightarrow> aalloc br \<in> fset D \<longrightarrow> jr_state j' = Queued"
      using rq [unfolded requeued_def, rule_format, OF a(2)] by blast
    have "jr_state j' = Queued"
    proof (cases "jr_state j = Queued")
      case False
      then have "is_reseat s0 D j" using a(3) by simp
      then obtain b br where "jr_state j = Attempting b" "fmlookup (attempts s0) b = Some br" "aalloc br |\<in>| D"
        by (cases "jr_state j") (auto simp: is_reseat_def split: option.splits)
      then show ?thesis using *(3) by blast
    qed (use *(2) in simp)
    then show thesis using that *(1) by blast
  qed
  have "fmlookup (attempts s) (pl_attempt p) = None" using survives_dom [OF sv] a(5) by simp
  moreover have "fmlookup (allocations s) (as_id spec) = None"
  proof (rule ccontr)
    assume "fmlookup (allocations s) (as_id spec) \<noteq> None"
    then obtain al where al: "fmlookup (allocations s) (as_id spec) = Some al" by blast
    obtain r where r: "fmlookup (attempts s) (kattempt al) = Some r" "linked (kattempt al) r (as_id spec) al"
      using pool_allocation [OF pool_okD(1) [OF core_pool [OF c(1)]] al] by metis
    obtain r0 where r0: "fmlookup (attempts s0) (kattempt al) = Some r0"
      using survives_dom [OF sv, of "kattempt al"] r(1) by (cases "fmlookup (attempts s0) (kattempt al)") auto
    then have "aalloc r0 = as_id spec" using survivesD [OF sv r0] r by (auto simp: same_attempt_def linked_def)
    then show False using pool_attempt_alloc [OF core_pool [OF c(2)] r0] a(6) by auto
  qed
  moreover have "running_on (attempts s) v" if v: "(v, reason) \<in> set grp" for v reason
  proof -
    obtain b br where b: "fmlookup (attempts s0) b = Some br" "aalloc br = v" "astate br = Running"
      using a(8) v by (auto simp: running_on_def)
    have "aalloc br \<notin> fset D"
    proof
      assume "aalloc br \<in> fset D"
      then obtain al where "fmlookup (allocations s0) (aalloc br) = Some al" "kstate al = Accruing" using rk by auto
      then show False using pool_attempt_alloc [OF core_pool [OF c(2)] b(1)] b(3) by auto
    qed
    then show ?thesis using survivesD [OF sv b(1)] b(2,3) by (auto simp: running_on_def same_attempt_def)
  qed
  moreover have "nodes s = nodes s0" using core_frameD(1) [OF progress_frame [OF p]] by simp
  ultimately show ?thesis using a j' unfolding ap placeable_def prod.case by (intro exI [of _ spec] exI [of _ j']) auto
qed

text \<open>A memo that is passed is returned.\<close>

lemma pledge_loop_memo: "fst (snd (pledge_loop n queue free used eff)) = None \<longleftrightarrow> used = None"
proof (induction n queue free used eff rule: pledge_loop.induct)
  case (2 n seq al queue free used s evs)
  then show ?case by (simp add: Let_def case_prod_unfold split: option.split)
qed simp

lemma pledge_node_memo: "snd (pledge_node n used eff) = None \<longleftrightarrow> used = None"
  by (simp add: pledge_node_def Let_def case_prod_unfold pledge_loop_memo)

lemma release_memo: "snd (release_allocation k pledge used eff) = None \<longleftrightarrow> used = None"
  by (cases eff) (simp add: Let_def pledge_node_memo split: option.split)

lemma terminate_memo: "snd (terminate_attempt a outcome rt t pledge used eff) = None \<longleftrightarrow> used = None"
  by (cases eff) (simp add: Let_def case_prod_unfold release_memo
      del: attempt_transition.simps release_allocation.simps resolve_job.simps split: option.split)

lemma revoke_memo: "snd (revoke_allocation t k st) = None \<longleftrightarrow> snd st = None"
  by (simp add: revoke_allocation_def terminate_memo del: terminate_attempt.simps split: option.split)

lemma revoke_fold_memo: "snd (fold (revoke_allocation t) ks st) = None \<longleftrightarrow> snd st = None"
  by (induction ks arbitrary: st) (simp_all add: revoke_memo)

lemma commit_placements_batch:
  assumes sd: "sound s" and h: "commit_placements c s = (s', Inr evs)"
    and room: "unat (next_allocation_seq s) + length (cp_placements c) < 2 ^ 64"
  shows "batch s (s', evs) \<and>
    unat (next_allocation_seq s') = unat (next_allocation_seq s) + length (cp_placements c)"
proof -
  note c0 = soundD(1) [OF sd]
  let ?used = "used_capacity_memo s"
  obtain idx D acc bf where vr: "validate_revocations s (cp_revocations c) 0 {||} = ([], idx, D)"
    and vp: "validate_placements s (cp_placements c) idx D {||} {||} {||} ?used bf (preempt_check_for_batch s c) = ([], acc)"
    and eff: "commit_effects c acc ?used s = (s', evs)"
    using h by (auto simp: commit_placements_def batch_validation_def Let_def split: prod.splits if_splits option.splits)
  have r: "distinct (cp_revocations c)" "fset D = set (cp_revocations c)"
    "\<forall>k \<in> set (cp_revocations c). \<exists>al. fmlookup (allocations s) k = Some al \<and> kstate al = Accruing"
    using validate_revocations_ok [OF vr] by simp_all
  have p: "map fst acc = cp_placements c" "\<forall>ap \<in> set acc. acceptable s D ap" "distinct (map pl_job (cp_placements c))"
    "distinct (map pl_attempt (cp_placements c))" "distinct (map (\<lambda>p. as_id (hd (pl_allocations p))) (cp_placements c))"
    using validate_placements_ok [OF core_pool [OF c0] vp] by simp_all
  have start: "revoking s {} ((s, []), Some ?used)"
    using soundD(2) [OF sd] memo_ok_scan [OF pool_okD(2) [OF core_pool [OF c0]]] by (auto simp: revoking_def requeued_def)
  obtain s1 evs1 used1 where s1: "fold (revoke_allocation (cp_proposed_at c)) (cp_revocations c) ((s, []), Some ?used) =
      ((s1, evs1), used1)" by (metis surj_pair)
  have rv: "revoking s (fset D) ((s1, evs1), used1)"
    using revoke_fold [OF start sd r(1), of "cp_proposed_at c"] r s1 by simp
  have pb: "progress {} {} s (s1, evs1)" and m1: "memo_ok (allocations s1) used1" using rv by (simp_all add: revoking_def)
  obtain m where m: "used1 = Some m"
    using revoke_fold_memo [of "cp_proposed_at c" "cp_revocations c" "((s, []), Some ?used)"] s1 by (cases used1) auto
  have seq1: "next_allocation_seq s1 = next_allocation_seq s" using core_frameD(3) [OF progress_frame [OF pb]] by simp
  have pl: "placeable s1 ap" if "ap \<in> set acc" for ap
    using acceptable_placeable [OF _ rv sd, of ap] p(2) r that by blast
  have len: "length acc = length (cp_placements c)" using arg_cong [OF p(1), of length] by simp
  have d: "distinct (map (\<lambda>ap. pl_job (fst ap)) acc)" "distinct (map (\<lambda>ap. pl_attempt (fst ap)) acc)"
    "distinct (map (\<lambda>ap. as_id (hd (pl_allocations (fst ap)))) acc)"
    using p(3-5) unfolding p(1) [symmetric] map_map comp_def .
  have "(s', evs) = fst (fold (place (cp_proposed_at c)) acc ((s1, evs1), m))"
    using eff s1 m by (simp add: commit_effects_def)
  moreover have "batch s (fst (fold (place (cp_proposed_at c)) acc ((s1, evs1), m))) \<and>
    unat (next_allocation_seq (fst (fst (fold (place (cp_proposed_at c)) acc ((s1, evs1), m))))) =
      unat (next_allocation_seq s1) + length acc"
    using room len seq1 by (intro place_fold [OF progress_batch [OF pb] m1 [unfolded m] pl d]) simp_all
  ultimately show ?thesis using seq1 len by (metis fst_conv)
qed

end
