(* ===== verification/Log.thy ===== *)
theory Log
  imports Core_Placement
begin

text \<open>
  The replicated log: what holds after every committed command holds after a whole log. The contract is
  a locale over a step function; the state machine's own step, \<open>apply\<close> of \<open>coppice-state/src/apply.rs\<close>,
  interprets it once for every invariant the development proves.
\<close>

section \<open>Invariants of a log\<close>

locale log_invariant =
  fixes step :: "'c \<Rightarrow> 's \<Rightarrow> 's" and inv :: "'s \<Rightarrow> bool" and admits :: "'c list \<Rightarrow> 's \<Rightarrow> bool"
  assumes step_inv: "inv s \<Longrightarrow> admits (c # cs) s \<Longrightarrow> inv (step c s)"
    and step_admits: "inv s \<Longrightarrow> admits (c # cs) s \<Longrightarrow> admits cs (step c s)"
begin

lemma log_inv: "inv s \<Longrightarrow> admits cs s \<Longrightarrow> inv (fold step cs s)"
  by (induction cs arbitrary: s) (simp_all add: step_inv step_admits)

lemma log_split:
  "inv s \<Longrightarrow> admits (cs @ ds) s \<Longrightarrow> inv (fold step cs s) \<and> admits ds (fold step cs s)"
  by (induction cs arbitrary: s) (simp_all add: step_inv step_admits)

end

text \<open>An invariant that every log keeps.\<close>

locale unconditional = log_invariant step inv "\<lambda>_ _. True"
  for step :: "'c \<Rightarrow> 's \<Rightarrow> 's" and inv :: "'s \<Rightarrow> bool"
begin

lemma always: "inv s \<Longrightarrow> inv (fold step cs s)"
  by (rule log_inv) simp_all

end

abbreviation step_of :: "externals \<Rightarrow> command \<Rightarrow> state_machine \<Rightarrow> state_machine" where
  "step_of ext cmd s \<equiv> fst (apply_command ext cmd s)"

section \<open>The core along the log\<close>

definition placements_of :: "command \<Rightarrow> nat" where
  "placements_of cmd = (case cmd of CommitPlacements c \<Rightarrow> length (cp_placements c) | _ \<Rightarrow> 0)"

text \<open>The log fits the allocation counter, a \<open>u64\<close> that every placement advances by one.\<close>

definition log_fits :: "command list \<Rightarrow> state_machine \<Rightarrow> bool" where
  "log_fits cmds s \<longleftrightarrow> unat (next_allocation_seq s) + sum_list (map placements_of cmds) < 2 ^ 64"

lemma keepsD:
  assumes "keeps h" "sound s" "h s = (s', Inr evs)"
  shows "sound s' \<and> next_allocation_seq s' = next_allocation_seq s \<and> no_oversell s s' \<and>
    replay evs (states_of (jobs s)) = Some (states_of (jobs s'))"
  using assms unfolding keeps_def by blast

lemma dispatch_keeps:
  assumes "\<nexists>c. cmd = CommitPlacements c"
  shows "keeps (dispatch ext cmd)"
  using assms core_handlers by (cases cmd) (simp_all add: dispatch_def [abs_def])

lemma dispatch_sound:
  assumes sd: "sound s" and h: "dispatch ext cmd s = (s', Inr evs)"
    and room: "unat (next_allocation_seq s) + placements_of cmd < 2 ^ 64"
  shows "sound s' \<and> no_oversell s s' \<and> replay evs (states_of (jobs s)) = Some (states_of (jobs s')) \<and>
    unat (next_allocation_seq s') = unat (next_allocation_seq s) + placements_of cmd"
proof (cases "\<exists>c. cmd = CommitPlacements c")
  case True
  then obtain c where cmd: "cmd = CommitPlacements c" by blast
  then have "commit_placements c s = (s', Inr evs)" using h by (simp add: dispatch_def)
  then show ?thesis
    using commit_placements_batch [OF sd, of c s' evs] room cmd by (simp add: batch_def placements_of_def)
next
  case False
  then have k: "keeps (dispatch ext cmd)" by (rule dispatch_keeps)
  have "placements_of cmd = 0" using False by (cases cmd) (simp_all add: placements_of_def)
  then show ?thesis using keepsD [OF k sd h] by simp
qed

lemma sound_version: "sound (s\<lparr>version := v\<rparr>) \<longleftrightarrow> sound s"
  by (simp add: sound_def core_cong [of "s\<lparr>version := v\<rparr>" s])

lemma no_oversell_version [simp]: "no_oversell s (s'\<lparr>version := v\<rparr>) \<longleftrightarrow> no_oversell s s'"
  using cap_of_nodes [of "s'\<lparr>version := v\<rparr>" s'] by (simp add: no_oversell_def)

fun events_of :: "apply_result \<Rightarrow> event list" where
  "events_of (s, Inl r) = []"
| "events_of (s, Inr evs) = evs"

lemma apply_refused: "snd (apply_command ext cmd s) = Inl r \<Longrightarrow> step_of ext cmd s = s\<lparr>version := version s + 1\<rparr>"
  using dispatch_atomic [of ext cmd] by (cases "dispatch ext cmd s") (auto simp: apply_command_def atomic_def)

lemma apply_accepted:
  "snd (apply_command ext cmd s) = Inr evs \<Longrightarrow>
     \<exists>s'. dispatch ext cmd s = (s', Inr evs) \<and> step_of ext cmd s = s'\<lparr>version := version s' + 1\<rparr>"
  by (cases "dispatch ext cmd s") (auto simp: apply_command_def)

text \<open>One committed command, accepted or refused.\<close>

lemma apply_sound:
  assumes sd: "sound s" and room: "unat (next_allocation_seq s) + placements_of cmd < 2 ^ 64"
  shows "sound (step_of ext cmd s) \<and> no_oversell s (step_of ext cmd s) \<and>
    replay (events_of (apply_command ext cmd s)) (states_of (jobs s)) = Some (states_of (jobs (step_of ext cmd s))) \<and>
    unat (next_allocation_seq (step_of ext cmd s)) \<le> unat (next_allocation_seq s) + placements_of cmd"
proof (cases "snd (apply_command ext cmd s)")
  case (Inl r)
  then have "events_of (apply_command ext cmd s) = []" by (cases "apply_command ext cmd s") simp
  then show ?thesis using sd apply_refused [OF Inl] by (simp add: sound_version)
next
  case (Inr evs)
  obtain s' where s': "dispatch ext cmd s = (s', Inr evs)" "step_of ext cmd s = s'\<lparr>version := version s' + 1\<rparr>"
    using apply_accepted [OF Inr] by blast
  moreover have "events_of (apply_command ext cmd s) = evs" using Inr by (cases "apply_command ext cmd s") simp
  ultimately show ?thesis using dispatch_sound [OF sd s'(1) room] by (simp add: sound_version)
qed

interpretation core_log: log_invariant "step_of ext" sound log_fits for ext
proof
  fix s c and cs :: "command list"
  assume s: "sound s" "log_fits (c # cs) s"
  then have "unat (next_allocation_seq s) + placements_of c < 2 ^ 64" by (simp add: log_fits_def)
  note step = apply_sound [OF s(1) this, of ext]
  show "sound (step_of ext c s)" using step by simp
  show "log_fits cs (step_of ext c s)" using step s(2) by (simp add: log_fits_def)
qed

lemma run_log_fold: "run_log ext cmds s = fold (step_of ext) cmds s"
  by (simp add: run_log_def)

text \<open>A log from the empty state fits when it seats fewer than \<open>2 ^ 64\<close> placements.\<close>

abbreviation log_bounded :: "command list \<Rightarrow> bool" where
  "log_bounded cmds \<equiv> sum_list (map placements_of cmds) < 2 ^ 64"

lemma log_fits_default: "log_bounded cmds \<Longrightarrow> log_fits cmds state_default"
  by (simp add: log_fits_def state_default_def)

lemma run_log_sound: "log_bounded cmds \<Longrightarrow> sound (run_log ext cmds state_default)"
  unfolding run_log_fold by (rule core_log.log_inv [OF sound_default log_fits_default])

section \<open>The events of a log\<close>

text \<open>The events the machine emits along a log, in order.\<close>

fun log_events :: "externals \<Rightarrow> command list \<Rightarrow> state_machine \<Rightarrow> event list" where
  "log_events ext [] s = []"
| "log_events ext (c # cs) s = events_of (apply_command ext c s) @ log_events ext cs (step_of ext c s)"

lemma log_replay:
  assumes "sound s" "log_fits cmds s"
  shows "replay (log_events ext cmds s) (states_of (jobs s)) = Some (states_of (jobs (run_log ext cmds s)))"
  using assms
proof (induction cmds arbitrary: s)
  case (Cons c cs)
  have "unat (next_allocation_seq s) + placements_of c < 2 ^ 64" using Cons.prems by (simp add: log_fits_def)
  note step = apply_sound [OF Cons.prems(1) this, of ext]
  have "replay (log_events ext cs (step_of ext c s)) (states_of (jobs (step_of ext c s))) =
      Some (states_of (jobs (run_log ext cs (step_of ext c s))))"
    by (rule Cons.IH [OF core_log.step_inv [OF Cons.prems] core_log.step_admits [OF Cons.prems]])
  then show ?case using step by (simp add: replay_append run_log_def)
qed (simp add: run_log_def)

end
