(* ===== verification/Footprint.thy ===== *)
theory Footprint
  imports Log
begin

text \<open>
  The footprint of the scheduling commands. Every handler for jobs, attempts, nodes and housekeeping is
  built from a few primitive updates. The contract is a locale over a relation between the state before
  and the state after: a reflexive and transitive relation that every primitive update respects is
  respected by every one of these handlers. Each helper is looked at once, for all such relations.
\<close>

locale footprint =
  fixes rel :: "state_machine \<Rightarrow> state_machine \<Rightarrow> bool"
  assumes rel_refl: "rel s s"
    and rel_trans: "rel a b \<Longrightarrow> rel b c \<Longrightarrow> rel a c"
    and attempts_upd: "rel s (s\<lparr>attempts := ats\<rparr>)"
    and allocations_upd: "rel s (s\<lparr>next_allocation_seq := sq, allocations := als, accrual_queue := q\<rparr>)"
    and job_upd: "fmlookup (jobs s) j = Some r \<Longrightarrow> j_quota_entity (jr_spec r') = j_quota_entity (jr_spec r) \<Longrightarrow>
      rel s (s\<lparr>jobs := fmupd j r' (jobs s)\<rparr>)"
    and job_new: "has_key (j_quota_entity (jr_spec r')) (quota_entities s) \<Longrightarrow> rel s (s\<lparr>jobs := fmupd j r' (jobs s)\<rparr>)"
    and job_drop: "rel s (s\<lparr>jobs := fmdrop j (jobs s)\<rparr>)"
    and node_upd: "(\<And>nr. fmlookup (nodes s) n = Some nr \<Longrightarrow> nd_id (nr_node nr') = nd_id (nr_node nr)) \<Longrightarrow>
      (fmlookup (nodes s) n = None \<Longrightarrow> nd_id (nr_node nr') = n) \<Longrightarrow> rel s (s\<lparr>nodes := fmupd n nr' (nodes s)\<rparr>)"
    and node_drop: "rel s (s\<lparr>nodes := fmdrop n (nodes s)\<rparr>)"
    and quota_upd: "rel s (charge_ancestors e amount t s)" "rel s (settle_ancestors e u t s)"
begin

lemma rel_fold: "(\<And>x eff. rel (g eff) (g (f x eff))) \<Longrightarrow> rel (g eff) (g (fold f xs eff))"
proof (induction xs arbitrary: eff)
  case (Cons x xs)
  have "rel (g (f x eff)) (g (fold f xs (f x eff)))" by (rule Cons.IH [OF Cons.prems])
  then show ?case using rel_trans [OF Cons.prems [of eff x]] by simp
qed (simp add: rel_refl)

lemma job_modify:
  assumes "\<And>r. j_quota_entity (jr_spec (f r)) = j_quota_entity (jr_spec r)"
  shows "rel s (s\<lparr>jobs := fmmodify j f (jobs s)\<rparr>)"
proof (cases "fmlookup (jobs s) j")
  case None
  then show ?thesis by (simp add: fmmodify_def rel_refl)
next
  case (Some r)
  then show ?thesis using job_upd [OF Some assms] by (simp add: fmmodify_def)
qed

lemma rel_upd:
  "rel s (s\<lparr>allocations := als\<rparr>)" "rel s (s\<lparr>allocations := als, accrual_queue := q\<rparr>)"
  "rel s (s\<lparr>accrual_queue := q\<rparr>)"
  using allocations_upd [where s = s and sq = "next_allocation_seq s" and als = als and q = "accrual_queue s"]
    allocations_upd [where s = s and sq = "next_allocation_seq s" and als = als and q = q]
    allocations_upd [where s = s and sq = "next_allocation_seq s" and als = "allocations s" and q = q] by simp_all

lemmas rel_basic = rel_refl attempts_upd allocations_upd rel_upd quota_upd

section \<open>Effects\<close>

lemma job_transition_rel: "rel (fst eff) (fst (job_transition j to eff))"
  by (cases eff) (simp add: rel_basic job_upd split: option.split)

lemma attempt_transition_rel: "rel (fst eff) (fst (attempt_transition a to eff))"
  by (cases eff) (simp add: rel_basic split: option.split)

lemma job_terminal_transition_rel: "rel (fst eff) (fst (job_terminal_transition j to t eff))"
proof (cases eff)
  case (Pair s evs)
  define s1 where "s1 = s\<lparr>jobs := fmmodify j (\<lambda>r. if jr_terminal_at r = None then r\<lparr>jr_terminal_at := Some t\<rparr> else r) (jobs s)\<rparr>"
  have 1: "rel s s1" unfolding s1_def by (rule job_modify) simp
  have "job_terminal_transition j to t eff = job_transition j to (s1, evs)" by (simp add: Pair s1_def)
  then show ?thesis using rel_trans [OF 1 job_transition_rel [of "(s1, evs)", unfolded fst_conv]] by (simp only: Pair fst_conv)
qed

lemma mark_attempt_running_rel: "rel (fst eff) (fst (mark_attempt_running a t eff))"
proof (cases eff)
  case (Pair s evs)
  show ?thesis
  proof (cases "fmlookup (attempts s) a")
    case (Some r)
    let ?s = "s\<lparr>attempts := fmupd a (if atr_started_at r = None then r\<lparr>atr_started_at := Some t\<rparr> else r) (attempts s)\<rparr>"
    have "rel s (fst (attempt_transition a Running (?s, evs)))"
      by (rule rel_trans [OF attempts_upd attempt_transition_rel [of "(?s, evs)", unfolded fst_conv]])
    from rel_trans [OF this rel_upd(1)] show ?thesis
      using Some Pair by (auto simp: Let_def case_prod_unfold simp del: attempt_transition.simps)
  qed (simp add: Pair rel_refl)
qed

lemma pledge_loop_rel: "rel (fst eff) (fst (fst (pledge_loop n queue free used eff)))"
proof (induction queue arbitrary: free used eff)
  case (Cons x queue)
  obtain s evs where eff: "eff = (s, evs)" by (cases eff)
  obtain seq k where x: "x = (seq, k)" by (cases x)
  note IH = Cons.IH [of "(s1, evs1)" for s1 evs1, simplified]
  have upd: "rel s (fst (fst (pledge_loop n queue f u (s\<lparr>allocations := a, accrual_queue := q\<rparr>, es))))" for f u a q es
    by (rule rel_trans [OF _ IH]) (rule rel_upd)
  have upd': "rel s (fst (fst (pledge_loop n queue f u (s\<lparr>allocations := a\<rparr>, es))))" for f u a es
    by (rule rel_trans [OF _ IH]) (rule rel_upd)
  show ?case
    using IH upd upd' by (simp add: eff x Let_def case_prod_unfold rel_refl split: option.split)
qed (simp add: rel_refl)

lemma ready_rel: "rel (fst eff) (fst (ready_if_accruing a eff))"
  using attempt_transition_rel by (simp add: ready_if_accruing_def rel_refl)

lemma barrier_rel: "rel (fst eff) (fst (barrier_of al eff))"
  using rel_fold [of fst ready_if_accruing, OF ready_rel]
  by (simp add: barrier_of_def check_ready_barrier_def Let_def rel_refl split: option.split)

lemma pledge_node_rel: "rel (fst eff) (fst (fst (pledge_node n used eff)))"
proof -
  have "rel (fst eff) (fst (fold barrier_of (snd (snd (pledge_loop n q f used eff))) (fst (pledge_loop n q f used eff))))" for q f
    using rel_trans [OF pledge_loop_rel rel_fold [of fst barrier_of, OF barrier_rel]] .
  then show ?thesis by (simp add: pledge_node_def Let_def case_prod_unfold rel_refl)
qed

lemma release_rel: "rel (fst eff) (fst (fst (release_allocation al pledge used eff)))"
proof (cases eff)
  case (Pair s evs)
  have 1: "rel s (fst (fst (pledge_node n u (s\<lparr>allocations := a, accrual_queue := q\<rparr>, evs))))" for n u a q
    by (rule rel_trans [OF rel_upd(2) pledge_node_rel [of "(s\<lparr>allocations := a, accrual_queue := q\<rparr>, evs)" for a q, unfolded fst_conv]])
  have "rel s (fst (fst (pledge_node n u (s\<lparr>allocations := a\<rparr>, evs))))" for n u a
    by (rule rel_trans [OF rel_upd(1) pledge_node_rel [of "(s\<lparr>allocations := a\<rparr>, evs)" for a, unfolded fst_conv]])
  then show ?thesis using 1 by (simp add: Pair Let_def rel_basic split: option.split)
qed

lemma resolve_job_rel: "rel (fst eff) (fst (resolve_job j outcome t eff))"
proof (cases eff)
  case (Pair s evs)
  let ?retry = "s\<lparr>jobs := fmmodify j (\<lambda>r. r\<lparr>jr_retries_used := jr_retries_used r + 1\<rparr>) (jobs s)\<rparr>"
  have "rel s (fst (job_transition j Queued (?retry, evs)))"
    by (rule rel_trans [OF job_modify job_transition_rel [of "(?retry, evs)", unfolded fst_conv]]) simp
  then show ?thesis
    using job_terminal_transition_rel [of "(s, evs)"] job_transition_rel [of "(s, evs)"]
    by (simp add: Pair rel_refl del: job_transition.simps job_terminal_transition.simps split: option.split resolution.split)
qed

lemma terminate_rel: "rel (fst eff) (fst (fst (terminate_attempt a outcome rt t pledge used eff)))"
proof (cases eff)
  case (Pair s evs)
  show ?thesis
  proof (cases "\<exists>r. fmlookup (attempts s) a = Some r \<and> \<not> attempt_terminal (astate r)")
    case True
    then obtain r where r: "fmlookup (attempts s) a = Some r" "\<not> attempt_terminal (astate r)" by blast
    obtain s1 evs1 where tr: "attempt_transition a (Terminal outcome) (s, evs) = (s1, evs1)" by (metis surj_pair)
    define s2 where "s2 = s1\<lparr>attempts := fmmodify a
        (\<lambda>a. if atr_ended_at a = None then a\<lparr>atr_ended_at := Some t\<rparr> else a) (attempts s1)\<rparr>"
    obtain s3 evs3 used3 where rel3: "release_allocation (aalloc r) pledge used (s2, evs1) = ((s3, evs3), used3)"
      by (metis surj_pair)
    have "rel s s1" using attempt_transition_rel [of "(s, evs)" a "Terminal outcome"] tr
      by (simp del: attempt_transition.simps)
    then have b2: "rel s s2" unfolding s2_def by (rule rel_trans [OF _ attempts_upd])
    have "rel s2 s3" using release_rel [of "(s2, evs1)" "aalloc r" pledge used] rel3
      by (simp del: release_allocation.simps)
    then have b3: "rel s s3" by (rule rel_trans [OF b2])
    define actual where "actual = actual_cost_of r rt"
    define adj where "adj = settle_true_up (atr_charge r) actual t (po_decay (policy s3)) (retains r outcome)"
    define s4 where "s4 = s3\<lparr>attempts := fmmodify a (\<lambda>a. if atr_settlement a = None
        then a\<lparr>atr_settlement := Some \<lparr>st_actual_cost = actual, st_true_up = adj\<rparr>\<rparr> else a) (attempts s3)\<rparr>"
    define s5 where "s5 = (case fmlookup (jobs s4) (ajob r) of None \<Rightarrow> s4
        | Some jr \<Rightarrow> settle_ancestors (j_quota_entity (jr_spec jr)) adj t s4)"
    have b4: "rel s s4" unfolding s4_def by (rule rel_trans [OF b3 attempts_upd])
    have "rel s4 s5" by (simp add: s5_def rel_refl quota_upd split: option.split)
    then have b5: "rel s s5" by (rule rel_trans [OF b4])
    have "fst (terminate_attempt a outcome rt t pledge used (s, evs)) = resolve_job (ajob r) outcome t (s5, evs3)"
      using r unfolding s5_def s4_def adj_def actual_def
      by (cases "fmlookup (jobs s3) (ajob r)") (simp_all add: tr rel3 [unfolded s2_def] Let_def
          del: attempt_transition.simps release_allocation.simps resolve_job.simps)
    then show ?thesis
      using rel_trans [OF b5 resolve_job_rel [of "(s5, evs3)" "ajob r" outcome t, unfolded fst_conv]] by (simp only: Pair fst_conv)
  next
    case False
    then show ?thesis by (auto simp: Pair rel_refl split: option.split)
  qed
qed

lemma terminate_from: "rel s s1 \<Longrightarrow> rel s (fst (fst (terminate_attempt a outcome rt t pledge used (s1, evs))))"
  by (rule rel_trans [OF _ terminate_rel [of "(s1, evs)" for s1 evs, unfolded fst_conv]])

section \<open>Handlers\<close>

lemma job_handlers_rel: "rel s (fst (submit_job sj s))" "rel s (fst (update_job_metadata um s))"
proof -
  have fresh: "rel s (fst (submit_fresh sj s))"
    by (simp add: submit_fresh_def with_notice_def Let_def rel_refl job_new split: option.split sum.split)
  then show "rel s (fst (submit_job sj s))"
    by (simp add: submit_job_def submit_existing_def Let_def rel_refl split: option.split sum.split)
  show "rel s (fst (update_job_metadata um s))"
    by (simp add: update_job_metadata_def Let_def rel_refl job_upd split: option.split sum.split)
qed

lemma abort_job_rel: "rel s (fst (abort_job aj s))"
proof -
  let ?s = "s\<lparr>jobs := fmmodify (aj_job aj) (flag_abort aj) (jobs s)\<rparr>"
  have 1: "rel s ?s" by (rule job_modify) (simp add: flag_abort_def)
  have "rel s (fst (job_terminal_transition j to t (?s, [])))" for j to t
    by (rule rel_trans [OF 1 job_terminal_transition_rel [of "(?s, [])", unfolded fst_conv]])
  then have "rel s (fst (abort_effects aj st s))" for st
    using terminate_from [OF 1] 1
    by (simp add: abort_effects_def Let_def rel_refl del: terminate_attempt.simps job_terminal_transition.simps
        split: option.split job_state.split attempt_state.split)
  then show ?thesis
    by (simp add: abort_job_def Let_def case_prod_unfold rel_refl split: option.split sum.split)
qed

lemma attempt_handlers_rel:
  "rel s (fst (dispatch_attempt a t s))" "rel s (fst (record_attempt_started a t s))"
  "rel s (fst (record_attempt_exited a t s))" "rel s (fst (record_attempt_outcome oc s))"
  "rel s (fst (record_attempt_notified nc s))"
  using attempt_transition_rel [of "(s, [])"] mark_attempt_running_rel [of "(s, [])"] terminate_rel [of "(s, [])"]
  by (simp_all add: dispatch_attempt_def record_attempt_started_def record_attempt_exited_def
      record_attempt_outcome_def record_attempt_notified_def Let_def case_prod_unfold rel_refl attempts_upd
      del: attempt_transition.simps mark_attempt_running.simps terminate_attempt.simps split: option.split)

lemma reconcile_node_rel: "rel s (fst (reconcile_node rc s))"
proof -
  have "rel (fst eff) (fst (adopt t a eff))" for t a eff
    using mark_attempt_running_rel [of eff] by (simp add: adopt_def rel_refl del: mark_attempt_running.simps split: option.split)
  then have 1: "rel s (fst (fold (adopt t) xs (s, [])))" for t xs
    using rel_fold [of fst "adopt t" "(s, [])"] by simp
  have "rel (fst eff) (fst (lose t a eff))" for t a eff
    using terminate_rel [of eff] by (simp add: lose_def rel_refl del: terminate_attempt.simps split: option.split)
  then have "rel (fst eff) (fst (fold (lose t) xs eff))" for t xs eff by (rule rel_fold)
  then have "rel s (fst (fold (lose t) ys (fold (adopt t) xs (s, []))))" for t xs ys by (rule rel_trans [OF 1])
  then show ?thesis by (simp add: reconcile_node_def Let_def case_prod_unfold rel_refl split: option.split)
qed

lemma node_keep:
  "fmlookup (nodes s) n = Some r \<Longrightarrow> nd_id (nr_node r') = nd_id (nr_node r) \<Longrightarrow> rel s (s\<lparr>nodes := fmupd n r' (nodes s)\<rparr>)"
  by (rule node_upd) simp_all

lemma node_handlers_rel: "rel s (fst (set_node_drain sd s))" "rel s (fst (set_node_draining sg s))"
  by (simp_all add: set_node_drain_def set_node_draining_def put_drain_def Let_def rel_refl node_keep
      split: option.split sum.split)

lemma register_node_rel: "rel s (fst (register_node rg s))"
proof -
  define r where "r = (case fmlookup (nodes s) (rg_node rg) of Some r \<Rightarrow> reregister rg r | None \<Rightarrow> new_node rg)"
  have "rel s (s\<lparr>nodes := fmupd (rg_node rg) r (nodes s)\<rparr>)"
    by (rule node_upd) (simp_all add: r_def reregister_def new_node_def)
  then have "rel s (fst (fst (pledge_node n u (s\<lparr>nodes := fmupd (rg_node rg) r (nodes s)\<rparr>, evs))))" for n u evs
    by (rule rel_trans [OF _ pledge_node_rel [of "(s1, evs)" for s1, unfolded fst_conv]])
  then show ?thesis by (simp add: register_node_def Let_def case_prod_unfold r_def)
qed

lemma declare_node_lost_rel: "rel s (fst (declare_node_lost n t s))"
proof -
  have "rel (fst eff) (fst (lose_node_attempt t a eff))" for a eff
    using terminate_rel by (simp add: lose_node_attempt_def)
  then have 1: "rel (fst eff) (fst (fold (lose_node_attempt t) xs eff))" for xs eff by (rule rel_fold)
  have "rel s (fst (fold (lose_node_attempt t) xs (s\<lparr>nodes := fmupd n r' (nodes s)\<rparr>, evs)))"
    if "fmlookup (nodes s) n = Some r" "nd_id (nr_node r') = nd_id (nr_node r)" for xs r r' evs
    by (rule rel_trans [OF node_upd 1 [of "(s1, evs)" for s1, unfolded fst_conv]]) (use that in simp_all)
  then show ?thesis by (simp add: declare_node_lost_def Let_def case_prod_unfold rel_refl split: option.split)
qed

lemma evictions_rel: "rel s (fst (evict_terminal_jobs js t s))" "rel s (fst (evict_nodes en s))"
proof -
  have "rel s (s\<lparr>attempts := ats, allocations := als, accrual_queue := q\<rparr>)" for s ats als q
    by (rule rel_trans [OF attempts_upd rel_upd(2)])
  then have 1: "rel s (evict_attempt a s)" for a s
    by (simp add: evict_attempt_def Let_def rel_refl attempts_upd split: option.split)
  have "rel (fst eff) (fst (evict_job j eff))" for j eff
  proof (cases eff)
    case (Pair s evs)
    have "rel s (fold evict_attempt xs (s\<lparr>jobs := fmdrop j (jobs s)\<rparr>))" for xs
      by (rule rel_trans [OF job_drop rel_fold [of "\<lambda>s. s" evict_attempt, OF 1]])
    then show ?thesis by (simp add: evict_job_def Pair Let_def rel_refl split: option.split)
  qed
  then have "rel s (fst (fold evict_job xs (s, [])))" for xs using rel_fold [of fst evict_job "(s, [])" xs] by simp
  then show "rel s (fst (evict_terminal_jobs js t s))"
    by (simp add: evict_terminal_jobs_def Let_def case_prod_unfold rel_refl)
  have "rel s (s\<lparr>nodes := fmdrop n (nodes s), accrual_queue := q\<rparr>)" for s n q
    by (rule rel_trans [OF node_drop rel_upd(3)])
  then have "rel s (evict_node n s)" for n s by (simp add: evict_node_def rel_refl)
  then have "rel s (fold evict_node xs s)" for xs by (rule rel_fold [of "\<lambda>s. s" evict_node])
  then show "rel s (fst (evict_nodes en s))" by (simp add: evict_nodes_def Let_def rel_refl split: sum.split)
qed

lemma renew_interval_charges_rel: "rel s (fst (renew_interval_charges rs t s))"
proof -
  have "rel s (charge_ancestors e c t (s\<lparr>attempts := ats\<rparr>))" for s e c ats
    by (rule rel_trans [OF attempts_upd quota_upd(1)])
  then have "rel s (renew_one t x s)" for s x by (simp add: renew_one_def Let_def rel_basic split: option.split)
  then have "rel s (fold (renew_one t) xs s)" for xs by (rule rel_fold [of "\<lambda>s. s" "renew_one t"])
  then show ?thesis by (simp add: renew_interval_charges_def Let_def rel_refl)
qed

lemma request_preemption_rel: "rel (fst eff) (fst (request_preemption t n vr eff))"
  by (cases eff) (simp add: request_preemption_def Let_def rel_basic split: prod.split option.split)

lemma place_rel: "rel (fst (fst st)) (fst (fst (place t ap st)))"
proof -
  obtain p cutoff grp where ap: "ap = (p, cutoff, grp)" by (cases ap)
  obtain s evs used where st: "st = ((s, evs), used)" by (metis surj_pair)
  have seat: "rel s (s\<lparr>next_allocation_seq := q, allocations := a, accrual_queue := b, attempts := c,
      jobs := fmmodify j (\<lambda>r. r\<lparr>jr_attempts := jr_attempts r @ [k]\<rparr>) (jobs s)\<rparr>)" for q a b c j k
  proof -
    define s1 where "s1 = s\<lparr>next_allocation_seq := q, allocations := a, accrual_queue := b, attempts := c\<rparr>"
    have 1: "rel s s1" unfolding s1_def by (rule rel_trans [OF allocations_upd attempts_upd])
    have "rel s1 (s1\<lparr>jobs := fmmodify j (\<lambda>r. r\<lparr>jr_attempts := jr_attempts r @ [k]\<rparr>) (jobs s1)\<rparr>)"
      by (rule job_modify) simp
    from rel_trans [OF 1 this] show ?thesis by (simp add: s1_def)
  qed
  have charge: "rel s (charge_ancestors e c t (fst (job_transition j to (s1, evs1))))" if "rel s s1" for e c j to s1 evs1
    by (rule rel_trans [OF that rel_trans [OF job_transition_rel [of "(s1, evs1)" for s1, unfolded fst_conv] quota_upd(1)]])
  have "rel s (fst (fold (request_preemption t n) grp (s1, evs1)))" if "rel s s1" for n s1 evs1
    by (rule rel_trans [OF that rel_fold [of fst "request_preemption t n" "(s1, evs1)", unfolded fst_conv]]) (rule request_preemption_rel)
  then show ?thesis
    using seat charge unfolding ap st place_def
    by (simp add: Let_def case_prod_unfold rel_refl del: job_transition.simps split: list.split option.split)
qed

lemma commit_placements_rel: "rel s (fst (commit_placements c s))"
proof -
  have "rel (fst (fst st)) (fst (fst (revoke_allocation t k st)))" for t k st
    using terminate_rel [of "fst st"] by (simp add: revoke_allocation_def rel_refl del: terminate_attempt.simps split: option.split)
  then have 1: "rel s (fst (fst (fold (revoke_allocation t) ks ((s, []), u))))" for t ks u
    using rel_fold [of "\<lambda>st. fst (fst st)" "revoke_allocation t" "((s, []), u)"] by simp
  have 2: "rel (fst (fst st)) (fst (fst (fold (place t) aps st)))" for t aps st
    by (rule rel_fold [of "\<lambda>st. fst (fst st)" "place t"]) (rule place_rel)
  have "rel s (fst (commit_effects c acc u s))" for acc u
    using rel_trans [OF 1 2 [of "(eff, u')" for eff u', unfolded fst_conv]] by (simp add: commit_effects_def case_prod_unfold Let_def)
  then show ?thesis by (simp add: commit_placements_def Let_def case_prod_unfold rel_refl split: option.split)
qed

lemmas handlers_rel = job_handlers_rel abort_job_rel attempt_handlers_rel reconcile_node_rel node_handlers_rel
  register_node_rel declare_node_lost_rel evictions_rel renew_interval_charges_rel commit_placements_rel

end

end
