(* ===== verification/Benign.thy ===== *)
theory Benign
  imports Footprint
begin

text \<open>
  What the scheduling commands leave alone. Policy, authorization, cluster identity and key custody are
  untouched by every handler for jobs, attempts, nodes and housekeeping, and of the quota tree these
  handlers change recorded usage only. The relation is one of the footprints.
\<close>

definition same_shape :: "quota_tree \<Rightarrow> quota_tree \<Rightarrow> bool" where
  "same_shape es es' \<longleftrightarrow> (\<forall>e. rel_option (\<lambda>q q'. \<exists>u. q' = q\<lparr>qe_usage := u\<rparr>) (fmlookup es e) (fmlookup es' e))"

lemma same_shape_refl [simp]: "same_shape es es"
proof -
  have "\<exists>u. q = q\<lparr>qe_usage := u\<rparr>" for q :: quota_entity by (rule exI [of _ "qe_usage q"]) simp
  then show ?thesis by (simp add: same_shape_def option.rel_refl)
qed

lemma same_shape_trans:
  assumes "same_shape a b" "same_shape b c"
  shows "same_shape a c"
  unfolding same_shape_def
proof
  fix e
  show "rel_option (\<lambda>q q'. \<exists>u. q' = q\<lparr>qe_usage := u\<rparr>) (fmlookup a e) (fmlookup c e)"
    using assms(1) [unfolded same_shape_def, rule_format, of e] assms(2) [unfolded same_shape_def, rule_format, of e]
    by (cases "fmlookup a e"; cases "fmlookup b e"; cases "fmlookup c e") auto
qed

lemma same_shape_upd: "fmlookup es e = Some q \<Longrightarrow> same_shape es (fmupd e (q\<lparr>qe_usage := u\<rparr>) es)"
proof -
  have "\<exists>u. q = q\<lparr>qe_usage := u\<rparr>" for q :: quota_entity by (rule exI [of _ "qe_usage q"]) simp
  then show "fmlookup es e = Some q \<Longrightarrow> same_shape es (fmupd e (q\<lparr>qe_usage := u\<rparr>) es)"
    by (auto simp: same_shape_def intro!: option.rel_refl)
qed

lemma update_ancestors_shape: "same_shape es (update_ancestors n f cur es)"
proof (induction n f cur es rule: update_ancestors.induct)
  case (3 n f e es)
  show ?case
  proof (cases "fmlookup es e")
    case (Some q)
    then show ?thesis using same_shape_trans [OF same_shape_upd [OF Some] 3 [OF Some]] by simp
  qed simp
qed simp_all

definition benign :: "state_machine \<Rightarrow> state_machine \<Rightarrow> bool" where
  "benign s s' \<longleftrightarrow> same_shape (quota_entities s) (quota_entities s') \<and>
     policy s' = policy s \<and> bindings s' = bindings s \<and> cluster_version s' = cluster_version s \<and> ca s' = ca s \<and>
     staged_root s' = staged_root s \<and> machine_bindings s' = machine_bindings s \<and> enroll_tokens s' = enroll_tokens s \<and>
     revoked_identities s' = revoked_identities s \<and> key_confirmations s' = key_confirmations s \<and>
     key_transfer_intents s' = key_transfer_intents s \<and> enrolled_identities s' = enrolled_identities s"

lemma benign_refl [simp]: "benign s s"
  by (simp add: benign_def)

lemma benign_trans: "benign a b \<Longrightarrow> benign b c \<Longrightarrow> benign a c"
  using same_shape_trans by (auto simp: benign_def)

interpretation sparing: footprint benign
proof (unfold_locales, goal_cases)
  case (2 a b c)
  then show ?case by (rule benign_trans)
qed (simp_all add: benign_def charge_ancestors_def settle_ancestors_def update_ancestors_shape)

definition spares :: "(state_machine \<Rightarrow> apply_result) \<Rightarrow> bool" where
  "spares h \<longleftrightarrow> (\<forall>s. benign s (fst (h s)))"

lemma benign_effects:
  "spares (submit_job sj)" "spares (update_job_metadata um)" "spares (abort_job aj)" "spares (dispatch_attempt a t)"
  "spares (record_attempt_started a t)" "spares (record_attempt_exited a t)" "spares (record_attempt_outcome oc)"
  "spares (record_attempt_notified nc)" "spares (reconcile_node rc)" "spares (set_node_drain sd)"
  "spares (set_node_draining sg)" "spares (register_node rg)" "spares (declare_node_lost n t)"
  "spares (evict_terminal_jobs js t)" "spares (evict_nodes en)" "spares (renew_interval_charges rs t)"
  "spares (commit_placements c)"
  using sparing.handlers_rel by (simp_all add: spares_def)

end
