(* ===== verification/Admin_Inv.thy ===== *)
theory Admin_Inv
  imports Benign
begin

text \<open>
  Invariants of the administrative state along the log: the quota tree stays a forest of bounded depth
  with unambiguous names, the policy in force is always a valid one, a cluster with bindings always has
  an administrator, the custody records of the CA key never contradict each other, and no two machines
  hold the same seat.
\<close>

section \<open>The quota tree\<close>

text \<open>A change of the tree that keeps every entity's parent and name.\<close>

definition same_names :: "quota_tree \<Rightarrow> quota_tree \<Rightarrow> bool" where
  "same_names es es' \<longleftrightarrow> (\<forall>e. rel_option (\<lambda>q q'. qe_parent q' = qe_parent q \<and> qe_name q' = qe_name q)
     (fmlookup es e) (fmlookup es' e))"

lemma same_shape_names: "same_shape es es' \<Longrightarrow> same_names es es'"
  unfolding same_shape_def same_names_def
  by (rule allI) (erule allE, erule option.rel_mono_strong, auto)

lemma same_namesD: "same_names es es' \<Longrightarrow> fmlookup es e = Some q \<Longrightarrow>
    \<exists>q'. fmlookup es' e = Some q' \<and> qe_parent q' = qe_parent q \<and> qe_name q' = qe_name q"
  unfolding same_names_def by (metis (mono_tags, lifting) option_rel_Some1)

lemma same_namesD': "same_names es es' \<Longrightarrow> fmlookup es' e = Some q' \<Longrightarrow>
    \<exists>q. fmlookup es e = Some q \<and> qe_parent q' = qe_parent q \<and> qe_name q' = qe_name q"
  unfolding same_names_def by (metis (mono_tags, lifting) option_rel_Some2)

lemma same_names_rooted: "same_names es es' \<Longrightarrow> rooted n es e \<Longrightarrow> rooted n es' e"
proof (induction n es e rule: rooted.induct)
  case (2 n es e)
  obtain q where q: "fmlookup es e = Some q" using 2(3) by (auto split: option.splits)
  obtain q' where "fmlookup es' e = Some q'" "qe_parent q' = qe_parent q" using same_namesD [OF 2(2) q] by blast
  then show ?case using 2 q by (auto split: option.splits)
qed simp

lemma same_names_wf:
  assumes wf: "tree_wf ext es" and n: "same_names es es'"
  shows "tree_wf ext es'"
  unfolding tree_wf_def
proof (intro conjI allI impI)
  fix e q' assume "fmlookup es' e = Some q'"
  then obtain q where q: "fmlookup es e = Some q" "qe_name q' = qe_name q" using same_namesD' [OF n] by blast
  then show "rooted QUOTA_TREE_DEPTH_CAP es' e" "validate_segment ext (qe_name q') = Inr ()"
    using same_names_rooted [OF n] wf by (auto simp: tree_wf_def)
next
  fix e1 q1 e2 q2
  assume *: "fmlookup es' e1 = Some q1" "fmlookup es' e2 = Some q2" "qe_parent q1 = qe_parent q2" "qe_name q1 = qe_name q2"
  obtain p1 where p1: "fmlookup es e1 = Some p1" "qe_parent q1 = qe_parent p1" "qe_name q1 = qe_name p1"
    using same_namesD' [OF n *(1)] by blast
  obtain p2 where p2: "fmlookup es e2 = Some p2" "qe_parent q2 = qe_parent p2" "qe_name q2 = qe_name p2"
    using same_namesD' [OF n *(2)] by blast
  show "e1 = e2" by (rule wf [unfolded tree_wf_def, THEN conjunct2, rule_format, OF p1(1) p2(1)]) (use * p1 p2 in simp_all)
qed

text \<open>A new entity under a parent that is not yet at the depth cap.\<close>

lemma rooted_upd_new: "fmlookup es e = None \<Longrightarrow> rooted n es x \<Longrightarrow> rooted n (fmupd e q es) x"
proof (induction n es x rule: rooted.induct)
  case (2 n es x)
  then show ?case by (auto split: option.splits)
qed simp

lemma chain_length_rooted:
  "rooted n es e \<Longrightarrow> length (chain_from m es (Some e)) < m \<Longrightarrow> rooted (length (chain_from m es (Some e))) es e"
proof (induction n arbitrary: e m)
  case (Suc n)
  obtain q where q: "fmlookup es e = Some q" using Suc.prems(1) by (auto split: option.splits)
  obtain m' where m: "m = Suc m'" using Suc.prems(2) by (cases m) auto
  show ?case
  proof (cases "qe_parent q")
    case None
    then show ?thesis using q m by simp
  next
    case (Some p)
    then have "parent_of es e = Some p" "rooted n es p" using q Suc.prems(1) by (simp_all add: parent_of_def)
    then show ?thesis using Suc.IH [of p m'] Suc.prems(2) m q Some by simp
  qed
qed simp

lemma child_named_None:
  "child_named es parent seg = None \<longleftrightarrow> (\<forall>e q. fmlookup es e = Some q \<longrightarrow> \<not> (qe_parent q = parent \<and> qe_name q = seg))"
  by (auto simp: child_named_def find_None_iff set_entries)

lemma new_entity_wf:
  assumes wf: "tree_wf ext es" and e: "fmlookup es e = None" and seg: "validate_segment ext (qe_name q) = Inr ()"
    and par: "\<And>p. qe_parent q = Some p \<Longrightarrow> has_key p es \<and> length (entity_chain es p) < QUOTA_TREE_DEPTH_CAP"
    and free: "child_named es (qe_parent q) (qe_name q) = None"
  shows "tree_wf ext (fmupd e q es)"
  unfolding tree_wf_def
proof (intro conjI allI impI)
  fix x qx assume x: "fmlookup (fmupd e q es) x = Some qx"
  show "rooted QUOTA_TREE_DEPTH_CAP (fmupd e q es) x"
  proof (cases "x = e")
    case True
    show ?thesis
    proof (cases "qe_parent q")
      case None
      then show ?thesis using True by (simp add: QUOTA_TREE_DEPTH_CAP_def numeral_eq_Suc)
    next
      case (Some p)
      obtain qp where qp: "fmlookup es p = Some qp" using par [OF Some] by auto
      then have "rooted (length (entity_chain es p)) es p"
        using chain_length_rooted [OF tree_wf_rooted [OF wf qp], of QUOTA_TREE_DEPTH_CAP] par [OF Some]
        by (simp add: entity_chain_def)
      then have "rooted 31 es p" using par [OF Some] by (auto simp: QUOTA_TREE_DEPTH_CAP_def intro: rooted_mono)
      then have "rooted 31 (fmupd e q es) p" by (rule rooted_upd_new [OF e])
      then have "rooted (Suc 31) (fmupd e q es) e" by (subst rooted.simps(2)) (simp add: Some)
      moreover have "QUOTA_TREE_DEPTH_CAP = Suc 31" by (simp add: QUOTA_TREE_DEPTH_CAP_def)
      ultimately show ?thesis using True by simp
    qed
  next
    case False
    then show ?thesis using x wf rooted_upd_new [OF e] by (auto simp: tree_wf_def)
  qed
  show "validate_segment ext (qe_name qx) = Inr ()"
    using x wf seg by (auto simp: tree_wf_def split: if_splits)
next
  fix e1 q1 e2 q2
  assume *: "fmlookup (fmupd e q es) e1 = Some q1" "fmlookup (fmupd e q es) e2 = Some q2"
    "qe_parent q1 = qe_parent q2" "qe_name q1 = qe_name q2"
  have new: False if "fmlookup es x = Some qx" "qe_parent qx = qe_parent q" "qe_name qx = qe_name q" for x qx
    using free that by (simp add: child_named_None)
  consider "e1 = e" "e2 = e" | "e1 = e" "e2 \<noteq> e" | "e1 \<noteq> e" "e2 = e" | "e1 \<noteq> e" "e2 \<noteq> e" by blast
  then show "e1 = e2"
  proof cases
    case 2
    then show ?thesis using * new [of e2 q2] by simp
  next
    case 3
    then show ?thesis using * new [of e1 q1] by simp
  next
    case 4
    then have "fmlookup es e1 = Some q1" "fmlookup es e2 = Some q2" using * by simp_all
    then show ?thesis by (rule wf [unfolded tree_wf_def, THEN conjunct2, rule_format, OF _ _ *(3,4)])
  qed simp
qed

lemma configure_tree_wf:
  assumes wf: "tree_wf ext (quota_entities s)"
  shows "tree_wf ext (quota_entities (fst (configure_quota_entity ext c s)))"
proof (cases "fmlookup (quota_entities s) (cq_entity c)")
  case (Some q)
  have "tree_wf ext (fmupd (cq_entity c) (q\<lparr>qe_quota := x, qe_preemptible := y, qe_updated_at := z\<rparr>) (quota_entities s))" for x y z
    by (rule same_names_wf [OF wf]) (simp add: same_names_def Some option.rel_refl)
  then show ?thesis
    using Some wf by (simp add: configure_quota_entity_def configure_existing_def split: sum.split)
next
  case None
  show ?thesis
  proof (cases "snd (configure_quota_entity ext c s)")
    case (Inl r)
    then have "fst (configure_quota_entity ext c s) = s"
      using admin_handlers_atomic(1) [of ext c] by (cases "configure_quota_entity ext c s") (simp add: atomic_def)
    then show ?thesis using wf by simp
  next
    case (Inr evs)
    obtain q where q: "fst (configure_quota_entity ext c s) = s\<lparr>quota_entities := fmupd (cq_entity c) q (quota_entities s)\<rparr>"
      "qe_name q = cq_name c" "qe_parent q = cq_parent c" "validate_segment ext (cq_name c) = Inr ()"
      "check_parent c (quota_entities s) = Inr ()" "child_named (quota_entities s) (cq_parent c) (cq_name c) = None"
      using None Inr by (auto simp: configure_quota_entity_def configure_new_def split: sum.splits option.splits)
    have "has_key p (quota_entities s) \<and> length (entity_chain (quota_entities s) p) < QUOTA_TREE_DEPTH_CAP"
      if "qe_parent q = Some p" for p
      using q(3,5) that by (auto simp: check_parent_def split: if_splits option.splits)
    then show ?thesis using new_entity_wf [OF wf None, of q] q by simp
  qed
qed

text \<open>The administrative and identity handlers touch one part of the state each.\<close>

named_theorems admin_same

lemma activate_staged_admin:
  "quota_entities (activate_staged serials s) = quota_entities s" "policy (activate_staged serials s) = policy s"
  "bindings (activate_staged serials s) = bindings s" "machine_bindings (activate_staged serials s) = machine_bindings s"
  "cluster_version (activate_staged serials s) = cluster_version s" "revoked_identities (activate_staged serials s) = revoked_identities s"
  "enroll_tokens (activate_staged serials s) = enroll_tokens s"
proof -
  define same where "same u v \<longleftrightarrow> quota_entities v = quota_entities u \<and> policy v = policy u \<and> bindings v = bindings u \<and>
    machine_bindings v = machine_bindings u \<and> cluster_version v = cluster_version u \<and>
    revoked_identities v = revoked_identities u \<and> enroll_tokens v = enroll_tokens u" for u v :: state_machine
  have h: "same u (fold graduate_holder xs u)" for xs u
    by (induction xs arbitrary: u) (auto simp: same_def graduate_holder_def)
  have i: "same u (fold graduate_intent xs u)" for xs u
    by (induction xs arbitrary: u) (auto simp: same_def graduate_intent_def split: if_splits)
  have "same s (activate_staged serials s)"
    using h [of "s\<lparr>staged_root := None\<rparr>"] i
    by (auto simp: activate_staged_def Let_def same_def split: option.split)
  then show "quota_entities (activate_staged serials s) = quota_entities s" "policy (activate_staged serials s) = policy s"
  "bindings (activate_staged serials s) = bindings s" "machine_bindings (activate_staged serials s) = machine_bindings s"
  "cluster_version (activate_staged serials s) = cluster_version s" "revoked_identities (activate_staged serials s) = revoked_identities s"
  "enroll_tokens (activate_staged serials s) = enroll_tokens s"
    by (simp_all add: same_def)
qed

lemma record_ca_admin [admin_same]:
  "quota_entities (fst (record_ca_certificate ext c s)) = quota_entities s"
  "policy (fst (record_ca_certificate ext c s)) = policy s"
  "bindings (fst (record_ca_certificate ext c s)) = bindings s"
  "machine_bindings (fst (record_ca_certificate ext c s)) = machine_bindings s"
  "cluster_version (fst (record_ca_certificate ext c s)) = cluster_version s"
  "revoked_identities (fst (record_ca_certificate ext c s)) = revoked_identities s"
  "enroll_tokens (fst (record_ca_certificate ext c s)) = enroll_tokens s"
  by (simp_all add: record_ca_certificate_def stage_root_def activate_staged_admin Let_def split: option.split prod.split)

lemma admin_handlers_same [admin_same]:
  "quota_entities (fst (update_policy up s)) = quota_entities s"
  "bindings (fst (update_policy up s)) = bindings s"
  "machine_bindings (fst (update_policy up s)) = machine_bindings s"
  "staged_root (fst (update_policy up s)) = staged_root s"
  "key_confirmations (fst (update_policy up s)) = key_confirmations s"
  "key_transfer_intents (fst (update_policy up s)) = key_transfer_intents s"
  "quota_entities (fst (update_authorization ua s)) = quota_entities s"
  "machine_bindings (fst (update_authorization ua s)) = machine_bindings s"
  "staged_root (fst (update_authorization ua s)) = staged_root s"
  "key_confirmations (fst (update_authorization ua s)) = key_confirmations s"
  "key_transfer_intents (fst (update_authorization ua s)) = key_transfer_intents s"
  "policy (fst (configure_quota_entity ext cq s)) = policy s"
  "bindings (fst (configure_quota_entity ext cq s)) = bindings s"
  "machine_bindings (fst (configure_quota_entity ext cq s)) = machine_bindings s"
  "staged_root (fst (configure_quota_entity ext cq s)) = staged_root s"
  "key_confirmations (fst (configure_quota_entity ext cq s)) = key_confirmations s"
  "key_transfer_intents (fst (configure_quota_entity ext cq s)) = key_transfer_intents s"
  by (simp_all add: update_policy_def update_authorization_def configure_quota_entity_def
      configure_existing_def configure_new_def Let_def split: sum.split option.split)

lemmas identity_defs = bump_cluster_version_def bind_machine_identity_def mint_enroll_token_def
  revoke_enroll_token_def revoke_identity_def confirm_key_possession_def record_enrolled_identity_def
  rebind_machine_address_def retire_machine_binding_def record_key_transfer_intent_def
  record_staged_key_transfer_intent_def confirm_staged_key_possession_def Let_def

lemma spared: "spares h \<Longrightarrow> benign s (fst (h s))"
  by (simp add: spares_def)

lemma tree_step: "tree_wf ext (quota_entities s) \<Longrightarrow> tree_wf ext (quota_entities (fst (dispatch ext cmd s)))"
proof -
  assume wf: "tree_wf ext (quota_entities s)"
  have sp: "tree_wf ext (quota_entities (fst (h s)))" if "spares h" for h
    using spared [OF that, of s] same_names_wf [OF wf same_shape_names] by (simp add: benign_def)
  note S = benign_effects [THEN sp]
  show ?thesis
  proof (cases cmd)
    case (ConfigureQuotaEntity c)
    then show ?thesis using configure_tree_wf [OF wf] by (simp add: dispatch_def)
  qed (use S wf in \<open>simp_all add: dispatch_def admin_same identity_defs split: option.split sum.split\<close>)
qed

lemma step_fields:
  "quota_entities (step_of ext cmd s) = quota_entities (fst (dispatch ext cmd s))"
  "policy (step_of ext cmd s) = policy (fst (dispatch ext cmd s))"
  "bindings (step_of ext cmd s) = bindings (fst (dispatch ext cmd s))"
  "machine_bindings (step_of ext cmd s) = machine_bindings (fst (dispatch ext cmd s))"
  "staged_root (step_of ext cmd s) = staged_root (fst (dispatch ext cmd s))"
  "key_confirmations (step_of ext cmd s) = key_confirmations (fst (dispatch ext cmd s))"
  "key_transfer_intents (step_of ext cmd s) = key_transfer_intents (fst (dispatch ext cmd s))"
  "cluster_version (step_of ext cmd s) = cluster_version (fst (dispatch ext cmd s))"
  "revoked_identities (step_of ext cmd s) = revoked_identities (fst (dispatch ext cmd s))"
  "enroll_tokens (step_of ext cmd s) = enroll_tokens (fst (dispatch ext cmd s))"
  by (simp_all add: apply_command_def case_prod_unfold Let_def)

interpretation tree_log: unconditional "step_of ext" "\<lambda>s. tree_wf ext (quota_entities s)" for ext
  by unfold_locales (simp_all add: step_fields tree_step)

section \<open>Policy and authorization\<close>

definition policy_valid :: "state_machine \<Rightarrow> bool" where
  "policy_valid s \<longleftrightarrow> validate_policy (policy s) = Inr ()"

lemma validate_policy_groups: "validate_policy (p\<lparr>po_groups_claim := g\<rparr>) = validate_policy p"
  by (simp add: validate_policy_def)

lemma policy_step: "policy_valid s \<Longrightarrow> policy_valid (fst (dispatch ext cmd s))"
proof -
  assume ok: "policy_valid s"
  have sp: "policy_valid (fst (h s))" if "spares h" for h
    using spared [OF that, of s] ok by (simp add: benign_def policy_valid_def)
  note S = benign_effects [THEN sp]
  show ?thesis
  proof (cases cmd)
    case (UpdatePolicy c)
    then show ?thesis using ok by (simp add: dispatch_def update_policy_def policy_valid_def split: sum.split)
  next
    case (UpdateAuthorization c)
    then show ?thesis using ok
      by (simp add: dispatch_def update_authorization_def policy_valid_def validate_policy_groups Let_def
          split: sum.split option.split)
  qed (use S ok in \<open>simp_all add: dispatch_def policy_valid_def admin_same identity_defs split: option.split sum.split\<close>)
qed

interpretation policy_log: unconditional "step_of ext" policy_valid for ext
  by unfold_locales (use policy_step in \<open>simp_all add: step_fields policy_valid_def\<close>)

lemma policy_default_valid: "validate_policy policy_default = Inr ()"
proof -
  have "decay_validate DEFAULT_DECAY_POLICY = Inr ()" using default_policy_ok by simp
  then show ?thesis
    by (simp add: validate_policy_def policy_default_def DEFAULT_UNBOUNDED_RUNTIME_MULTIPLIER_def MULTIPLIER_ONE_def
        DEFAULT_UNBOUNDED_CHARGE_INTERVAL_S_def DEFAULT_REFUND_FRACTION_MILLI_def FULL_REFUND_MILLI_def
        DEFAULT_PREEMPTIBLE_MULTIPLIER_def DEFAULT_PREEMPTION_NOTICE_FLOOR_def DEFAULT_PREEMPTION_NOTICE_CAP_def
        dur_from_mins_def dur_is_negative_def om_eval)
qed

text \<open>Every binding names someone and an entity that exists, and an unscoped administrator remains.\<close>

definition authority_ok :: "state_machine \<Rightarrow> bool" where
  "authority_ok s \<longleftrightarrow>
     (\<forall>b \<in> set (bindings s). subject_name (bd_subject b) \<noteq> [] \<and>
        (\<forall>e. bd_scope b = Some e \<longrightarrow> has_key e (quota_entities s))) \<and>
     (bindings s \<noteq> [] \<longrightarrow> (\<exists>b \<in> set (bindings s). bd_role b = Admin \<and> bd_scope b = None))"

lemma validate_bindings_ok:
  assumes "validate_bindings c es = Inr ()"
  shows "(\<forall>b \<in> set (ua_bindings c). subject_name (bd_subject b) \<noteq> [] \<and> (\<forall>e. bd_scope b = Some e \<longrightarrow> has_key e es)) \<and>
    (\<exists>b \<in> set (ua_bindings c). bd_role b = Admin \<and> bd_scope b = None)"
proof (intro conjI ballI allI impI)
  fix b assume b: "b \<in> set (ua_bindings c)"
  have "find (\<lambda>(_, b). subject_name (bd_subject b) = []) (enumerate 0 (ua_bindings c)) = None"
    using assms by (auto simp: validate_bindings_def split: option.splits)
  moreover have "\<exists>i. (i, b) \<in> set (enumerate 0 (ua_bindings c))"
    using b by (metis imageE map_snd_enumerate prod.collapse set_map)
  ultimately show "subject_name (bd_subject b) \<noteq> []" by (auto simp: find_None_iff)
  fix e assume e: "bd_scope b = Some e"
  have "unknown_scope es (ua_bindings c) = None"
    using assms by (auto simp: validate_bindings_def split: option.splits)
  moreover have "e \<in> set (List.map_filter bd_scope (ua_bindings c))"
    using b e by (force simp: List.map_filter_def)
  ultimately show "has_key e es" by (auto simp: unknown_scope_def find_None_iff)
next
  show "\<exists>b \<in> set (ua_bindings c). bd_role b = Admin \<and> bd_scope b = None"
    using assms by (auto simp: validate_bindings_def list_ex_iff split: option.splits if_splits)
qed

lemma has_key_shape:
  assumes "same_shape es es'" "has_key e es"
  shows "has_key e es'"
  using assms(1) [unfolded same_shape_def, rule_format, of e] assms(2)
  by (cases "fmlookup es e"; cases "fmlookup es' e") simp_all

lemma authority_step: "authority_ok s \<Longrightarrow> authority_ok (fst (dispatch ext cmd s))"
proof -
  assume ok: "authority_ok s"
  have keep: "authority_ok s'" if "bindings s' = bindings s" "\<And>e. has_key e (quota_entities s) \<Longrightarrow> has_key e (quota_entities s')" for s'
    using ok that by (simp add: authority_ok_def)
  have sp: "authority_ok (fst (h s))" if "spares h" for h
    using spared [OF that, of s] has_key_shape by (intro keep) (auto simp: benign_def)
  note S = benign_effects [THEN sp]
  show ?thesis
  proof (cases cmd)
    case (UpdateAuthorization c)
    then show ?thesis
      using ok validate_bindings_ok [of c "quota_entities s"]
      by (auto simp: dispatch_def update_authorization_def authority_ok_def Let_def split: sum.split option.split)
  next
    case (ConfigureQuotaEntity c)
    show ?thesis
      unfolding ConfigureQuotaEntity dispatch_def command.case
      by (rule keep) (simp_all add: configure_quota_entity_def configure_existing_def configure_new_def
          split: sum.split option.split)
  qed (simp_all only: dispatch_def command.case,
      (rule S | rule keep; simp add: admin_same identity_defs split: option.split sum.split)+)
qed

interpretation authority_log: unconditional "step_of ext" authority_ok for ext
  by unfold_locales (use authority_step in \<open>simp_all add: step_fields authority_ok_def\<close>)

text \<open>A cluster-wide administrator, once there is one, is there for good: no list without one is accepted.\<close>

definition administered :: "state_machine \<Rightarrow> bool" where
  "administered s \<longleftrightarrow> (\<exists>b \<in> set (bindings s). bd_role b = Admin \<and> bd_scope b = None)"

lemma update_authorization_administered:
  assumes "update_authorization c s = (s', Inr evs)"
  shows "administered s'"
proof -
  have "validate_bindings c (quota_entities s) = Inr ()" "bindings s' = ua_bindings c"
    using assms by (auto simp: update_authorization_def Let_def split: sum.splits option.splits)
  then show ?thesis using validate_bindings_ok [of c "quota_entities s"] by (simp add: administered_def)
qed

lemma administered_step: "administered s \<Longrightarrow> administered (fst (dispatch ext cmd s))"
proof -
  assume ok: "administered s"
  have keep: "administered s'" if "bindings s' = bindings s" for s' using ok that by (simp add: administered_def)
  have sp: "administered (fst (h s))" if "spares h" for h
    using spared [OF that, of s] by (intro keep) (simp add: benign_def)
  note S = benign_effects [THEN sp]
  show ?thesis
  proof (cases cmd)
    case (UpdateAuthorization c)
    obtain s' r where run: "update_authorization c s = (s', r)" by fastforce
    show ?thesis
    proof (cases r)
      case (Inl e)
      then have "s' = s" using run admin_handlers_atomic(3) [of c] by (simp add: atomic_def)
      then show ?thesis using ok run UpdateAuthorization by (simp add: dispatch_def)
    qed (use run UpdateAuthorization update_authorization_administered in \<open>auto simp: dispatch_def\<close>)
  qed (simp_all only: dispatch_def command.case,
      (rule S | rule keep; simp add: admin_same identity_defs split: option.split sum.split)+)
qed

interpretation administered_log: unconditional "step_of ext" administered for ext
  by unfold_locales (use administered_step in \<open>simp_all add: step_fields administered_def\<close>)

lemma administered_after:
  assumes "snd (apply_command ext (UpdateAuthorization c) s) = Inr evs"
  shows "administered (run_log ext (UpdateAuthorization c # cmds) s)"
proof -
  obtain s' where s': "dispatch ext (UpdateAuthorization c) s = (s', Inr evs)"
    "step_of ext (UpdateAuthorization c) s = s'\<lparr>version := version s' + 1\<rparr>"
    using apply_accepted [OF assms] by blast
  then have "administered (step_of ext (UpdateAuthorization c) s)"
    using update_authorization_administered [of c s s' evs] by (simp add: dispatch_def administered_def)
  then show ?thesis using administered_log.always [of _ ext cmds] by (simp add: run_log_fold)
qed

end
