(* ===== verification/Identity_Inv.thy ===== *)
theory Identity_Inv
  imports Admin_Inv
begin

text \<open>
  Cluster identity along the log: custody of the CA key, the seats of machines, and what is never
  forgotten once committed (revocations, retirements, the cluster version).
\<close>

section \<open>Custody of the CA key\<close>

text \<open>No node is at once recorded as holding a key and as still to receive it.\<close>

definition disjoint_keys :: "('k, 'a) fmap \<Rightarrow> ('k, 'b) fmap \<Rightarrow> bool" where
  "disjoint_keys m m' \<longleftrightarrow> (\<forall>k. fmlookup m k = None \<or> fmlookup m' k = None)"

definition custody_ok :: "state_machine \<Rightarrow> bool" where
  "custody_ok s \<longleftrightarrow> disjoint_keys (key_confirmations s) (key_transfer_intents s) \<and>
     (case staged_root s of None \<Rightarrow> True | Some r \<Rightarrow> disjoint_keys (sr_holders r) (sr_intents r))"

lemma disjoint_keys_confirm: "disjoint_keys m m' \<Longrightarrow> disjoint_keys (fmupd n x m) (fmdrop n m')"
  by (simp add: disjoint_keys_def)

lemma disjoint_keys_intend: "disjoint_keys m m' \<Longrightarrow> fmlookup m n = None \<Longrightarrow> disjoint_keys m (fm_or_insert n x m')"
  by (auto simp: disjoint_keys_def fm_or_insert_def split: option.splits if_splits)

lemma disjoint_keys_drop: "disjoint_keys m m' \<Longrightarrow> disjoint_keys m (fmdrop n m')"
  by (auto simp: disjoint_keys_def)

lemma graduate_holder_custody: "custody_ok s \<Longrightarrow> custody_ok (graduate_holder nt s)"
  by (auto simp: custody_ok_def graduate_holder_def disjoint_keys_confirm disjoint_keys_drop split: prod.split option.split)

lemma graduate_intent_custody: "custody_ok s \<Longrightarrow> custody_ok (graduate_intent nt s)"
  by (auto simp: custody_ok_def graduate_intent_def disjoint_keys_intend split: prod.split option.split)

lemma fold_keeps: "(\<And>x s. P s \<Longrightarrow> P (f x s)) \<Longrightarrow> P s \<Longrightarrow> P (fold f xs s)"
  by (induction xs arbitrary: s) simp_all

lemma activate_custody: "custody_ok s \<Longrightarrow> custody_ok (activate_staged serials s)"
proof (cases "staged_root s")
  case (Some r)
  assume ok: "custody_ok s"
  then have ok0: "custody_ok (s\<lparr>staged_root := None\<rparr>)" by (simp add: custody_ok_def)
  have "custody_ok (fold graduate_intent ys (fold graduate_holder xs (s\<lparr>staged_root := None\<rparr>)))" for xs ys
    by (intro fold_keeps [of custody_ok] graduate_intent_custody graduate_holder_custody ok0)
  then show ?thesis using Some ok0 by (simp add: activate_staged_def Let_def)
qed (simp add: activate_staged_def)

lemma record_ca_custody: "custody_ok s \<Longrightarrow> custody_ok (fst (record_ca_certificate ext c s))"
proof -
  assume ok: "custody_ok s"
  have "custody_ok (stage_root serial t s)" for serial t
    using ok by (auto simp: stage_root_def custody_ok_def disjoint_keys_def split: option.splits)
  moreover have "custody_ok (s'\<lparr>ca := x\<rparr>) = custody_ok s'" for s' x by (simp add: custody_ok_def)
  ultimately show ?thesis
    using ok activate_custody [OF ok] by (simp add: record_ca_certificate_def Let_def split: option.split)
qed

lemma custody_handlers:
  assumes ok: "custody_ok s"
  shows "custody_ok (fst (confirm_key_possession n t s))" "custody_ok (fst (record_key_transfer_intent n t s))"
    "custody_ok (fst (confirm_staged_key_possession n serial t s))"
    "custody_ok (fst (record_staged_key_transfer_intent n serial t s))"
  using ok by (auto simp: custody_ok_def confirm_key_possession_def record_key_transfer_intent_def
      confirm_staged_key_possession_def record_staged_key_transfer_intent_def staged_root_in_scope_def
      disjoint_keys_confirm disjoint_keys_intend split: option.splits sum.splits if_splits)

lemma custody_step: "custody_ok s \<Longrightarrow> custody_ok (fst (dispatch ext cmd s))"
proof -
  assume ok: "custody_ok s"
  have keep: "custody_ok s'" if "staged_root s' = staged_root s" "key_confirmations s' = key_confirmations s"
    "key_transfer_intents s' = key_transfer_intents s" for s'
    using ok that by (simp add: custody_ok_def)
  have sp: "custody_ok (fst (h s))" if "spares h" for h
    using spared [OF that, of s] by (intro keep) (auto simp: benign_def)
  note S = benign_effects [THEN sp] custody_handlers [OF ok] record_ca_custody [OF ok]
  show ?thesis
    by (cases cmd; simp_all only: dispatch_def command.case)
      (rule S | rule keep; simp add: admin_same identity_defs split: option.split sum.split)+
qed

interpretation custody_log: unconditional "step_of ext" custody_ok for ext
  by unfold_locales (use custody_step in \<open>simp_all add: step_fields custody_ok_def\<close>)

section \<open>Seats\<close>

text \<open>No two machines are bound to the same seat of the consensus group, retired ones included.\<close>

definition seats_ok :: "state_machine \<Rightarrow> bool" where
  "seats_ok s \<longleftrightarrow> (\<forall>m b m' b'. fmlookup (machine_bindings s) m = Some b \<longrightarrow> fmlookup (machine_bindings s) m' = Some b' \<longrightarrow>
     mb_raft_node_id b = mb_raft_node_id b' \<longrightarrow> m = m')"

lemma machine_for_None: "machine_for_raft_node s n = None \<longleftrightarrow>
    (\<forall>m b. fmlookup (machine_bindings s) m = Some b \<longrightarrow> mb_raft_node_id b \<noteq> n)"
  by (auto simp: machine_for_raft_node_def find_None_iff set_entries)

lemma machine_for_Some: "machine_for_raft_node s n = Some m \<Longrightarrow>
    \<exists>b. fmlookup (machine_bindings s) m = Some b \<and> mb_raft_node_id b = n"
proof -
  assume "machine_for_raft_node s n = Some m"
  then obtain b where "find (\<lambda>(_, b). mb_raft_node_id b = n) (entries (machine_bindings s)) = Some (m, b)"
    by (auto simp: machine_for_raft_node_def)
  then have "(m, b) \<in> set (entries (machine_bindings s)) \<and> mb_raft_node_id b = n"
    by (auto simp: find_Some_iff intro: nth_mem) (metis nth_mem)
  then show ?thesis by (auto simp: set_entries)
qed

lemma seats_new:
  assumes ok: "seats_ok s" and new: "\<And>m b. fmlookup (machine_bindings s) m = Some b \<Longrightarrow> mb_raft_node_id b \<noteq> mb_raft_node_id b0"
  shows "seats_ok (s\<lparr>machine_bindings := fmupd m0 b0 (machine_bindings s)\<rparr>)"
  unfolding seats_ok_def
proof (intro allI impI)
  fix m b m' b'
  assume *: "fmlookup (machine_bindings (s\<lparr>machine_bindings := fmupd m0 b0 (machine_bindings s)\<rparr>)) m = Some b"
    "fmlookup (machine_bindings (s\<lparr>machine_bindings := fmupd m0 b0 (machine_bindings s)\<rparr>)) m' = Some b'"
    "mb_raft_node_id b = mb_raft_node_id b'"
  consider "m = m0" "m' = m0" | "m = m0" "m' \<noteq> m0" | "m \<noteq> m0" "m' = m0" | "m \<noteq> m0" "m' \<noteq> m0" by blast
  then show "m = m'"
  proof cases
    case 2
    then show ?thesis using * new [of m' b'] by simp
  next
    case 3
    then show ?thesis using * new [of m b] by simp
  next
    case 4
    then have "fmlookup (machine_bindings s) m = Some b" "fmlookup (machine_bindings s) m' = Some b'" using * by simp_all
    then show ?thesis by (rule ok [unfolded seats_ok_def, rule_format, OF _ _ *(3)])
  qed simp
qed

lemma seats_upd:
  assumes ok: "seats_ok s" and b: "fmlookup (machine_bindings s) m = Some b" "mb_raft_node_id b' = mb_raft_node_id b"
  shows "seats_ok (s\<lparr>machine_bindings := fmupd m b' (machine_bindings s)\<rparr>)"
  using ok b unfolding seats_ok_def by simp metis

lemma seats_bind: "seats_ok s \<Longrightarrow> seats_ok (fst (bind_machine_identity c s))"
proof -
  assume ok: "seats_ok s"
  show ?thesis
  proof (cases "fmlookup (machine_bindings s) (bm_machine c)")
    case None
    show ?thesis
    proof (cases "machine_for_raft_node s (bm_raft_node_id c)")
      case free: None
      then have "seats_ok (s\<lparr>machine_bindings := fmupd (bm_machine c) \<lparr>mb_raft_node_id = bm_raft_node_id c,
          mb_address = bm_address c, mb_bound_at = bm_bound_at c, mb_retired_at = None\<rparr> (machine_bindings s)\<rparr>)"
        by (intro seats_new [OF ok]) (simp add: machine_for_None)
      then show ?thesis using None free by (simp add: bind_machine_identity_def Let_def)
    next
      case (Some m)
      then have "m \<noteq> bm_machine c" using machine_for_Some [OF Some] None by auto
      then show ?thesis using None Some ok by (simp add: bind_machine_identity_def Let_def)
    qed
  next
    case (Some b)
    then have "fst (bind_machine_identity c s) = s" by (simp add: bind_machine_identity_def Let_def split: option.split)
    then show ?thesis using ok by simp
  qed
qed

lemma seats_handlers:
  assumes ok: "seats_ok s"
  shows "seats_ok (fst (rebind_machine_address n addr t s))" "seats_ok (fst (retire_machine_binding m t s))"
  using ok by (simp_all add: rebind_machine_address_def retire_machine_binding_def seats_upd split: option.split)

lemma seats_step: "seats_ok s \<Longrightarrow> seats_ok (fst (dispatch ext cmd s))"
proof -
  assume ok: "seats_ok s"
  have keep: "seats_ok s'" if "machine_bindings s' = machine_bindings s" for s'
    using ok that by (simp add: seats_ok_def)
  have sp: "seats_ok (fst (h s))" if "spares h" for h
    using spared [OF that, of s] by (intro keep) (auto simp: benign_def)
  note S = benign_effects [THEN sp] seats_handlers [OF ok] seats_bind [OF ok]
  show ?thesis
    by (cases cmd; simp_all only: dispatch_def command.case)
      (rule S | rule keep; simp add: admin_same identity_defs split: option.split sum.split)+
qed

interpretation seats_log: unconditional "step_of ext" seats_ok for ext
  by unfold_locales (use seats_step in \<open>simp_all add: step_fields seats_ok_def\<close>)

section \<open>What is never forgotten\<close>

definition remembers :: "state_machine \<Rightarrow> state_machine \<Rightarrow> bool" where
  "remembers s s' \<longleftrightarrow> cluster_version s \<le> cluster_version s' \<and>
     revoked_identities s |\<subseteq>| revoked_identities s' \<and>
     (\<forall>m b. fmlookup (machine_bindings s) m = Some b \<longrightarrow> (\<exists>b'. fmlookup (machine_bindings s') m = Some b' \<and>
        mb_raft_node_id b' = mb_raft_node_id b \<and> (mb_retired_at b \<noteq> None \<longrightarrow> b' = b))) \<and>
     (\<forall>k tok. fmlookup (enroll_tokens s) k = Some tok \<longrightarrow> (\<exists>tok'. fmlookup (enroll_tokens s') k = Some tok' \<and>
        et_hash tok' = et_hash tok \<and> (et_revoked tok \<longrightarrow> et_revoked tok')))"

lemma remembers_refl [simp]: "remembers s s"
  by (auto simp: remembers_def)

lemma remembers_cong:
  "cluster_version s' = cluster_version s \<Longrightarrow> revoked_identities s' = revoked_identities s \<Longrightarrow>
   machine_bindings s' = machine_bindings s \<Longrightarrow> enroll_tokens s' = enroll_tokens s \<Longrightarrow> remembers s s'"
  by (auto simp: remembers_def)

lemma remembers_trans:
  assumes "remembers a b" "remembers b c"
  shows "remembers a c"
  unfolding remembers_def
proof (intro conjI allI impI)
  show "cluster_version a \<le> cluster_version c" "revoked_identities a |\<subseteq>| revoked_identities c"
    using assms by (auto simp: remembers_def)
next
  fix m x assume m: "fmlookup (machine_bindings a) m = Some x"
  obtain y where y: "fmlookup (machine_bindings b) m = Some y" "mb_raft_node_id y = mb_raft_node_id x"
    "mb_retired_at x \<noteq> None \<longrightarrow> y = x" using assms(1) m unfolding remembers_def by blast
  obtain z where "fmlookup (machine_bindings c) m = Some z" "mb_raft_node_id z = mb_raft_node_id y"
    "mb_retired_at y \<noteq> None \<longrightarrow> z = y" using assms(2) y(1) unfolding remembers_def by blast
  then show "\<exists>z. fmlookup (machine_bindings c) m = Some z \<and> mb_raft_node_id z = mb_raft_node_id x \<and>
      (mb_retired_at x \<noteq> None \<longrightarrow> z = x)" using y by auto
next
  fix k x assume k: "fmlookup (enroll_tokens a) k = Some x"
  obtain y where y: "fmlookup (enroll_tokens b) k = Some y" "et_hash y = et_hash x" "et_revoked x \<longrightarrow> et_revoked y"
    using assms(1) k unfolding remembers_def by blast
  obtain z where "fmlookup (enroll_tokens c) k = Some z" "et_hash z = et_hash y" "et_revoked y \<longrightarrow> et_revoked z"
    using assms(2) y(1) unfolding remembers_def by blast
  then show "\<exists>z. fmlookup (enroll_tokens c) k = Some z \<and> et_hash z = et_hash x \<and> (et_revoked x \<longrightarrow> et_revoked z)"
    using y by auto
qed

lemma identity_remembers:
  "remembers s (fst (bump_cluster_version v actor t s))" "remembers s (fst (bind_machine_identity bm s))"
  "remembers s (fst (mint_enroll_token mt s))" "remembers s (fst (revoke_enroll_token tok t s))"
  "remembers s (fst (revoke_identity i t s))" "remembers s (fst (rebind_machine_address n addr t s))"
  "remembers s (fst (retire_machine_binding m t s))"
  by (auto simp: remembers_def bump_cluster_version_def bind_machine_identity_def mint_enroll_token_def
      revoke_enroll_token_def revoke_identity_def rebind_machine_address_def retire_machine_binding_def Let_def
      split: option.splits sum.splits)

lemma admin_remembers:
  "remembers s (fst (configure_quota_entity ext cq s))" "remembers s (fst (update_policy up s))"
  "remembers s (fst (update_authorization ua s))"
  by (rule remembers_cong; simp add: configure_quota_entity_def configure_existing_def configure_new_def update_policy_def
      update_authorization_def Let_def split: option.split sum.split)+

lemma remembers_step: "remembers s (fst (dispatch ext cmd s))"
proof -
  have sp: "remembers s (fst (h s))" if "spares h" for h
    using spared [OF that, of s] by (intro remembers_cong) (auto simp: benign_def)
  note S = benign_effects [THEN sp] identity_remembers admin_remembers
  show ?thesis
    by (cases cmd; simp_all only: dispatch_def command.case)
      (rule S | rule remembers_cong; simp add: admin_same identity_defs split: option.split sum.split)+
qed

interpretation history_log: unconditional "step_of ext" "remembers s0" for ext s0
proof unfold_locales
  fix s c assume r: "remembers s0 s"
  have "remembers s (step_of ext c s)" using remembers_step [of s ext c] by (simp add: remembers_def step_fields)
  then show "remembers s0 (step_of ext c s)" by (rule remembers_trans [OF r])
qed simp

end
