(* ===== verification/Reachable.thy ===== *)
theory Reachable
  imports Identity_Inv
begin

text \<open>
  What a state reached by a log looks like: the facts the properties of the root theory read off the
  invariant of the core, in terms of the operations of \<open>coppice-state/src/apply.rs\<close> themselves.
\<close>

section \<open>Work conservation\<close>

lemma no_idle_pledge_loop:
  assumes "\<And>seq k. (seq, k) \<in> set queue \<Longrightarrow> \<exists>al. fmlookup (allocations s) k = Some al \<and>
    res_is_zero (component_min free (allocation_need al))"
  shows "pledge_loop n queue free used (s, evs) = ((s, evs), used, [])"
  using assms
proof (induction queue)
  case (Cons x queue)
  obtain seq k where x: "x = (seq, k)" by (cases x)
  obtain al where "fmlookup (allocations s) k = Some al" "res_is_zero (component_min free (allocation_need al))"
    using Cons.prems [of seq k] x by auto
  moreover have "pledge_loop n queue free used (s, evs) = ((s, evs), used, [])" using Cons by auto
  ultimately show ?case by (simp add: x Let_def)
qed simp

lemma no_idle_min:
  assumes c: "core {} s" and memo: "memo_ok (allocations s) used"
    and al: "fmlookup (allocations s) k = Some al" "kstate al = Accruing" "knode al = n"
  shows "component_min (free_capacity s n used) (allocation_need al) = res_zero"
proof (rule rget_eqI)
  fix d
  have "cap_of s n d \<le> held (allocations s) n d \<or> rget d (allocation_need al) = 0"
    using pools_idle [OF core_pools [OF c], of n] al by (simp add: no_idle_def)
  then show "rget d (component_min (free_capacity s n used) (allocation_need al)) = rget d res_zero"
    using rget_free [OF pool_okD(2) [OF core_pool [OF c]] memo, of d n] by (auto simp: rget_min)
qed

lemma no_idle_pledge:
  assumes c: "core {} s" and memo: "memo_ok (allocations s) used"
  shows "pledge_node n used (s, evs) = ((s, evs), used)"
proof -
  have "\<exists>al. fmlookup (allocations s) k = Some al \<and> res_is_zero (component_min (free_capacity s n used) (allocation_need al))"
    if q: "(seq, k) \<in> set (node_queue s n)" for seq k
  proof -
    obtain al where al: "fmlookup (allocations s) k = Some al" "kstate al = Accruing" "knode al = n"
      using q by (auto simp: set_node_queue pool_queue [OF pool_okD(1) [OF core_pool [OF c]]])
    then show ?thesis using no_idle_min [OF c memo al] by (simp add: res_is_zero_def)
  qed
  then have "pledge_loop n (node_queue s n) (free_capacity s n used) used (s, evs) = ((s, evs), used, [])"
    by (rule no_idle_pledge_loop)
  then show ?thesis by (simp add: pledge_node_def Let_def)
qed

lemma held_none:
  assumes "\<And>k al. fmlookup als k = Some al \<Longrightarrow> hold n d al = 0"
  shows "held als n d = 0"
  unfolding held_def fm_sum_def
proof (rule sum.neutral, rule ballI)
  fix k assume "k \<in> fset (fmdom als)"
  then obtain al where "fmlookup als k = Some al" by auto
  then show "hold n d (the (fmlookup als k)) = 0" using assms by simp
qed

text \<open>An allocation that is alone on a node large enough for it is funded.\<close>

lemma alone_funded:
  assumes c: "core {} s" and al: "fmlookup (allocations s) k = Some al" "live_allocation al"
    and fits: "\<And>d. rget d (krequested al) \<le> cap_of s (knode al) d"
    and alone: "\<And>k' al'. fmlookup (allocations s) k' = Some al' \<Longrightarrow> live_allocation al' \<Longrightarrow> knode al' = knode al \<Longrightarrow> k' = k"
  shows "kstate al \<in> {Funded, Active}"
proof (rule ccontr)
  assume "kstate al \<notin> {Funded, Active}"
  then have acc: "kstate al = Accruing" using al(2) by (cases "kstate al") (auto simp: live_allocation_def)
  note P = pool_okD(1) [OF core_pool [OF c]]
  have f: "fund_ok al" by (rule pool_fund_ok [OF P al(1)])
  have held: "held (allocations s) (knode al) d = rget d (kfunded al)" for d
  proof -
    have "hold (knode al) d al' = 0" if "fmlookup (fmdrop k (allocations s)) k' = Some al'" for k' al'
      using alone [of k' al'] that by (auto simp: hold_def split: if_splits)
    then have "held (fmdrop k (allocations s)) (knode al) d = 0" by (rule held_none)
    then show ?thesis using held_drop [OF al(1), of "knode al" d] al(2) by (simp add: hold_def)
  qed
  have "rget d (kfunded al) = rget d (krequested al)" for d
  proof -
    have "cap_of s (knode al) d \<le> held (allocations s) (knode al) d \<or> rget d (allocation_need al) = 0"
      using pools_idle [OF core_pools [OF c], of "knode al"] al(1) acc by (simp add: no_idle_def)
    moreover have "rget d (kfunded al) \<le> rget d (krequested al)" using f by (simp add: fund_ok_def fits_within_iff)
    ultimately show ?thesis using held [of d] fits [of d] by (auto simp: rget_need)
  qed
  then have "kfunded al = krequested al" by (simp add: res_eq_iff)
  then show False using f acc by (simp add: fund_ok_def)
qed

section \<open>Terminal states\<close>

lemma on_node_iff: "on_node st \<longleftrightarrow> st \<in> {Dispatching, Running, Finalizing}"
  by (cases st) simp_all

lemma observe_terminal:
  assumes "observe e m = Some m'" "fmlookup m j = Some st" "job_terminal st"
  shows "fmlookup m' j = Some st \<or> fmlookup m' j = None"
  using assms by (cases e; cases st) (auto split: if_splits option.splits)

lemma replay_terminal:
  assumes "replay es m = Some m'" "JobSubmitted j \<notin> set es" "job_terminal st"
    "fmlookup m j = Some st \<or> fmlookup m j = None"
  shows "fmlookup m' j = Some st \<or> fmlookup m' j = None"
  using assms(1,2,4)
proof (induction es arbitrary: m)
  case (Cons e es)
  obtain m1 where m1: "observe e m = Some m1" "replay es m1 = Some m'"
    using Cons.prems(1) by (auto simp: bind_eq_Some_conv)
  have "fmlookup m1 j = Some st \<or> fmlookup m1 j = None"
  proof (cases "fmlookup m j")
    case None
    then show ?thesis using m1(1) Cons.prems(2) by (cases e) (auto split: if_splits option.splits)
  next
    case (Some st')
    then show ?thesis using observe_terminal [OF m1(1), of j st] assms(3) Cons.prems(3) by simp
  qed
  then show ?case using Cons.IH [OF m1(2)] Cons.prems(2) by simp
qed simp

section \<open>The memo and the scan\<close>

lemma pledge_memo_scan:
  assumes "no_overflow (allocations s)" "memo_ok (allocations s) used"
  shows "fst (pledge_node n used (s, evs)) = fst (pledge_node n None (s, evs))"
proof -
  let ?free = "free_capacity s n None" and ?q = "node_queue s n"
  have "free_capacity s n used = ?free" by (rule free_memo_scan [OF assms])
  moreover have "fst (pledge_loop n ?q ?free used (s, evs)) = fst (pledge_loop n ?q ?free None (s, evs))"
    "snd (snd (pledge_loop n ?q ?free used (s, evs))) = snd (snd (pledge_loop n ?q ?free None (s, evs)))"
    using pledge_loop_memo_irrelevant [of n ?q ?free used "(s, evs)" None] by auto
  ultimately show ?thesis by (simp add: pledge_node_def Let_def case_prod_unfold)
qed

lemma terminate_memo_scan:
  assumes c: "core N s" and memo: "memo_ok (allocations s) used"
  shows "fst (terminate_attempt a outcome rt t pledge used (s, evs)) = fst (terminate_attempt a outcome rt t pledge None (s, evs))"
proof (cases "\<exists>r. fmlookup (attempts s) a = Some r \<and> \<not> attempt_terminal (astate r)")
  case True
  then obtain r where r: "fmlookup (attempts s) a = Some r" "\<not> attempt_terminal (astate r)" by blast
  note P = pool_okD(1) [OF core_pool [OF c]]
  obtain al where al: "fmlookup (allocations s) (aalloc r) = Some al" "kstate al = alloc_state_for (astate r)"
    using pool_attempt [OF P r(1)] by (auto simp: matched_def)
  have live: "live_allocation al" using al(2) r(2) by (cases "astate r") (simp_all add: live_allocation_def)
  let ?s = "released a (ended outcome t r) al s"
  have als: "allocations ?s = fmupd (aalloc r) (set_allocation_state Released al) (allocations s)" by (simp add: released_def)
  have "held (allocations ?s) n d \<le> held (allocations s) n d" for n d
    using held_released [OF al(1), of n d] unfolding als by linarith
  then have "no_overflow (allocations ?s)"
    using no_overflowD [OF pool_okD(2) [OF core_pool [OF c]]] unfolding no_overflow_def by (blast intro: order_trans)
  moreover have "memo_ok (allocations ?s) (map_option (memo_sub (knode al) (kfunded al)) used)"
    unfolding als by (rule memo_ok_sub [OF memo al(1) live])
  ultimately have eq: "fst (pass_if pledge (knode al) (map_option (memo_sub (knode al) (kfunded al)) used) (?s, es)) =
      fst (pass_if pledge (knode al) None (?s, es))" for es
    unfolding pass_if_def by (cases pledge) (simp_all only: if_True if_False fst_conv, rule pledge_memo_scan)
  show ?thesis
    unfolding terminate_attempt_eq [OF r al(1) live] Let_def case_prod_unfold fst_conv eq option.map ..
next
  case False
  then show ?thesis by (cases "fmlookup (attempts s) a") simp_all
qed

section \<open>A submission and its retry\<close>

lemma submit_fresh_accepted:
  assumes "submit_fresh c s = (s', Inr evs)"
  shows "\<exists>notice who r. s' = s\<lparr>jobs := fmupd (j_id (sj_job c)) r (jobs s)\<rparr> \<and>
    jr_spec r = (with_notice (Some notice) (sj_job c))\<lparr>j_submitted_by := who\<rparr> \<and>
    (ps_notice (j_preemption (sj_job c)) = None \<or> ps_notice (j_preemption (sj_job c)) = Some notice) \<and>
    authorize s (sj_actor c) (VSubmit (j_quota_entity (sj_job c))) = Inr ()"
proof -
  let ?n = "resolve_notice (ps_notice (j_preemption (sj_job c))) (po_preemption_notice_floor (policy s))"
  define spec where "spec = (case sj_actor c of None \<Rightarrow> with_notice (Some ?n) (sj_job c)
    | Some a \<Rightarrow> (with_notice (Some ?n) (sj_job c))\<lparr>j_submitted_by := Some (ac_principal a)\<rparr>)"
  have "s' = s\<lparr>jobs := fmupd (j_id (sj_job c)) \<lparr>jr_spec = spec, jr_state = Queued, jr_multiplier = sj_multiplier c,
      jr_submitted_at = sj_submitted_at c, jr_terminal_at = None, jr_retries_used = 0, jr_attempts = []\<rparr> (jobs s)\<rparr>"
    and "authorize s (sj_actor c) (VSubmit (j_quota_entity (sj_job c))) = Inr ()"
    using assms by (auto simp: submit_fresh_def Let_def spec_def split: if_splits sum.splits)
  moreover have "spec = (with_notice (Some ?n) (sj_job c))\<lparr>j_submitted_by := j_submitted_by spec\<rparr>"
    by (simp add: spec_def with_notice_def split: option.split)
  moreover have "ps_notice (j_preemption (sj_job c)) = None \<or> ps_notice (j_preemption (sj_job c)) = Some ?n"
    by (auto simp: resolve_notice_def split: option.split)
  ultimately show ?thesis by (metis job_record.select_convs(1))
qed

lemma authorize_cong: "bindings s' = bindings s \<Longrightarrow> quota_entities s' = quota_entities s \<Longrightarrow> authorize s' = authorize s"
  by (simp add: authorize_def fun_eq_iff cong: option.case_cong)

lemma submit_fresh_retry:
  assumes "submit_fresh c s = (s', Inr evs)"
  shows "\<exists>r. fmlookup (jobs s') (j_id (sj_job c)) = Some r \<and> submit_existing c r s' = (s', Inr [])"
proof -
  obtain notice who r where s': "s' = s\<lparr>jobs := fmupd (j_id (sj_job c)) r (jobs s)\<rparr>"
    and spec: "jr_spec r = (with_notice (Some notice) (sj_job c))\<lparr>j_submitted_by := who\<rparr>"
    and notice: "ps_notice (j_preemption (sj_job c)) = None \<or> ps_notice (j_preemption (sj_job c)) = Some notice"
    and auth: "authorize s (sj_actor c) (VSubmit (j_quota_entity (sj_job c))) = Inr ()"
    using submit_fresh_accepted [OF assms] by blast
  have "authorize s' (sj_actor c) (VSubmit (j_quota_entity (sj_job c))) = Inr ()"
    using auth authorize_cong [of s' s] by (simp add: s')
  moreover have "same_submission (jr_spec r) (if ps_notice (j_preemption (sj_job c)) = None
      then with_notice (ps_notice (j_preemption (jr_spec r))) (sj_job c) else sj_job c)"
    using notice by (auto simp: spec same_submission_def with_notice_def)
  ultimately show ?thesis using s' by (simp add: submit_existing_def Let_def)
qed

section \<open>Authority\<close>

text \<open>The verb that a command asks for, and for whom, where it carries an actor.\<close>

definition demanded :: "command \<Rightarrow> state_machine \<Rightarrow> (actor \<times> verb) option" where
  "demanded cmd s =
     (case cmd of
        SubmitJob c \<Rightarrow> map_option (\<lambda>a. (a, VSubmit (j_quota_entity (sj_job c)))) (sj_actor c)
      | AbortJob c \<Rightarrow> Option.bind (fmlookup (jobs s) (aj_job c))
          (\<lambda>r. map_option (\<lambda>a. (a, VAbort (j_quota_entity (jr_spec r)) (j_submitted_by (jr_spec r)))) (aj_actor c))
      | UpdateJobMetadata c \<Rightarrow> Option.bind (fmlookup (jobs s) (um_job c))
          (\<lambda>r. map_option (\<lambda>a. (a, VUpdateJobMetadata (j_quota_entity (jr_spec r)) (j_submitted_by (jr_spec r)))) (um_actor c))
      | SetNodeDrain c \<Rightarrow> map_option (\<lambda>a. (a, VDrain)) (sd_actor c)
      | EvictNodes c \<Rightarrow> map_option (\<lambda>a. (a, VDrain)) (en_actor c)
      | ConfigureQuotaEntity c \<Rightarrow> map_option (\<lambda>a. (a, VConfigureQuotaEntity (cq_entity c) (cq_parent c))) (cq_actor c)
      | UpdatePolicy c \<Rightarrow> map_option (\<lambda>a. (a, VUpdatePolicy)) (up_actor c)
      | UpdateAuthorization c \<Rightarrow> map_option (\<lambda>a. (a, VUpdateAuthorization)) (ua_actor c)
      | BumpClusterVersion _ actor _ \<Rightarrow> map_option (\<lambda>a. (a, VBumpClusterVersion)) actor
      | _ \<Rightarrow> None)"

lemma authorize_granted: "authorize s (Some a) v = Inr u \<Longrightarrow> evaluate (bindings s) (quota_entities s) a v = Inr ()"
  by (auto simp: authorize_def split: sum.splits)

lemma accepted_authorized:
  "submit_job sj s = (s', Inr evs) \<Longrightarrow> authorize s (sj_actor sj) (VSubmit (j_quota_entity (sj_job sj))) = Inr ()"
  "abort_job aj s = (s', Inr evs) \<Longrightarrow> fmlookup (jobs s) (aj_job aj) = Some r \<Longrightarrow>
     authorize s (aj_actor aj) (VAbort (j_quota_entity (jr_spec r)) (j_submitted_by (jr_spec r))) = Inr ()"
  "update_job_metadata um s = (s', Inr evs) \<Longrightarrow> fmlookup (jobs s) (um_job um) = Some r \<Longrightarrow>
     authorize s (um_actor um) (VUpdateJobMetadata (j_quota_entity (jr_spec r)) (j_submitted_by (jr_spec r))) = Inr ()"
  "set_node_drain sd s = (s', Inr evs) \<Longrightarrow> authorize s (sd_actor sd) VDrain = Inr ()"
  "evict_nodes en s = (s', Inr evs) \<Longrightarrow> authorize s (en_actor en) VDrain = Inr ()"
  "configure_quota_entity ext cq s = (s', Inr evs) \<Longrightarrow>
     authorize s (cq_actor cq) (VConfigureQuotaEntity (cq_entity cq) (cq_parent cq)) = Inr ()"
  "update_policy up s = (s', Inr evs) \<Longrightarrow> authorize s (up_actor up) VUpdatePolicy = Inr ()"
  "update_authorization ua s = (s', Inr evs) \<Longrightarrow> authorize s (ua_actor ua) VUpdateAuthorization = Inr ()"
  "bump_cluster_version to actor t s = (s', Inr evs) \<Longrightarrow> authorize s actor VBumpClusterVersion = Inr ()"
  by (auto simp: submit_job_def submit_existing_def submit_fresh_def abort_job_def update_job_metadata_def set_node_drain_def
      evict_nodes_def configure_quota_entity_def configure_existing_def configure_new_def update_policy_def
      update_authorization_def bump_cluster_version_def Let_def split: if_splits sum.splits option.splits)

end
