(* ===== verification/Accounting.thy ===== *)
theory Accounting
  imports Reachable
begin

text \<open>
  The quota tree as the ledger of the cluster: charges and settlements reach exactly the ancestors of
  the entity a job was submitted under, each once, and an entity's path is a name for it.
\<close>

section \<open>Ancestors\<close>

lemma rooted_ancestor: "ancestor es e a \<Longrightarrow> rooted n es e \<Longrightarrow> rooted n es a"
proof (induction arbitrary: n rule: ancestor.induct)
  case (up e p a)
  obtain m where n: "n = Suc m" using up.prems by (cases n) auto
  have "rooted m es p" using up.prems up.hyps(1) by (auto simp: n parent_of_def bind_eq_Some_conv)
  then show ?case using up.IH [of m] rooted_mono [of m es a n] n by simp
qed

lemma no_cycle: "parent_of es e = Some p \<Longrightarrow> ancestor es p e \<Longrightarrow> \<not> rooted n es e"
proof (induction n)
  case (Suc n)
  show ?case
  proof
    assume "rooted (Suc n) es e"
    then have "rooted n es p" using Suc.prems(1) by (auto simp: parent_of_def bind_eq_Some_conv)
    then show False using rooted_ancestor [OF Suc.prems(2)] Suc by blast
  qed
qed simp

text \<open>An update along the path from an entity to its root.\<close>

lemma chain_upd_usage:
  "fmlookup es e = Some q \<Longrightarrow> parent_of (fmupd e (q\<lparr>qe_usage := u\<rparr>) es) x = parent_of es x"
  by (auto simp: parent_of_def)

lemma rooted_parent_cong: "(\<And>x. fmlookup es' x = None \<longleftrightarrow> fmlookup es x = None) \<Longrightarrow> (\<And>x. parent_of es' x = parent_of es x) \<Longrightarrow>
    rooted n es e \<Longrightarrow> rooted n es' e"
proof (induction n arbitrary: e)
  case (Suc n)
  obtain q where q: "fmlookup es e = Some q" using Suc.prems(3) by (auto split: option.splits)
  obtain q' where q': "fmlookup es' e = Some q'" using Suc.prems(1) [of e] q by (cases "fmlookup es' e") auto
  have par: "qe_parent q' = qe_parent q" using Suc.prems(2) [of e] q q' by (simp add: parent_of_def)
  show ?case
  proof (cases "qe_parent q")
    case (Some p)
    then have "rooted n es p" using Suc.prems(3) q by simp
    then have "rooted n es' p" by (rule Suc.IH [OF Suc.prems(1,2)])
    then show ?thesis using Some q' par by simp
  qed (use q' par in simp)
qed simp

lemma ancestor_cong: "(\<And>x. parent_of es' x = parent_of es x) \<Longrightarrow> ancestor es' e a \<longleftrightarrow> ancestor es e a"
proof -
  assume eq: "\<And>x. parent_of es' x = parent_of es x"
  have "ancestor es' e a" if "ancestor es e a" for e a
    using that by induction (auto intro: ancestor.intros simp: eq)
  moreover have "ancestor es e a" if "ancestor es' e a" for e a
    using that by induction (auto intro: ancestor.intros simp: eq [symmetric])
  ultimately show ?thesis by blast
qed

lemma update_ancestors_lookup:
  "rooted n es e \<Longrightarrow> fmlookup (update_ancestors n f (Some e) es) a =
     (if ancestor es e a then map_option (\<lambda>q. q\<lparr>qe_usage := f (qe_usage q)\<rparr>) (fmlookup es a) else fmlookup es a)"
proof (induction n arbitrary: e es)
  case (Suc n)
  obtain q where q: "fmlookup es e = Some q" using Suc.prems by (auto split: option.splits)
  let ?es = "fmupd e (q\<lparr>qe_usage := f (qe_usage q)\<rparr>) es"
  show ?case
  proof (cases "qe_parent q")
    case None
    then have "ancestor es e a \<longleftrightarrow> a = e" using q by (auto elim: ancestor.cases intro: self simp: parent_of_def)
    moreover have "update_ancestors (Suc n) f (Some e) es = ?es" using q None by (cases n) simp_all
    ultimately show ?thesis using q by auto
  next
    case (Some p)
    then have par: "parent_of es e = Some p" using q by (simp add: parent_of_def)
    have cong: "parent_of ?es x = parent_of es x" for x using q by (rule chain_upd_usage)
    have dom: "fmlookup ?es x = None \<longleftrightarrow> fmlookup es x = None" for x using q by auto
    have "rooted n es p" using Suc.prems q Some by simp
    then have "rooted n ?es p" by (rule rooted_parent_cong [OF dom cong])
    then have IH: "fmlookup (update_ancestors n f (Some p) ?es) a =
      (if ancestor es p a then map_option (\<lambda>q. q\<lparr>qe_usage := f (qe_usage q)\<rparr>) (fmlookup ?es a) else fmlookup ?es a)"
      using Suc.IH ancestor_cong [OF cong] by simp
    have step: "update_ancestors (Suc n) f (Some e) es = update_ancestors n f (Some p) ?es" using q Some by simp
    show ?thesis
    proof (cases "a = e")
      case True
      then have "\<not> ancestor es p a" using no_cycle [OF par] Suc.prems by blast
      then show ?thesis using IH step True q self by simp
    next
      case False
      then have "ancestor es e a \<longleftrightarrow> ancestor es p a"
        using par by (auto elim: ancestor.cases intro: up)
      then show ?thesis using IH step False by simp
    qed
  qed
qed simp

section \<open>Paths name entities\<close>

lemma child_named_unique:
  assumes wf: "tree_wf ext es" and q: "fmlookup es e = Some q"
  shows "child_named es (qe_parent q) (qe_name q) = Some e"
proof (cases "child_named es (qe_parent q) (qe_name q)")
  case None
  then show ?thesis using q by (auto simp: child_named_None)
next
  case (Some e')
  then obtain q' where "find (\<lambda>(e, q'). qe_parent q' = qe_parent q \<and> qe_name q' = qe_name q) (entries es) = Some (e', q')"
    by (auto simp: child_named_def)
  then have "(e', q') \<in> set (entries es)" "qe_parent q' = qe_parent q" "qe_name q' = qe_name q"
    by (auto simp: find_Some_iff) (metis nth_mem)
  then have "fmlookup es e' = Some q'" "qe_parent q' = qe_parent q" "qe_name q' = qe_name q" by (auto simp: set_entries)
  then have "e' = e" using wf q unfolding tree_wf_def by blast
  then show ?thesis using Some by simp
qed

lemma names_from_length: "length (names_from n es cur) \<le> n"
  by (induction n es cur rule: names_from.induct) (auto split: option.split)

lemma names_from_valid: "tree_wf ext es \<Longrightarrow> s \<in> set (names_from n es cur) \<Longrightarrow> validate_segment ext s = Inr ()"
proof (induction n arbitrary: cur)
  case (Suc n)
  obtain e q where e: "cur = Some e" "fmlookup es e = Some q"
    using Suc.prems(2) by (cases cur; cases "fmlookup es (the cur)") auto
  then have "s = qe_name q \<or> s \<in> set (names_from n es (qe_parent q))" using Suc.prems(2) by simp
  then show ?case using Suc.IH [OF Suc.prems(1)] Suc.prems(1) e(2) by (auto simp: tree_wf_def)
qed simp

lemma resolve_from_append:
  "resolve_from (length xs + n) es parent (xs @ ys) =
     (case resolve_from (length xs) es parent xs of
        None \<Rightarrow> if xs = [] then resolve_from n es parent ys else None
      | Some e \<Rightarrow> resolve_from n es (Some e) ys)"
proof (induction xs arbitrary: parent)
  case Nil
  then show ?case by (cases parent) simp_all
next
  case (Cons x xs)
  show ?case
  proof (cases "child_named es parent x")
    case (Some e)
    then show ?thesis using Cons.IH [of "Some e"] by (cases xs) (simp_all split: option.split)
  qed simp
qed

lemma resolve_names:
  "tree_wf ext es \<Longrightarrow> rooted n es e \<Longrightarrow>
     resolve_from (length (names_from n es (Some e))) es None (rev (names_from n es (Some e))) = Some e"
proof (induction n arbitrary: e)
  case (Suc n)
  obtain q where q: "fmlookup es e = Some q" using Suc.prems(2) by (auto split: option.splits)
  let ?up = "names_from n es (qe_parent q)"
  have child: "child_named es (qe_parent q) (qe_name q) = Some e" by (rule child_named_unique [OF Suc.prems(1) q])
  show ?case
  proof (cases "qe_parent q")
    case None
    then have "?up = []" by (cases n) simp_all
    then show ?thesis using q child None by simp
  next
    case (Some p)
    then have "rooted n es p" using Suc.prems(2) q by simp
    then have IH: "resolve_from (length ?up) es None (rev ?up) = Some p" using Suc.IH [OF Suc.prems(1)] Some by simp
    have "resolve_from (length (rev ?up) + 1) es None (rev ?up @ [qe_name q]) = Some e"
      unfolding resolve_from_append using IH child Some by simp
    then show ?thesis using q by simp
  qed
qed simp

lemma resolve_from_mono: "resolve_from n es parent xs = Some e \<Longrightarrow> n \<le> m \<Longrightarrow> resolve_from m es parent xs = Some e"
proof (induction n es parent xs arbitrary: m rule: resolve_from.induct)
  case (3 n es parent segment rest)
  then show ?case by (cases m) (auto split: option.splits)
qed auto

lemma path_resolves:
  assumes wf: "tree_wf ext es" and path: "quota_entity_path es e = Some str"
  shows "path_from_str ext str = Inr (QuotaEntityPath str) \<and> resolve_quota_entity_path es (QuotaEntityPath str) = Some e"
proof -
  let ?names = "rev (names_from QUOTA_TREE_DEPTH_CAP es (Some e))"
  obtain q where q: "fmlookup es e = Some q" and str: "str = join_with PATH_SEPARATOR ?names"
    using path by (auto simp: quota_entity_path_def split: if_splits)
  have valid: "validate_segment ext seg = Inr ()" if "seg \<in> set ?names" for seg
    using names_from_valid [OF wf] that by simp
  have "?names \<noteq> []" using q by (simp add: QUOTA_TREE_DEPTH_CAP_def numeral_eq_Suc)
  then have segs: "split_on PATH_SEPARATOR str = ?names"
    unfolding str by (rule split_join) (use valid segment_separator_free in blast)
  have "resolve_from (length ?names) es None ?names = Some e"
    using resolve_names [OF wf tree_wf_rooted [OF wf q]] by simp
  then have "resolve_from QUOTA_TREE_DEPTH_CAP es None ?names = Some e"
    by (rule resolve_from_mono) (simp add: names_from_length)
  then show ?thesis using valid by (simp add: path_from_str_ok segs resolve_quota_entity_path_def path_segments_def)
qed

end
