(* ===== verification/Scenario.thy ===== *)
theory Scenario
  imports Accounting
begin

text \<open>
  A small cluster, run step by step: one node of four cores, one quota entity, and two jobs of three
  cores that the scheduler places together, so that the first is funded and the second accrues what is
  left. The properties of the development are applied to its states.
\<close>

definition cores :: "u64 \<Rightarrow> resources" where
  "cores n = \<lparr>cpu_millis = 1000 * n, memory = 0, disk = 0\<rparr>"

definition demo_node :: command where
  "demo_node = RegisterNode \<lparr>rg_node = Tid 1, rg_capacity = cores 4, rg_labels = fmempty, rg_registered_at = ts_of 0,
     rg_service_addr = None, rg_host_facts = None, rg_detected_capacity = None, rg_draining = False,
     rg_preemptible_only = False, rg_interruption_deadline = None\<rparr>"

definition demo_account :: command where
  "demo_account = ConfigureQuotaEntity \<lparr>cq_entity = Tid 1, cq_parent = None, cq_name = ''acme'', cq_quota = 1000,
     cq_preemptible = None, cq_actor = None, cq_updated_at = ts_of 0\<rparr>"

definition demo_job :: "uuid \<Rightarrow> job" where
  "demo_job j = \<lparr>j_id = Tid j, j_image = ''img'', j_command = [], j_entrypoint = None, j_env = fmempty,
     j_requests = cores 3, j_priority = 0, j_max_runtime = Some (dur_from_secs 60), j_quota_entity = Tid 1,
     j_retry = \<lparr>max_retries = 1, retry_user_errors = False\<rparr>, j_abort_requested = None, j_submitted_by = None,
     j_metadata = fmempty, j_preemption = \<lparr>ps_preemptible = False, ps_notice = None, ps_notice_signal = Sigterm\<rparr>\<rparr>"

definition demo_submit :: "uuid \<Rightarrow> command" where
  "demo_submit j = SubmitJob \<lparr>sj_job = demo_job j, sj_multiplier = DEFAULT_UNBOUNDED_RUNTIME_MULTIPLIER,
     sj_actor = None, sj_submitted_at = ts_of 0\<rparr>"

definition demo_place :: "uuid \<Rightarrow> placement" where
  "demo_place j = \<lparr>pl_job = Tid j, pl_attempt = Tid j, pl_group = Tid j,
     pl_allocations = [\<lparr>as_id = Tid j, as_node = Tid 1, as_requested = cores 3\<rparr>], pl_preemptions = []\<rparr>"

definition demo_batch :: commit_placements_cmd where
  "demo_batch = \<lparr>cp_expected_version = 4, cp_revocations = [],
     cp_placements = [demo_place 1, demo_place 2], cp_proposed_at = ts_of 0\<rparr>"

definition demo_setup :: "command list" where
  "demo_setup = [demo_node, demo_account, demo_submit 1, demo_submit 2]"

definition demo_node_record :: node_record where
  "demo_node_record = \<lparr>nr_node = \<lparr>nd_id = Tid 1, nd_capacity = cores 4, nd_labels = fmempty, nd_drain = None,
       nd_service_addr = None, nd_host_facts = None, nd_detected_capacity = None, nd_preemptible_only = False\<rparr>,
     nr_epoch = 1, nr_draining = False, nr_interruption_deadline = None\<rparr>"

definition demo_entity_record :: "usage_state \<Rightarrow> quota_entity" where
  "demo_entity_record u = \<lparr>qe_parent = None, qe_name = ''acme'', qe_quota = 1000, qe_usage = u,
     qe_created_at = ts_of 0, qe_updated_at = ts_of 0, qe_preemptible = True\<rparr>"

definition demo_job_record :: "uuid \<Rightarrow> job_record" where
  "demo_job_record j = \<lparr>jr_spec = with_notice (Some DEFAULT_PREEMPTION_NOTICE_FLOOR) (demo_job j), jr_state = Queued,
     jr_multiplier = DEFAULT_UNBOUNDED_RUNTIME_MULTIPLIER, jr_submitted_at = ts_of 0, jr_terminal_at = None,
     jr_retries_used = 0, jr_attempts = []\<rparr>"

definition demo_ready :: state_machine where
  "demo_ready = state_default\<lparr>nodes := fmupd (Tid 1) demo_node_record fmempty,
     quota_entities := fmupd (Tid 1) (demo_entity_record (usage_new (ts_of 0))) fmempty,
     jobs := fmupd (Tid 2) (demo_job_record 2) (fmupd (Tid 1) (demo_job_record 1) fmempty), version := 4\<rparr>"

lemma demo_register:
  "step_of ext_nil demo_node state_default =
     state_default\<lparr>nodes := fmupd (Tid 1) demo_node_record fmempty, version := 1\<rparr>"
  by (simp add: demo_node_def demo_node_record_def apply_command_def dispatch_def register_node_def new_node_def
      state_default_def pledge_node_def Let_def node_queue_def om_eval)

lemma demo_configure:
  "fmlookup (quota_entities s) (Tid 1) = None \<Longrightarrow> entries (quota_entities s) = [] \<Longrightarrow> step_of ext_nil demo_account s =
     s\<lparr>quota_entities := fmupd (Tid 1) (demo_entity_record (usage_new (ts_of 0))) (quota_entities s), version := version s + 1\<rparr>"
  by (simp add: demo_account_def demo_entity_record_def apply_command_def dispatch_def configure_quota_entity_def
      configure_new_def check_parent_def Let_def demo_segments child_named_def authorize_def)

lemma demo_submitted:
  "fmlookup (jobs s) (Tid j) = None \<Longrightarrow> has_key (Tid 1) (quota_entities s) \<Longrightarrow> policy s = policy_default \<Longrightarrow>
   step_of ext_nil (demo_submit j) s = s\<lparr>jobs := fmupd (Tid j) (demo_job_record j) (jobs s), version := version s + 1\<rparr>"
  by (simp add: demo_submit_def demo_job_record_def demo_job_def apply_command_def dispatch_def submit_job_def
      submit_fresh_def with_notice_def resolve_notice_def validate_notice_def policy_default_def
      DEFAULT_PREEMPTION_NOTICE_FLOOR_def DEFAULT_PREEMPTION_NOTICE_CAP_def dur_from_mins_def
      validate_metadata_def validate_env_def Let_def authorize_def om_eval)

lemma demo_setup_run: "run_log ext_nil demo_setup state_default = demo_ready"
  by (simp add: run_log_def demo_setup_def demo_ready_def demo_register [unfolded state_default_def]
      demo_configure demo_submitted state_default_def)

lemma demo_ready_fields [simp]:
  "nodes demo_ready = fmupd (Tid 1) demo_node_record fmempty"
  "quota_entities demo_ready = fmupd (Tid 1) (demo_entity_record (usage_new (ts_of 0))) fmempty"
  "jobs demo_ready = fmupd (Tid 2) (demo_job_record 2) (fmupd (Tid 1) (demo_job_record 1) fmempty)"
  "attempts demo_ready = fmempty" "allocations demo_ready = fmempty" "accrual_queue demo_ready = fmempty"
  "policy demo_ready = policy_default" "next_allocation_seq demo_ready = 0" "version demo_ready = 4"
  by (simp_all add: demo_ready_def state_default_def)

lemma demo_used: "used_capacity_memo demo_ready = fmempty"
  by (simp add: used_capacity_memo_def om_eval)

lemma cores_cases [simp]:
  "res_sub (cores 4) res_zero = cores 4" "component_min (cores 4) (cores 3) = cores 3" "res_sub (cores 4) (cores 3) = cores 1"
  "component_min (cores 1) (cores 3) = cores 1" "cores 1 \<noteq> cores 3" "res_add res_zero (cores 3) = cores 3"
  "fits_within (cores 3) (cores 4)"
  by (simp_all add: cores_def res_defs sat_sub_def sat_add_def min_def)

lemma demo_free [simp]: "free_capacity demo_ready (Tid 1) (Some fmempty) = cores 4"
  by (simp add: free_capacity_def demo_node_record_def memo_get_def)

lemma demo_admits [simp]: "node_admits demo_node_record j now p horizon = AdmissionOpen"
  by (simp add: node_admits_def node_admission_of_def admission_admits_def demo_node_record_def)

lemma demo_node_fields [simp]:
  "nd_capacity (nr_node demo_node_record) = cores 4" "nd_preemptible_only (nr_node demo_node_record) = False"
  "nd_drain (nr_node demo_node_record) = None" "nr_draining demo_node_record = False"
  by (simp_all add: demo_node_record_def)

lemma demo_job_fields [simp]:
  "jr_state (demo_job_record j) = Queued" "j_quota_entity (jr_spec (demo_job_record j)) = Tid 1" "jr_attempts (demo_job_record j) = []"
  by (simp_all add: demo_job_record_def demo_job_def with_notice_def)

lemma demo_place_fields [simp]:
  "pl_job (demo_place j) = Tid j" "pl_attempt (demo_place j) = Tid j" "pl_group (demo_place j) = Tid j"
  "pl_allocations (demo_place j) = [\<lparr>as_id = Tid j, as_node = Tid 1, as_requested = cores 3\<rparr>]" "pl_preemptions (demo_place j) = []"
  by (simp_all add: demo_place_def)

lemma demo_item:
  "j \<in> {1, 2} \<Longrightarrow> Tid j |\<notin>| js \<Longrightarrow> Tid j |\<notin>| ats \<Longrightarrow> Tid j |\<notin>| als \<Longrightarrow>
   validate_item demo_ready (demo_place j) {||} js ats als used bf None = (bf, None, Inr (None, []))"
  by (auto simp: validate_item_def validate_placement_def Let_def)

lemma demo_validation:
  "batch_validation demo_ready demo_batch = ({||}, [], [(demo_place 1, None, []), (demo_place 2, None, [])])"
  by (simp add: batch_validation_def demo_batch_def demo_used Let_def drained_targets_def preempt_check_for_batch_def
      preempt_targets_def demo_item)

lemma demo_accrual: "check_accrual_limit demo_ready demo_batch {||} fmempty = None"
  by (simp add: check_accrual_limit_def run_accrual_sim_def accruing_jobs_before_def sim_placement_def sim_node_def
      sim_queue_def touched_nodes_def demo_batch_def add_revoked_funded_def Let_def om_eval node_queue_def
      policy_default_def fcard_finsert fcard_fempty fm_or_insert_def)

definition demo_allocation :: "uuid \<Rightarrow> resources \<Rightarrow> u64 \<Rightarrow> allocation_record" where
  "demo_allocation j funded seq = seat_allocation (demo_place j)
     \<lparr>as_id = Tid j, as_node = Tid 1, as_requested = cores 3\<rparr> funded seq"

definition demo_attempt :: "uuid \<Rightarrow> bool \<Rightarrow> attempt_record" where
  "demo_attempt j fully = \<lparr>atr_attempt = \<lparr>att_id = Tid j, att_job = Tid j, att_allocation = Tid j, att_node = Tid 1,
       att_state = (if fully then Ready else AttAccruing)\<rparr>, atr_group = Tid j,
     atr_charge = \<lparr>ch_amount = 0, ch_charged_at = ts_of 0, ch_refund_fraction_milli = DEFAULT_REFUND_FRACTION_MILLI,
       ch_interval = None\<rparr>,
     atr_rate = 0, atr_multiplier = DEFAULT_UNBOUNDED_RUNTIME_MULTIPLIER, atr_started_at = None, atr_ended_at = None,
     atr_settlement = None, atr_effective_preemptible = False, atr_preemption = None, atr_drain_cutoff = None\<rparr>"

lemma demo_seat:
  "policy s = policy_default \<Longrightarrow> seat_attempt s (demo_job_record j) (demo_place j)
     \<lparr>as_id = Tid j, as_node = Tid 1, as_requested = cores 3\<rparr> fully (ts_of 0) None = demo_attempt j fully"
  by (simp add: seat_attempt_def demo_attempt_def demo_job_record_def demo_job_def with_notice_def placement_price_def
      effective_preemptible_def policy_default_def Let_def resource_rate_def rate_term_def sat_u128_def sat_word_def
      cost_from_rate_def)

definition demo_running :: "uuid \<Rightarrow> job_record" where
  "demo_running j = (demo_job_record j)\<lparr>jr_attempts := [Tid j], jr_state := Attempting (Tid j)\<rparr>"

lemma demo_place_step:
  assumes "fmlookup (jobs s) (Tid j) = Some (demo_job_record j)" "policy s = policy_default"
    "component_min (free_capacity s (Tid 1) (Some used)) (cores 3) = funded" "has_key (Tid 1) (nodes s)"
    and fully: "fully \<longleftrightarrow> funded = cores 3"
  shows "place (ts_of 0) (demo_place j, None, []) ((s, evs), used) =
    ((charge_ancestors (Tid 1) 0 (ts_of 0) (s\<lparr>next_allocation_seq := next_allocation_seq s + 1,
       allocations := fmupd (Tid j) (demo_allocation j funded (next_allocation_seq s)) (allocations s),
       accrual_queue := (if fully then accrual_queue s else fmupd (Tid 1, next_allocation_seq s) (Tid j) (accrual_queue s)),
       attempts := fmupd (Tid j) (demo_attempt j fully) (attempts s),
       jobs := fmupd (Tid j) (demo_running j) (jobs s)\<rparr>),
      evs @ AttemptStateChanged (Tid j) (Tid j) (Tid 1) (if fully then Ready else AttAccruing) #
        (if fully then [AllocationFunded (Tid j) (Tid j) (Tid 1)] else []) @
        [JobStateChanged (Tid j) Queued (Attempting (Tid j))]), memo_add (Tid 1) funded used)"
  using assms(1-4) unfolding fully
  by (simp add: place_def demo_allocation_def demo_running_def demo_seat Let_def demo_attempt_def)

definition demo_placed :: state_machine where
  "demo_placed = charge_ancestors (Tid 1) 0 (ts_of 0) (charge_ancestors (Tid 1) 0 (ts_of 0)
     (demo_ready\<lparr>next_allocation_seq := 2,
        allocations := fmupd (Tid 2) (demo_allocation 2 (cores 1) 1) (fmupd (Tid 1) (demo_allocation 1 (cores 3) 0) fmempty),
        accrual_queue := fmupd (Tid 1, 1) (Tid 2) fmempty,
        attempts := fmupd (Tid 2) (demo_attempt 2 False) (fmupd (Tid 1) (demo_attempt 1 True) fmempty),
        jobs := fmupd (Tid 2) (demo_running 2) (fmupd (Tid 1) (demo_running 1) fmempty), version := 5\<rparr>))"

lemma demo_commit_run: "apply_command ext_nil (CommitPlacements demo_batch) demo_ready = (demo_placed,
   Inr [AttemptStateChanged (Tid 1) (Tid 1) (Tid 1) Ready, AllocationFunded (Tid 1) (Tid 1) (Tid 1),
     JobStateChanged (Tid 1) Queued (Attempting (Tid 1)),
     AttemptStateChanged (Tid 2) (Tid 2) (Tid 1) AttAccruing, JobStateChanged (Tid 2) Queued (Attempting (Tid 2))])"
proof -
  have free: "free_capacity s (Tid 1) (Some (memo_add (Tid 1) (cores 3) fmempty)) = cores 1"
    if "nodes s = fmupd (Tid 1) demo_node_record fmempty" for s
    using that by (simp add: free_capacity_def memo_add_def memo_get_def fm_or_insert_def)
  have js: "fmupd (Tid 2) (demo_running 2) (fmupd (Tid 1) (demo_running 1) (fmupd (Tid 2) (demo_job_record 2)
      (fmupd (Tid 1) (demo_job_record 1) fmempty))) = fmupd (Tid 2) (demo_running 2) (fmupd (Tid 1) (demo_running 1) fmempty)"
    by (rule fmap_ext) simp
  have batch: "cp_revocations demo_batch = []" "cp_proposed_at demo_batch = ts_of 0" by (simp_all add: demo_batch_def)
  show ?thesis
    by (simp add: apply_command_def dispatch_def commit_placements_def demo_validation demo_used demo_accrual Let_def
        commit_effects_def batch demo_place_step demo_place_step [where fully = False] charge_ancestors_def free js demo_placed_def)
qed

definition demo_log :: "command list" where
  "demo_log = demo_setup @ [CommitPlacements demo_batch]"

lemma demo_log_run: "run_log ext_nil demo_log state_default = demo_placed"
  using demo_setup_run by (simp add: run_log_def demo_log_def demo_commit_run)

lemma demo_log_bounded: "log_bounded demo_log"
  by (simp add: demo_log_def demo_setup_def placements_of_def demo_node_def demo_account_def demo_submit_def demo_batch_def)

lemma demo_placed_fields [simp]:
  "nodes demo_placed = fmupd (Tid 1) demo_node_record fmempty"
  "allocations demo_placed =
     fmupd (Tid 2) (demo_allocation 2 (cores 1) 1) (fmupd (Tid 1) (demo_allocation 1 (cores 3) 0) fmempty)"
  "accrual_queue demo_placed = fmupd (Tid 1, 1) (Tid 2) fmempty"
  "attempts demo_placed = fmupd (Tid 2) (demo_attempt 2 False) (fmupd (Tid 1) (demo_attempt 1 True) fmempty)"
  "jobs demo_placed = fmupd (Tid 2) (demo_running 2) (fmupd (Tid 1) (demo_running 1) fmempty)"
  "policy demo_placed = policy_default" "next_allocation_seq demo_placed = 2" "version demo_placed = 5"
  by (simp_all add: demo_placed_def charge_ancestors_def)

lemma demo_allocation_fields [simp]:
  "knode (demo_allocation j f q) = Tid 1" "krequested (demo_allocation j f q) = cores 3" "kfunded (demo_allocation j f q) = f"
  "kstate (demo_allocation j f q) = (if f = cores 3 then Funded else Accruing)" "kattempt (demo_allocation j f q) = Tid j"
  "alr_seq (demo_allocation j f q) = q"
  by (simp_all add: demo_allocation_def seat_allocation_def)

lemma demo_attempt_fields [simp]:
  "ajob (demo_attempt j b) = Tid j" "aalloc (demo_attempt j b) = Tid j" "astate (demo_attempt j b) = (if b then Ready else AttAccruing)"
  "att_node (atr_attempt (demo_attempt j b)) = Tid 1"
  by (simp_all add: demo_attempt_def)

lemma demo_running_fields [simp]:
  "jr_state (demo_running j) = Attempting (Tid j)" "jr_attempts (demo_running j) = [Tid j]"
  by (simp_all add: demo_running_def)

text \<open>The first job placed alone, and the log in which it then runs to success.\<close>

definition demo_solo :: command where
  "demo_solo = CommitPlacements (demo_batch\<lparr>cp_placements := [demo_place 1]\<rparr>)"

definition demo_seated :: state_machine where
  "demo_seated = charge_ancestors (Tid 1) 0 (ts_of 0) (demo_ready\<lparr>next_allocation_seq := 1,
     allocations := fmupd (Tid 1) (demo_allocation 1 (cores 3) 0) fmempty,
     attempts := fmupd (Tid 1) (demo_attempt 1 True) fmempty,
     jobs := fmupd (Tid 1) (demo_running 1) (jobs demo_ready), version := 5\<rparr>)"

lemma demo_solo_validation:
  "batch_validation demo_ready (demo_batch\<lparr>cp_placements := [demo_place 1]\<rparr>) = ({||}, [], [(demo_place 1, None, [])])"
  by (simp add: batch_validation_def demo_batch_def demo_used Let_def drained_targets_def preempt_check_for_batch_def
      preempt_targets_def demo_item)

lemma demo_solo_accrual: "check_accrual_limit demo_ready (demo_batch\<lparr>cp_placements := [demo_place 1]\<rparr>) {||} fmempty = None"
  by (simp add: check_accrual_limit_def run_accrual_sim_def accruing_jobs_before_def sim_placement_def sim_node_def
      sim_queue_def touched_nodes_def demo_batch_def add_revoked_funded_def Let_def om_eval node_queue_def
      policy_default_def fcard_finsert fcard_fempty fm_or_insert_def)

lemma demo_solo_step: "step_of ext_nil demo_solo demo_ready = demo_seated"
proof -
  have batch: "cp_revocations demo_batch = []" "cp_proposed_at demo_batch = ts_of 0" by (simp_all add: demo_batch_def)
  show ?thesis
    by (simp add: apply_command_def demo_solo_def dispatch_def commit_placements_def demo_solo_validation demo_used
        demo_solo_accrual Let_def commit_effects_def batch demo_place_step charge_ancestors_def demo_seated_def)
qed

lemma demo_solo_run: "run_log ext_nil (demo_setup @ [demo_solo]) state_default = demo_seated"
  using demo_setup_run by (simp add: run_log_def demo_solo_step)

lemma demo_solo_bounded: "log_bounded (demo_setup @ [demo_solo])"
  by (simp add: demo_setup_def demo_solo_def placements_of_def demo_node_def demo_account_def demo_submit_def)

lemma demo_seated_fields [simp]:
  "nodes demo_seated = fmupd (Tid 1) demo_node_record fmempty"
  "allocations demo_seated = fmupd (Tid 1) (demo_allocation 1 (cores 3) 0) fmempty"
  "attempts demo_seated = fmupd (Tid 1) (demo_attempt 1 True) fmempty"
  "jobs demo_seated = fmupd (Tid 1) (demo_running 1) (fmupd (Tid 2) (demo_job_record 2) (fmupd (Tid 1) (demo_job_record 1) fmempty))"
  "policy demo_seated = policy_default" "accrual_queue demo_seated = fmempty"
  by (simp_all add: demo_seated_def charge_ancestors_def)

text \<open>The second job aborted while queued.\<close>

definition demo_abort :: command where
  "demo_abort = AbortJob \<lparr>aj_job = Tid 2, aj_reason = None, aj_actor = None, aj_requested_at = ts_of 0\<rparr>"

definition demo_aborted_record :: job_record where
  "demo_aborted_record = (demo_job_record 2)\<lparr>
     jr_spec := (jr_spec (demo_job_record 2))\<lparr>j_abort_requested := Some \<lparr>ar_reason = None, ar_requested_at = ts_of 0\<rparr>\<rparr>,
     jr_state := JobAborted, jr_terminal_at := Some (ts_of 0)\<rparr>"

lemma demo_abort_step: "step_of ext_nil demo_abort demo_ready = demo_ready\<lparr>jobs := fmupd (Tid 2) demo_aborted_record (jobs demo_ready), version := 5\<rparr>"
  by (simp add: demo_abort_def apply_command_def dispatch_def abort_job_def abort_effects_def authorize_def Let_def
      flag_abort_def demo_aborted_record_def demo_job_record_def demo_job_def with_notice_def)

lemma demo_abort_run: "run_log ext_nil (demo_setup @ [demo_abort]) state_default =
    demo_ready\<lparr>jobs := fmupd (Tid 2) demo_aborted_record (jobs demo_ready), version := 5\<rparr>"
  using demo_setup_run by (simp add: run_log_def demo_abort_step)

lemma demo_abort_bounded: "log_bounded ((demo_setup @ [demo_abort]) @ [demo_submit 3])"
  by (simp add: demo_setup_def demo_abort_def placements_of_def demo_node_def demo_account_def demo_submit_def)

lemma demo_submit_events: "JobSubmitted i \<in> set (log_events ext_nil [demo_submit j] s) \<Longrightarrow> i = Tid j"
  by (auto simp: demo_submit_def demo_job_def apply_command_def dispatch_def submit_job_def submit_existing_def
      submit_fresh_def Let_def split: if_splits option.splits sum.splits)

section \<open>An oversubscribed node\<close>

text \<open>
  The node comes back with two cores while four are held. The batch then revokes the accruing allocation
  and places two more jobs, of half a core each, on the node.
\<close>

definition demo_shrink :: register_node_cmd where
  "demo_shrink = \<lparr>rg_node = Tid 1, rg_capacity = cores 2, rg_labels = fmempty, rg_registered_at = ts_of 0,
     rg_service_addr = None, rg_host_facts = None, rg_detected_capacity = None, rg_draining = False,
     rg_preemptible_only = False, rg_interruption_deadline = None\<rparr>"

definition half_core :: resources where
  "half_core = \<lparr>cpu_millis = 500, memory = 0, disk = 0\<rparr>"

definition demo_small :: "uuid \<Rightarrow> placement" where
  "demo_small j = \<lparr>pl_job = Tid j, pl_attempt = Tid j, pl_group = Tid j,
     pl_allocations = [\<lparr>as_id = Tid j, as_node = Tid 1, as_requested = half_core\<rparr>], pl_preemptions = []\<rparr>"

definition demo_swap :: commit_placements_cmd where
  "demo_swap = \<lparr>cp_expected_version = 8, cp_revocations = [Tid 2],
     cp_placements = [demo_small 3, demo_small 4], cp_proposed_at = ts_of 0\<rparr>"

definition demo_small_record :: node_record where
  "demo_small_record = demo_node_record\<lparr>nr_node := (nr_node demo_node_record)\<lparr>nd_capacity := cores 2\<rparr>, nr_epoch := 2\<rparr>"

definition demo_tight :: state_machine where
  "demo_tight = demo_placed\<lparr>jobs := fmupd (Tid 4) (demo_job_record 4) (fmupd (Tid 3) (demo_job_record 3) (jobs demo_placed)),
     nodes := fmupd (Tid 1) demo_small_record fmempty, version := 8\<rparr>"

lemma cores_oversubscribed [simp]:
  "res_add res_zero (cores 3) = cores 3" "res_add (cores 3) (cores 1) = cores 4" "res_sub (cores 2) (cores 4) = res_zero"
  "res_sub (cores 4) (cores 1) = cores 3" "res_sub (cores 2) (cores 3) = res_zero" "res_is_zero res_zero"
  "component_min res_zero x = res_zero" "half_core \<noteq> res_zero" "res_zero \<noteq> half_core" "res_add res_zero (cores 1) = cores 1"
  "component_min (cores 1) half_core = half_core" "res_sub (cores 1) half_core = half_core" "component_min half_core half_core = half_core"
  "res_sub half_core half_core = res_zero" "fits_within half_core (cores 2)"
  by (simp_all add: cores_def half_core_def res_defs sat_sub_def sat_add_def min_def)

lemma demo_scan: "allocations s = allocations demo_placed \<Longrightarrow> used_scan s (Tid 1) = cores 4"
  by (simp add: used_scan_def om_eval live_allocation_def)

lemma demo_placed_entity: "\<exists>q. fmlookup (quota_entities demo_placed) (Tid 1) = Some q"
  by (simp add: demo_placed_def charge_ancestors_def QUOTA_TREE_DEPTH_CAP_def numeral_eq_Suc demo_entity_record_def)

lemma demo_shrunk:
  "nodes s = fmupd (Tid 1) demo_node_record fmempty \<Longrightarrow> allocations s = allocations demo_placed \<Longrightarrow>
     step_of ext_nil (RegisterNode demo_shrink) s = s\<lparr>nodes := fmupd (Tid 1) demo_small_record fmempty, version := version s + 1\<rparr>"
  by (simp add: apply_command_def dispatch_def register_node_def demo_shrink_def reregister_def pledge_node_def
      free_capacity_def demo_scan Let_def) (simp add: demo_small_record_def demo_node_record_def)

lemma demo_tight_run:
  "run_log ext_nil (demo_log @ [demo_submit 3, demo_submit 4, RegisterNode demo_shrink]) state_default = demo_tight"
  using demo_placed_entity
  by (simp add: run_log_def demo_log_run [unfolded run_log_def] demo_submitted demo_shrunk demo_tight_def)

lemma demo_tight_fields [simp]:
  "nodes demo_tight = fmupd (Tid 1) demo_small_record fmempty" "allocations demo_tight = allocations demo_placed"
  "accrual_queue demo_tight = accrual_queue demo_placed" "attempts demo_tight = attempts demo_placed"
  "quota_entities demo_tight = quota_entities demo_placed" "policy demo_tight = policy_default"
  "next_allocation_seq demo_tight = 2"
  "jobs demo_tight = fmupd (Tid 4) (demo_job_record 4) (fmupd (Tid 3) (demo_job_record 3) (jobs demo_placed))"
  by (simp_all add: demo_tight_def)

lemma demo_small_fields [simp]:
  "nd_capacity (nr_node demo_small_record) = cores 2" "nd_preemptible_only (nr_node demo_small_record) = False"
  "nd_drain (nr_node demo_small_record) = None" "nr_draining demo_small_record = False"
  "node_admits demo_small_record j now p horizon = AdmissionOpen"
  by (simp_all add: demo_small_record_def demo_node_record_def node_admits_def node_admission_of_def admission_admits_def)

lemma demo_tight_used: "used_capacity_memo demo_tight = fmupd (Tid 1) (cores 4) fmempty"
  by (simp add: used_capacity_memo_def om_eval live_allocation_def memo_add_def fm_or_insert_def fmmodify_Some)

lemma demo_tight_validation:
  "batch_validation demo_tight demo_swap = ({|Tid 2|}, [], [(demo_small 3, None, []), (demo_small 4, None, [])])"
  using demo_placed_entity
  by (simp add: batch_validation_def demo_swap_def demo_tight_used Let_def drained_targets_def preempt_check_for_batch_def
      preempt_targets_def demo_small_def validate_item_def validate_placement_def)

lemma demo_tight_accrual: "check_accrual_limit demo_tight demo_swap {|Tid 2|} (used_capacity_memo demo_tight) = None"
  by (simp add: check_accrual_limit_def run_accrual_sim_def accruing_jobs_before_def sim_placement_def sim_node_def
      sim_queue_def sim_queue_step_def touched_nodes_def demo_swap_def add_revoked_funded_def Let_def om_eval node_queue_def
      demo_tight_used policy_default_def fcard_finsert fcard_fempty fm_or_insert_def demo_small_def free_capacity_def memo_get_def)

lemma demo_revoke:
  obtains s' evs where
    "revoke_allocation (ts_of 0) (Tid 2) ((demo_tight, []), Some (used_capacity_memo demo_tight)) =
       ((s', evs), Some (fmupd (Tid 1) (cores 3) fmempty))"
    "nodes s' = nodes demo_tight" "fmlookup (jobs s') (Tid 3) = Some (demo_job_record 3)"
    "fmlookup (jobs s') (Tid 4) = Some (demo_job_record 4)"
proof -
  have r: "fmlookup (attempts demo_tight) (Tid 2) = Some (demo_attempt 2 False)" "\<not> attempt_terminal (astate (demo_attempt 2 False))"
    and al: "fmlookup (allocations demo_tight) (aalloc (demo_attempt 2 False)) = Some (demo_allocation 2 (cores 1) 1)"
      "live_allocation (demo_allocation 2 (cores 1) 1)"
    by (simp_all add: live_allocation_def)
  let ?s = "released (Tid 2) (ended Revoked (ts_of 0) (demo_attempt 2 False)) (demo_allocation 2 (cores 1) 1) demo_tight"
  have rel: "nodes ?s = nodes demo_tight" "jobs ?s = jobs demo_tight" by (simp_all add: released_def)
  have memo: "memo_sub (Tid 1) (cores 1) (used_capacity_memo demo_tight) = fmupd (Tid 1) (cores 3) fmempty"
    by (simp add: demo_tight_used memo_sub_def fmmodify_Some)
  have "free_capacity ?s (Tid 1) (Some (fmupd (Tid 1) (cores 3) fmempty)) = res_zero"
    by (simp add: free_capacity_def rel memo_get_def)
  then have pass: "pass_if True (Tid 1) (Some (fmupd (Tid 1) (cores 3) fmempty)) (?s, es) = ((?s, es), Some (fmupd (Tid 1) (cores 3) fmempty))" for es
    by (simp add: pass_if_def pledge_node_def)
  note eq = terminate_attempt_eq [OF r al, of Revoked dur_zero "ts_of 0" True "Some (used_capacity_memo demo_tight)" "[]"]
  show thesis
    apply (rule that)
    apply (simp add: revoke_allocation_def eq memo pass rel resolve_job_eq settle_ancestors_def Let_def
        del: terminate_attempt.simps resolve_job.simps)
    apply (simp_all add: rel)
    done
qed

lemma demo_small_step:
  assumes "fmlookup (jobs s) (Tid j) = Some (demo_job_record j)" "nodes s = nodes demo_tight"
    "used = fmupd (Tid 1) (cores 3) fmempty"
  obtains s' evs' where "place (ts_of 0) (demo_small j, None, []) ((s, evs), used) = ((s', evs'), used)"
    "nodes s' = nodes demo_tight" "\<And>i. i \<noteq> j \<Longrightarrow> fmlookup (jobs s') (Tid i) = fmlookup (jobs s) (Tid i)"
    "\<And>i. i \<noteq> j \<Longrightarrow> fmlookup (allocations s') (Tid i) = fmlookup (allocations s) (Tid i)"
    "\<exists>al. fmlookup (allocations s') (Tid j) = Some al \<and> kstate al = Accruing \<and> knode al = Tid 1 \<and> al_job (alr_allocation al) = Tid j"
  using assms by (simp add: place_def demo_small_def Let_def free_capacity_def memo_get_def charge_ancestors_def memo_add_def
      fm_or_insert_def fmmodify_Some seat_allocation_def)

lemma demo_swap_run:
  obtains s' evs where "apply_command ext_nil (CommitPlacements demo_swap) demo_tight = (s', Inr evs)"
    "\<exists>al. fmlookup (allocations s') (Tid 3) = Some al \<and> kstate al = Accruing \<and> knode al = Tid 1 \<and> al_job (alr_allocation al) = Tid 3"
    "\<exists>al. fmlookup (allocations s') (Tid 4) = Some al \<and> kstate al = Accruing \<and> knode al = Tid 1 \<and> al_job (alr_allocation al) = Tid 4"
proof -
  obtain s1 evs1 where 1: "revoke_allocation (ts_of 0) (Tid 2) ((demo_tight, []), Some (used_capacity_memo demo_tight)) =
       ((s1, evs1), Some (fmupd (Tid 1) (cores 3) fmempty))"
    "nodes s1 = nodes demo_tight" "fmlookup (jobs s1) (Tid 3) = Some (demo_job_record 3)"
    "fmlookup (jobs s1) (Tid 4) = Some (demo_job_record 4)" by (rule demo_revoke)
  obtain s2 evs2 where 2: "place (ts_of 0) (demo_small 3, None, []) ((s1, evs1), fmupd (Tid 1) (cores 3) fmempty) =
      ((s2, evs2), fmupd (Tid 1) (cores 3) fmempty)" "nodes s2 = nodes demo_tight"
    "fmlookup (jobs s2) (Tid 4) = fmlookup (jobs s1) (Tid 4)"
    "\<exists>al. fmlookup (allocations s2) (Tid 3) = Some al \<and> kstate al = Accruing \<and> knode al = Tid 1 \<and> al_job (alr_allocation al) = Tid 3"
    by (rule demo_small_step [OF 1(3,2) refl, of evs1]) auto
  obtain s3 evs3 where 3: "place (ts_of 0) (demo_small 4, None, []) ((s2, evs2), fmupd (Tid 1) (cores 3) fmempty) =
      ((s3, evs3), fmupd (Tid 1) (cores 3) fmempty)"
    "fmlookup (allocations s3) (Tid 3) = fmlookup (allocations s2) (Tid 3)"
    "\<exists>al. fmlookup (allocations s3) (Tid 4) = Some al \<and> kstate al = Accruing \<and> knode al = Tid 1 \<and> al_job (alr_allocation al) = Tid 4"
    by (rule demo_small_step [OF _ 2(2) refl, of 4 evs2]) (use 1 2 in auto)
  have batch: "cp_revocations demo_swap = [Tid 2]" "cp_proposed_at demo_swap = ts_of 0" by (simp_all add: demo_swap_def)
  have "commit_effects demo_swap [(demo_small 3, None, []), (demo_small 4, None, [])] (used_capacity_memo demo_tight) demo_tight = (s3, evs3)"
    by (simp add: commit_effects_def batch 1 2(1) 3(1))
  then have "apply_command ext_nil (CommitPlacements demo_swap) demo_tight = (s3\<lparr>version := version s3 + 1\<rparr>, Inr evs3)"
    by (simp add: apply_command_def dispatch_def commit_placements_def demo_tight_validation demo_tight_accrual Let_def)
  then show thesis using that [of "s3\<lparr>version := version s3 + 1\<rparr>" evs3] 2(4) 3(2,3) by simp
qed

end
