(* ===== verification/Projection.thy ===== *)
theory Projection
  imports Apply
begin

text \<open>
  The projection of accrual bounds, \<open>coppice-scheduler/src/projection.rs\<close>: the guaranteed releases of
  a node and the sweep that pledges them to the accrual queue. The metrics and the memo table of a
  published view are not modelled: they do not feed a decision.
\<close>

record release_event =
  re_at :: timestamp
  re_seq :: u64
  re_freed :: resources

text \<open>\<open>BTreeMap::entry(k).or_default().push(v)\<close>.\<close>

definition fm_push :: "'k \<Rightarrow> 'v \<Rightarrow> ('k, 'v list) fmap \<Rightarrow> ('k, 'v list) fmap" where
  "fm_push k v m = fmmodify k (\<lambda>vs. vs @ [v]) (fm_or_insert k [] m)"

definition fm_get :: "'k \<Rightarrow> ('k, 'v list) fmap \<Rightarrow> 'v list" where
  "fm_get k m = (case fmlookup m k of None \<Rightarrow> [] | Some vs \<Rightarrow> vs)"

definition collect_release_events :: "state_machine \<Rightarrow> (node_id, release_event list) fmap" where
  "collect_release_events s =
     fold (\<lambda>rec events.
        case guaranteed_release s rec of
          None \<Rightarrow> events
        | Some release \<Rightarrow> fm_push (al_node (alr_allocation rec))
            \<lparr>re_at = release, re_seq = alr_seq rec, re_freed = al_funded (alr_allocation rec)\<rparr> events)
       (vals (allocations s)) fmempty"

definition sort_release_events :: "release_event list \<Rightarrow> release_event list" where
  "sort_release_events events = sort_key (\<lambda>e. (re_at e, re_seq e)) events"

text \<open>
  One event of the sweep: the pool is pledged along the queue until it is empty. An entry of the queue is
  what the allocation still needs and the time its need reached zero.
\<close>

type_synonym sweep_entry = "resources \<times> timestamp option"

fun pledge_pool :: "timestamp \<Rightarrow> resources \<Rightarrow> sweep_entry list \<Rightarrow> resources \<times> sweep_entry list" where
  "pledge_pool t pool [] = (pool, [])"
| "pledge_pool t pool ((r, rd) # rest) =
     (if res_is_zero pool then (pool, (r, rd) # rest)
      else if res_is_zero r then
        let (pool, rest) = pledge_pool t pool rest in (pool, (r, rd) # rest)
      else
        let pledge = component_min pool r;
            r' = res_sub r pledge;
            rd' = (if res_is_zero r' \<and> rd = None then Some t else rd);
            (pool', rest') = pledge_pool t (res_sub pool pledge) rest
        in (pool', (r', rd') # rest'))"

fun sweep_events :: "release_event list \<Rightarrow> resources \<Rightarrow> sweep_entry list \<Rightarrow> sweep_entry list" where
  "sweep_events [] pool queue = queue"
| "sweep_events (ev # evs) pool queue =
     (let (pool, queue) = pledge_pool (re_at ev) (res_add pool (re_freed ev)) queue
      in sweep_events evs pool queue)"

definition sweep_projected_ready :: "release_event list \<Rightarrow> resources list \<Rightarrow> timestamp option list" where
  "sweep_projected_ready events remaining =
     map snd (sweep_events events res_zero (map (\<lambda>r. (r, None)) remaining))"

definition queues_by_node :: "state_machine \<Rightarrow> (node_id, allocation_id list) fmap" where
  "queues_by_node s = fold (\<lambda>((n, _), al) m. fm_push n al m) (entries (accrual_queue s)) fmempty"

definition queue_needs :: "state_machine \<Rightarrow> allocation_id list \<Rightarrow> (allocation_id \<times> resources) list" where
  "queue_needs s als =
     List.map_filter (\<lambda>al. map_option (\<lambda>rec. (al, allocation_need rec)) (fmlookup (allocations s) al)) als"

definition projected_starts :: "state_machine \<Rightarrow> (allocation_id, timestamp option) fmap" where
  "projected_starts s =
     (let events = collect_release_events s in
      fold (\<lambda>(n, als) out.
         let evs = sort_release_events (fm_get n events);
             queue = queue_needs s als;
             ready = sweep_projected_ready evs (map snd queue)
         in fold (\<lambda>((al, _), t) out. fmupd al t out) (zip queue ready) out)
       (entries (queues_by_node s)) fmempty)"

end
