(* ===== verification/Scores.thy ===== *)
theory Scores
  imports Projection
begin

text \<open>
  The effective score and the packing keys of the scheduler (\<open>coppice-scheduler/src/score.rs\<close>, the
  pure keys of \<open>engine.rs\<close>, and the two floating-point helpers of \<open>coppice-core/src/quota.rs\<close>). The
  values are \<open>f64\<close> numbers that order a pass and are discarded. The operations of \<open>f64\<close> are a record
  of functions, so what is proved of a pass holds whatever the rounding of the hardware does; the
  formulas over them are the source's.
\<close>

record 'f f64 =
  f_of_nat :: "nat \<Rightarrow> 'f"
  f_of_int :: "int \<Rightarrow> 'f"
  f_infinity :: 'f
  f_add :: "'f \<Rightarrow> 'f \<Rightarrow> 'f"
  f_sub :: "'f \<Rightarrow> 'f \<Rightarrow> 'f"
  f_mul :: "'f \<Rightarrow> 'f \<Rightarrow> 'f"
  f_div :: "'f \<Rightarrow> 'f \<Rightarrow> 'f"
  f_max :: "'f \<Rightarrow> 'f \<Rightarrow> 'f"
  f_min :: "'f \<Rightarrow> 'f \<Rightarrow> 'f"
  f_ln :: "'f \<Rightarrow> 'f"
  f_powf :: "'f \<Rightarrow> 'f \<Rightarrow> 'f"
  f_lt :: "'f \<Rightarrow> 'f \<Rightarrow> bool"
  f_le :: "'f \<Rightarrow> 'f \<Rightarrow> bool"
  f_eq :: "'f \<Rightarrow> 'f \<Rightarrow> bool"
  f_total_lt :: "'f \<Rightarrow> 'f \<Rightarrow> bool"
  f_is_finite :: "'f \<Rightarrow> bool"
  f_as_i64 :: "'f \<Rightarrow> int"

definition f_zero :: "'f f64 \<Rightarrow> 'f" where "f_zero F = f_of_nat F 0"
definition f_one :: "'f f64 \<Rightarrow> 'f" where "f_one F = f_of_nat F 1"

section \<open>Quota ratios\<close>

definition over_quota_ratio :: "'f f64 \<Rightarrow> cost_units \<Rightarrow> cost_units \<Rightarrow> 'f" where
  "over_quota_ratio F usage quota =
     (if quota = 0 then (if usage = 0 then f_zero F else f_infinity F)
      else f_div F (f_of_nat F (unat usage)) (f_of_nat F (unat quota)))"

definition penalty :: "'f f64 \<Rightarrow> 'f \<Rightarrow> u32 \<Rightarrow> 'f" where
  "penalty F ratio exponent_milli =
     (if f_le F ratio (f_one F) then f_one F
      else f_powf F ratio (f_div F (f_of_nat F (unat exponent_milli)) (f_of_nat F 1000)))"

section \<open>The effective score\<close>

definition dur_as_secs_f64 :: "'f f64 \<Rightarrow> duration \<Rightarrow> 'f" where
  "dur_as_secs_f64 F d = f_div F (f_of_int F (dur_micros d)) (f_of_nat F 1000000)"

definition effective_score :: "'f f64 \<Rightarrow> priority_multiplier \<Rightarrow> 'f \<Rightarrow> timestamp \<Rightarrow> timestamp \<Rightarrow> duration \<Rightarrow> 'f \<Rightarrow> 'f" where
  "effective_score F multiplier product submitted_at now horizon w_age =
     (let m = f_div F (f_of_nat F (unat multiplier)) (f_of_nat F (2 ^ 32));
          priority_term = f_div F m product;
          age = max (ts_duration_since now submitted_at) dur_zero;
          horizon = max horizon (dur_of 1)
      in f_add F priority_term (f_mul F w_age (f_div F (dur_as_secs_f64 F age) (dur_as_secs_f64 F horizon))))"

fun penalty_walk :: "'f f64 \<Rightarrow> quota_tree \<Rightarrow> policy_config \<Rightarrow> timestamp \<Rightarrow> nat \<Rightarrow> quota_entity_id option \<Rightarrow> 'f \<Rightarrow> 'f" where
  "penalty_walk F es p now 0 cur product = product"
| "penalty_walk F es p now (Suc n) cur product =
     (case cur of
        None \<Rightarrow> product
      | Some e \<Rightarrow>
          (case fmlookup es e of
             None \<Rightarrow> product
           | Some q \<Rightarrow>
               let decayed = decay_between (po_decay p) (us_usage (qe_usage q)) (us_last_update (qe_usage q)) now
               in penalty_walk F es p now n (qe_parent q)
                    (f_mul F product (penalty F (over_quota_ratio F decayed (qe_quota q)) (po_penalty_exponent_milli p)))))"

definition penalty_product :: "'f f64 \<Rightarrow> quota_tree \<Rightarrow> quota_entity_id \<Rightarrow> policy_config \<Rightarrow> timestamp \<Rightarrow> 'f" where
  "penalty_product F es leaf p now = penalty_walk F es p now QUOTA_TREE_DEPTH_CAP (Some leaf) (f_one F)"

definition age_horizon :: "'f f64 \<Rightarrow> decay_policy \<Rightarrow> duration" where
  "age_horizon F decay =
     (let tk = max (tick decay) (dur_of 1);
          lambda = f_div F (f_of_nat F (unat (decay_per_tick decay))) (f_of_nat F (2 ^ 64))
      in if \<not> (f_lt F (f_zero F) lambda \<and> f_lt F lambda (f_one F)) then tk
         else
           let half_life_ticks = f_div F (f_ln F (f_div F (f_one F) (f_of_nat F 2))) (f_ln F lambda);
               ticks = f_of_int F (dur_micros tk);
               horizon = f_mul F half_life_ticks ticks
           in if f_is_finite F horizon \<and> f_le F ticks horizon
              then dur_of (f_as_i64 F (f_min F horizon (f_of_int F (2 ^ 63 - 1))))
              else tk)"

record 'f rank =
  rk_score :: 'f
  rk_submitted_at :: timestamp
  rk_job :: job_id

text \<open>\<open>Ord for Rank\<close>: score descending by \<open>total_cmp\<close>, then first come first served, then the id.\<close>

definition rank_less :: "'f f64 \<Rightarrow> 'f rank \<Rightarrow> 'f rank \<Rightarrow> bool" where
  "rank_less F a b \<longleftrightarrow>
     (if f_total_lt F (rk_score b) (rk_score a) then True
      else if f_total_lt F (rk_score a) (rk_score b) then False
      else if rk_submitted_at a \<noteq> rk_submitted_at b then rk_submitted_at a < rk_submitted_at b
      else rk_job a < rk_job b)"

fun insert_by :: "('a \<Rightarrow> 'a \<Rightarrow> bool) \<Rightarrow> 'a \<Rightarrow> 'a list \<Rightarrow> 'a list" where
  "insert_by lt x [] = [x]"
| "insert_by lt x (y # ys) = (if lt y x then y # insert_by lt x ys else x # y # ys)"

definition sort_by :: "('a \<Rightarrow> 'a \<Rightarrow> bool) \<Rightarrow> 'a list \<Rightarrow> 'a list" where
  "sort_by lt xs = foldr (insert_by lt) xs []"

section \<open>Packing keys\<close>

definition f_frac :: "'f f64 \<Rightarrow> 'f \<Rightarrow> 'f \<Rightarrow> 'f \<Rightarrow> 'f" where
  "f_frac F none a c = (if f_eq F c (f_zero F) then none else f_div F a c)"

definition dominant_leftover_fraction :: "'f f64 \<Rightarrow> resources \<Rightarrow> resources \<Rightarrow> resources \<Rightarrow> 'f" where
  "dominant_leftover_fraction F free requested capacity =
     (let after = res_sub free requested;
          frac = (\<lambda>a c. f_frac F (f_zero F) (f_of_nat F (unat a)) (f_of_nat F (unat c)))
      in f_max F (f_max F (frac (cpu_millis after) (cpu_millis capacity)) (frac (memory after) (memory capacity)))
           (frac (disk after) (disk capacity)))"

definition borrowed_fraction :: "'f f64 \<Rightarrow> resources \<Rightarrow> resources \<Rightarrow> resources \<Rightarrow> 'f" where
  "borrowed_fraction F free requested capacity =
     (let borrow = res_sub requested free;
          frac = (\<lambda>b c. f_frac F (f_zero F) (f_of_nat F (unat b)) (f_of_nat F (unat c)))
      in f_add F (f_add F (frac (cpu_millis borrow) (cpu_millis capacity)) (frac (memory borrow) (memory capacity)))
           (frac (disk borrow) (disk capacity)))"

definition pledge_fraction :: "'f f64 \<Rightarrow> resources \<Rightarrow> resources \<Rightarrow> 'f" where
  "pledge_fraction F free requested =
     (let pledge = component_min free requested;
          frac = (\<lambda>a r. f_frac F (f_one F) (f_of_nat F (unat a)) (f_of_nat F (unat r)))
      in f_add F (f_add F (frac (cpu_millis pledge) (cpu_millis requested)) (frac (memory pledge) (memory requested)))
           (frac (disk pledge) (disk requested)))"

end
