(* ===== verification/Pass_Model.thy ===== *)
theory Pass_Model
  imports Scores
begin

text \<open>
  The working model of a scheduling pass: the configuration and the proposal of
  \<open>coppice-scheduler/src/lib.rs\<close>, the per-node model, the pass and the batch simulator of
  \<open>engine.rs\<close>, and the victims of \<open>engine/preempt.rs\<close>. A pass is a pure function of a snapshot and
  a time; its mutable struct is a record that the steps return updated.
\<close>

section \<open>Configuration and proposal\<close>

record 'f scheduler_config =
  cf_max_candidates :: nat
  cf_max_placements_per_cycle :: nat
  cf_w_age :: 'f
  cf_replan_min_improvement :: duration
  cf_max_preempting_placements_per_cycle :: nat
  cf_preemption_cooldown :: duration
  cf_preemption_min_improvement :: duration

definition scheduler_config_default :: "'f f64 \<Rightarrow> 'f scheduler_config" where
  "scheduler_config_default F = \<lparr>cf_max_candidates = 4096, cf_max_placements_per_cycle = 512, cf_w_age = f_one F,
     cf_replan_min_improvement = dur_from_mins 5, cf_max_preempting_placements_per_cycle = 2,
     cf_preemption_cooldown = dur_from_mins 5, cf_preemption_min_improvement = dur_from_hours 1\<rparr>"

record proposed_placement =
  pp_job :: job_id
  pp_node :: node_id
  pp_requested :: resources
  pp_expect_funded :: bool
  pp_preemptions :: "eviction list"

record placement_proposal =
  pr_against_version :: u64
  pr_now :: timestamp
  pr_revocations :: "allocation_id list"
  pr_placements :: "proposed_placement list"

definition proposal_is_empty :: "placement_proposal \<Rightarrow> bool" where
  "proposal_is_empty pr \<longleftrightarrow> pr_revocations pr = [] \<and> pr_placements pr = []"

text \<open>The caller mints the ids; \<open>mint i\<close> is what the call for the \<open>i\<close>-th placement returns.\<close>

definition to_placement :: "attempt_id \<times> allocation_id \<Rightarrow> proposed_placement \<Rightarrow> placement" where
  "to_placement ids p = \<lparr>pl_job = pp_job p, pl_attempt = fst ids, pl_group = Tid (tid_uuid (pp_job p)),
     pl_allocations = [\<lparr>as_id = snd ids, as_node = pp_node p, as_requested = pp_requested p\<rparr>],
     pl_preemptions = pp_preemptions p\<rparr>"

definition to_commit_placements :: "(nat \<Rightarrow> attempt_id \<times> allocation_id) \<Rightarrow> placement_proposal \<Rightarrow> commit_placements_cmd" where
  "to_commit_placements mint pr = \<lparr>cp_expected_version = pr_against_version pr, cp_revocations = pr_revocations pr,
     cp_placements = map (\<lambda>(i, p). to_placement (mint i) p) (enumerate 0 (pr_placements pr)), cp_proposed_at = pr_now pr\<rparr>"

section \<open>The working model\<close>

record sim_accrual =
  sa_alloc :: allocation_id
  sa_job :: job_id
  sa_requested :: resources
  sa_funded :: resources
  sa_projected_ready :: "timestamp option"

record 'f victim =
  vi_alloc :: allocation_id
  vi_seq :: u64
  vi_requested :: resources
  vi_funded :: resources
  vi_priority :: int
  vi_score :: 'f
  vi_work_at_risk :: nat
  vi_notice :: duration
  vi_preemptible_now :: bool

record 'f node_model =
  nm_node :: node
  nm_admission :: node_admission
  nm_sim_free :: resources
  nm_accruals :: "sim_accrual list"
  nm_events :: "release_event list"
  nm_pending_accruals :: "resources list"
  nm_victims :: "'f victim list"

definition spot_admits :: "'f node_model \<Rightarrow> bool \<Rightarrow> bool" where
  "spot_admits nm preemptible \<longleftrightarrow> \<not> nd_preemptible_only (nm_node nm) \<or> preemptible"

definition model_admits :: "'f node_model \<Rightarrow> bool \<Rightarrow> bool" where
  "model_admits nm preemptible \<longleftrightarrow> nm_admission nm = AdmitOpen \<and> spot_admits nm preemptible"

definition prefers_on_tie :: "bool \<Rightarrow> 'f node_model \<Rightarrow> 'f node_model \<Rightarrow> bool" where
  "prefers_on_tie preemptible candidate incumbent \<longleftrightarrow>
     preemptible \<and> nd_preemptible_only (nm_node candidate) \<and> \<not> nd_preemptible_only (nm_node incumbent)"

definition required_labels :: "job \<Rightarrow> (string, string) fmap" where
  "required_labels j = fmempty"

definition node_satisfies_labels :: "(string, string) fmap \<Rightarrow> (string, string) fmap \<Rightarrow> bool" where
  "node_satisfies_labels required labels \<longleftrightarrow> list_all (\<lambda>(k, v). fmlookup labels k = Some v) (entries required)"

definition cache_affinity_bonus :: "'f f64 \<Rightarrow> job \<Rightarrow> node \<Rightarrow> 'f" where
  "cache_affinity_bonus F j n = f_zero F"

record 'f pass =
  pa_snapshot :: state_machine
  pa_now :: timestamp
  pa_max_candidates :: nat
  pa_max_placements :: nat
  pa_w_age :: 'f
  pa_horizon :: duration
  pa_accrual_limit :: nat
  pa_min_improvement :: duration
  pa_base_before :: nat
  pa_base_free :: "(node_id, resources) fmap"
  pa_nodes :: "'f node_model list"
  pa_node_index :: "(node_id, nat) fmap"
  pa_placed_nodes :: "node_id fset"
  pa_revoked_nodes :: "node_id fset"
  pa_revocations :: "allocation_id list"
  pa_placements :: "proposed_placement list"
  pa_ledger :: preemption_ledger
  pa_evicted_nodes :: "node_id fset"
  pa_preempting_left :: nat
  pa_cooldown :: duration
  pa_spot :: "(node_id, resources) fmap"
  pa_preempt_min_improvement :: duration
  pa_penalties :: "(quota_entity_id, 'f) fmap"

definition entity_penalty :: "'f f64 \<Rightarrow> (quota_entity_id, 'f) fmap \<Rightarrow> state_machine \<Rightarrow> quota_entity_id \<Rightarrow> timestamp \<Rightarrow>
    (quota_entity_id, 'f) fmap \<times> 'f" where
  "entity_penalty F memo s leaf now =
     (case fmlookup memo leaf of
        Some v \<Rightarrow> (memo, v)
      | None \<Rightarrow> let v = penalty_product F (quota_entities s) leaf (policy s) now in (fmupd leaf v memo, v))"

section \<open>Helpers that mirror apply\<close>

definition distinct_accruing_jobs :: "state_machine \<Rightarrow> nat" where
  "distinct_accruing_jobs s =
     fcard (fold (\<lambda>al js. case fmlookup (allocations s) al of
         None \<Rightarrow> js
       | Some a \<Rightarrow> finsert (al_job (alr_allocation a)) js) (vals (accrual_queue s)) {||})"

definition free_capacity_map :: "state_machine \<Rightarrow> (node_id, resources) fmap" where
  "free_capacity_map s =
     (let used = fold (\<lambda>r used. if al_state (alr_allocation r) \<noteq> Released
            then memo_add (al_node (alr_allocation r)) (al_funded (alr_allocation r)) used else used)
          (vals (allocations s)) fmempty
      in fold (\<lambda>(n, rec) m. fmupd n (res_sub (nd_capacity (nr_node rec)) (memo_get used n)) m) (entries (nodes s)) fmempty)"

definition accrual_needs :: "'f node_model \<Rightarrow> resources list" where
  "accrual_needs nm = map (\<lambda>a. res_sub (sa_requested a) (sa_funded a)) (nm_accruals nm)"

definition candidate_projected_ready :: "'f node_model \<Rightarrow> resources \<Rightarrow> timestamp option" where
  "candidate_projected_ready nm remaining =
     last (sweep_projected_ready (nm_events nm) (accrual_needs nm @ nm_pending_accruals nm @ [remaining]))"

section \<open>The batch simulator\<close>

record batch_sim =
  bs_funded :: "bool list"
  bs_rejects_accrual :: bool
  bs_rejects_per_node :: bool

definition sim_rejected :: "batch_sim \<Rightarrow> bool" where
  "sim_rejected b \<longleftrightarrow> bs_rejects_accrual b \<or> bs_rejects_per_node b"

definition batch_touched :: "state_machine \<Rightarrow> allocation_id list \<Rightarrow> proposed_placement list \<Rightarrow> node_id fset" where
  "batch_touched s revocations placements =
     fset_of_list (List.map_filter (\<lambda>al. map_option (\<lambda>a. al_node (alr_allocation a)) (fmlookup (allocations s) al)) revocations)
     |\<union>| fset_of_list (map pp_node placements)"

text \<open>
  The walk over one touched node. The capacity the revocations free flows to the surviving queue in commit
  order, as in apply; the source repeats apply's loop, and so the model uses apply's walk.
\<close>

definition batch_node :: "state_machine \<Rightarrow> (node_id, resources) fmap \<Rightarrow> allocation_id list \<Rightarrow> node_id \<Rightarrow> accrual_sim \<Rightarrow> accrual_sim" where
  "batch_node s base_free revocations n sim =
     (let free = add_revoked_funded s n revocations (memo_get base_free n);
          (free, accruing, node_jobs) =
            sim_queue s (fset_of_list revocations) (map snd (node_queue s n)) (free, sim_accruing sim, {||})
      in sim\<lparr>sim_accruing := accruing, sim_free := fmupd n free (sim_free sim),
             sim_per_node := fmupd n node_jobs (sim_per_node sim)\<rparr>)"

definition batch_placement :: "proposed_placement \<Rightarrow> accrual_sim \<times> bool list \<Rightarrow> accrual_sim \<times> bool list" where
  "batch_placement p acc =
     (let (sim, funded) = acc in
      case fmlookup (sim_free sim) (pp_node p) of
        None \<Rightarrow> (sim, funded @ [False])
      | Some free \<Rightarrow>
          let pledge = component_min free (pp_requested p);
              sim = sim\<lparr>sim_free := fmupd (pp_node p) (res_sub free pledge) (sim_free sim)\<rparr>;
              full = (pledge = pp_requested p)
          in (if full then sim
              else sim\<lparr>sim_accruing := finsert (pp_job p) (sim_accruing sim),
                       sim_per_node := fmmodify (pp_node p) (finsert (pp_job p))
                         (fm_or_insert (pp_node p) {||} (sim_per_node sim))\<rparr>,
              funded @ [full]))"

definition simulate_nodes :: "state_machine \<Rightarrow> (node_id, resources) fmap \<Rightarrow> allocation_id list \<Rightarrow> proposed_placement list \<Rightarrow> accrual_sim" where
  "simulate_nodes s base_free revocations placements =
     fold (batch_node s base_free revocations) (sorted_list_of_fset (batch_touched s revocations placements))
       \<lparr>sim_accruing = accruing_jobs_before s (fset_of_list revocations), sim_free = fmempty, sim_per_node = fmempty\<rparr>"

definition simulate_batch :: "state_machine \<Rightarrow> (node_id, resources) fmap \<Rightarrow> allocation_id list \<Rightarrow> proposed_placement list \<Rightarrow> batch_sim" where
  "simulate_batch s base_free revocations placements =
     (let prior = fcard (accruing_jobs_before s (fset_of_list revocations));
          (sim, funded) = fold batch_placement placements (simulate_nodes s base_free revocations placements, []);
          after = fcard (sim_accruing sim);
          limit = unat (po_accrual_limit (policy s))
      in \<lparr>bs_funded = funded, bs_rejects_accrual = (after > limit \<and> after > prior),
          bs_rejects_per_node = list_ex (\<lambda>js. fcard js > 1) (vals (sim_per_node sim))\<rparr>)"

section \<open>Victims\<close>

definition victim_of :: "'f f64 \<Rightarrow> state_machine \<Rightarrow> timestamp \<Rightarrow> duration \<Rightarrow> 'f \<Rightarrow> 'f \<Rightarrow> allocation_record \<Rightarrow> attempt_record \<Rightarrow>
    job_record \<Rightarrow> 'f victim" where
  "victim_of F s now horizon w_age product rec attempt j =
     (let ran = (case atr_started_at attempt of
            None \<Rightarrow> dur_zero
          | Some started \<Rightarrow> max (ts_duration_since now started) dur_zero)
      in \<lparr>vi_alloc = al_id (alr_allocation rec), vi_seq = alr_seq rec, vi_requested = al_requested (alr_allocation rec),
          vi_funded = al_funded (alr_allocation rec), vi_priority = j_priority (jr_spec j),
          vi_score = effective_score F (jr_multiplier j) product (jr_submitted_at j) now horizon w_age,
          vi_work_at_risk = nat (dur_micros ran) * unat (atr_rate attempt),
          vi_notice = declared_notice s (jr_spec j),
          vi_preemptible_now = effective_preemptible (quota_entities s) (jr_spec j)\<rparr>)"

definition candidate_victim :: "'f f64 \<Rightarrow> state_machine \<Rightarrow> timestamp \<Rightarrow> duration \<Rightarrow> 'f \<Rightarrow> allocation_record \<Rightarrow>
    (quota_entity_id, 'f) fmap \<times> (node_id, 'f victim list) fmap \<Rightarrow> (quota_entity_id, 'f) fmap \<times> (node_id, 'f victim list) fmap" where
  "candidate_victim F s now horizon w_age rec acc =
     (if al_state (alr_allocation rec) \<noteq> Active then acc
      else case fmlookup (attempts s) (al_attempt (alr_allocation rec)) of
        None \<Rightarrow> acc
      | Some attempt \<Rightarrow>
          if att_state (atr_attempt attempt) \<noteq> Running \<or> \<not> atr_effective_preemptible attempt \<or> atr_preemption attempt \<noteq> None
          then acc
          else case fmlookup (jobs s) (al_job (alr_allocation rec)) of
            None \<Rightarrow> acc
          | Some j \<Rightarrow>
              if current_attempt j \<noteq> Some (att_id (atr_attempt attempt)) \<or> j_abort_requested (jr_spec j) \<noteq> None then acc
              else
                let (penalties, out) = acc;
                    (penalties, product) = entity_penalty F penalties s (j_quota_entity (jr_spec j)) now
                in (penalties, fm_push (al_node (alr_allocation rec)) (victim_of F s now horizon w_age product rec attempt j) out))"

definition candidate_victims :: "'f f64 \<Rightarrow> state_machine \<Rightarrow> timestamp \<Rightarrow> duration \<Rightarrow> 'f \<Rightarrow> (quota_entity_id, 'f) fmap \<Rightarrow>
    (quota_entity_id, 'f) fmap \<times> (node_id, 'f victim list) fmap" where
  "candidate_victims F s now horizon w_age penalties =
     fold (candidate_victim F s now horizon w_age) (vals (allocations s)) (penalties, fmempty)"

section \<open>The start of a pass\<close>

definition node_accruals :: "state_machine \<Rightarrow> node_id \<Rightarrow> sim_accrual list" where
  "node_accruals s n =
     List.map_filter (\<lambda>(_, al). map_option (\<lambda>a. \<lparr>sa_alloc = al, sa_job = al_job (alr_allocation a),
         sa_requested = al_requested (alr_allocation a), sa_funded = al_funded (alr_allocation a), sa_projected_ready = None\<rparr>)
       (fmlookup (allocations s) al)) (node_queue s n)"

definition with_projected :: "release_event list \<Rightarrow> sim_accrual list \<Rightarrow> sim_accrual list" where
  "with_projected evs accruals =
     map (\<lambda>(a, t). a\<lparr>sa_projected_ready := t\<rparr>)
       (zip accruals (sweep_projected_ready evs (map (\<lambda>a. res_sub (sa_requested a) (sa_funded a)) accruals)))"

definition drained_nodes :: "state_machine \<Rightarrow> node_id fset" where
  "drained_nodes s = fset_of_list (map fst (filter (\<lambda>(_, rec).
     (case nd_drain (nr_node rec) of None \<Rightarrow> False | Some d \<Rightarrow> dr_deadline d = None) \<and> \<not> nr_draining rec) (entries (nodes s))))"

definition node_model_of :: "state_machine \<Rightarrow> (node_id, release_event list) fmap \<Rightarrow> (node_id, 'f victim list) fmap \<Rightarrow>
    (node_id, node_horizon) fmap \<Rightarrow> (node_id, resources) fmap \<Rightarrow> node_id \<Rightarrow> node_record \<Rightarrow> 'f node_model option" where
  "node_model_of s events victims horizons base_free n rec =
     (let hosts_accrual = n |\<in>| fst |`| fmdom (accrual_queue s);
          admission = node_admission_of rec (policy s)
            (case fmlookup horizons n of None \<Rightarrow> HorizonUnbounded | Some h \<Rightarrow> h)
      in if admission = AdmitClosed \<and> \<not> hosts_accrual then None
         else
           let evs = sort_release_events (fm_get n events)
           in Some \<lparr>nm_node = nr_node rec, nm_admission = admission, nm_sim_free = memo_get base_free n,
                nm_accruals = with_projected evs (node_accruals s n), nm_events = evs, nm_pending_accruals = [],
                nm_victims = fm_get n victims\<rparr>)"

definition pass_new :: "'f f64 \<Rightarrow> state_machine \<Rightarrow> timestamp \<Rightarrow> 'f scheduler_config \<Rightarrow> 'f pass" where
  "pass_new F s now config =
     (let base_free = free_capacity_map s;
          horizon = age_horizon F (po_decay (policy s));
          events = collect_release_events s;
          horizons = node_horizons s (drained_nodes s);
          (penalties, victims) = candidate_victims F s now horizon (cf_w_age config) fmempty;
          models = List.map_filter (\<lambda>(n, rec). map_option (\<lambda>nm. (n, nm))
            (node_model_of s events victims horizons base_free n rec)) (entries (nodes s));
          index = fold (\<lambda>(i, n) m. fmupd n i m) (enumerate 0 (map fst models)) fmempty
      in \<lparr>pa_snapshot = s, pa_now = now, pa_max_candidates = cf_max_candidates config,
          pa_max_placements = cf_max_placements_per_cycle config, pa_w_age = cf_w_age config, pa_horizon = horizon,
          pa_accrual_limit = unat (po_accrual_limit (policy s)), pa_min_improvement = cf_replan_min_improvement config,
          pa_base_before = distinct_accruing_jobs s, pa_base_free = base_free, pa_nodes = map snd models,
          pa_node_index = index, pa_placed_nodes = {||}, pa_revoked_nodes = {||}, pa_revocations = [], pa_placements = [],
          pa_ledger = preemption_ledger_of s, pa_evicted_nodes = {||},
          pa_preempting_left = cf_max_preempting_placements_per_cycle config, pa_cooldown = cf_preemption_cooldown config,
          pa_spot = fmempty, pa_preempt_min_improvement = cf_preemption_min_improvement config, pa_penalties = penalties\<rparr>)"

end
