(* ===== verification/Engine.thy ===== *)
theory Engine
  imports Pass_Model
begin

text \<open>
  The steps of a scheduling pass: preemption (\<open>coppice-scheduler/src/engine/preempt.rs\<close>), the
  re-planning of accruals, the seating of candidates and the proposal (\<open>engine.rs\<close>). A method that
  returns whether it placed returns the pass and that flag.
\<close>

section \<open>Shared steps\<close>

fun position :: "('a \<Rightarrow> bool) \<Rightarrow> 'a list \<Rightarrow> nat option" where
  "position P [] = None"
| "position P (x # xs) = (if P x then Some 0 else map_option Suc (position P xs))"

text \<open>The scan that keeps the node with the lowest key, an exact tie broken towards spot capacity.\<close>

definition better_key :: "'f f64 \<Rightarrow> bool \<Rightarrow> 'f node_model list \<Rightarrow> 'f \<Rightarrow> 'f node_model \<Rightarrow> ('f \<times> nat) option \<Rightarrow> bool" where
  "better_key F preemptible nms key nm best =
     (case best of
        None \<Rightarrow> True
      | Some (bk, bi) \<Rightarrow> f_lt F key bk \<or> (f_eq F key bk \<and> prefers_on_tie preemptible nm (nms ! bi)))"

definition best_node :: "'f f64 \<Rightarrow> bool \<Rightarrow> 'f node_model list \<Rightarrow> ('f node_model \<Rightarrow> bool) \<Rightarrow> ('f node_model \<Rightarrow> 'f) \<Rightarrow> nat option" where
  "best_node F preemptible nms ok key =
     map_option snd (fold (\<lambda>(i, nm) best.
        if \<not> ok nm then best
        else if better_key F preemptible nms (key nm) nm best then Some (key nm, i) else best)
       (enumerate 0 nms) None)"

definition fit_key :: "'f f64 \<Rightarrow> job \<Rightarrow> resources \<Rightarrow> 'f node_model \<Rightarrow> 'f" where
  "fit_key F j requested nm =
     f_sub F (dominant_leftover_fraction F (nm_sim_free nm) requested (nd_capacity (nm_node nm)))
       (cache_affinity_bonus F j (nm_node nm))"

definition capable :: "resources \<Rightarrow> (string, string) fmap \<Rightarrow> 'f node_model \<Rightarrow> bool" where
  "capable requested required nm \<longleftrightarrow>
     fits_within requested (nd_capacity (nm_node nm)) \<and> node_satisfies_labels required (nd_labels (nm_node nm))"

definition update_node :: "nat \<Rightarrow> ('f node_model \<Rightarrow> 'f node_model) \<Rightarrow> 'f pass \<Rightarrow> 'f pass" where
  "update_node idx f p = p\<lparr>pa_nodes := (pa_nodes p)[idx := f (pa_nodes p ! idx)]\<rparr>"

definition take_free :: "resources \<Rightarrow> 'f node_model \<Rightarrow> 'f node_model" where
  "take_free requested nm = nm\<lparr>nm_sim_free := res_sub (nm_sim_free nm) (component_min (nm_sim_free nm) requested)\<rparr>"

definition push_placement :: "job_id \<Rightarrow> nat \<Rightarrow> resources \<Rightarrow> bool \<Rightarrow> eviction list \<Rightarrow> 'f pass \<Rightarrow> proposed_placement list" where
  "push_placement j idx requested funded evictions p =
     pa_placements p @ [\<lparr>pp_job = j, pp_node = nd_id (nm_node (pa_nodes p ! idx)), pp_requested = requested,
       pp_expect_funded = funded, pp_preemptions = evictions\<rparr>]"

fun remove_accrual :: "allocation_id \<Rightarrow> sim_accrual list \<Rightarrow> (sim_accrual \<times> sim_accrual list) option" where
  "remove_accrual al [] = None"
| "remove_accrual al (a # as) =
     (if sa_alloc a = al then Some (a, as) else map_option (\<lambda>(r, as'). (r, a # as')) (remove_accrual al as))"

fun pledge_survivors :: "resources \<Rightarrow> sim_accrual list \<Rightarrow> resources \<times> sim_accrual list" where
  "pledge_survivors free [] = (free, [])"
| "pledge_survivors free (a # as) =
     (if res_is_zero free then (free, a # as)
      else
        let need = res_sub (sa_requested a) (sa_funded a) in
        if res_is_zero need then let (free, as) = pledge_survivors free as in (free, a # as)
        else
          let pledge = component_min free need;
              a' = a\<lparr>sa_funded := res_add (sa_funded a) pledge\<rparr>;
              (free, as) = pledge_survivors (res_sub free pledge) as
          in (free, if sa_funded a' = sa_requested a' then as else a' # as))"

definition revoke_accrual_on_source :: "node_id \<Rightarrow> allocation_id \<Rightarrow> 'f pass \<Rightarrow> 'f pass" where
  "revoke_accrual_on_source source al p =
     (case fmlookup (pa_node_index p) source of
        None \<Rightarrow> p
      | Some idx \<Rightarrow>
          (case remove_accrual al (nm_accruals (pa_nodes p ! idx)) of
             None \<Rightarrow> p
           | Some (removed, rest) \<Rightarrow>
               let (free, accruals) = pledge_survivors (res_add (nm_sim_free (pa_nodes p ! idx)) (sa_funded removed)) rest
               in update_node idx (\<lambda>nm. nm\<lparr>nm_sim_free := free, nm_accruals := accruals\<rparr>) p))"

definition job_score :: "'f f64 \<Rightarrow> job_record \<Rightarrow> 'f pass \<Rightarrow> 'f pass \<times> 'f" where
  "job_score F jr p =
     (let (penalties, product) =
        entity_penalty F (pa_penalties p) (pa_snapshot p) (j_quota_entity (jr_spec jr)) (pa_now p)
      in (p\<lparr>pa_penalties := penalties\<rparr>,
          effective_score F (jr_multiplier jr) product (jr_submitted_at jr) (pa_now p) (pa_horizon p) (pa_w_age p)))"

definition simulate_pass :: "'f pass \<Rightarrow> allocation_id list \<Rightarrow> proposed_placement list \<Rightarrow> batch_sim" where
  "simulate_pass p revocations placements = simulate_batch (pa_snapshot p) (pa_base_free p) revocations placements"

section \<open>Preemption\<close>

record 'f beneficiary =
  be_job_id :: job_id
  be_job :: job
  be_score :: 'f
  be_preemptible :: bool
  be_required :: "(string, string) fmap"
  be_reseat :: "(node_id \<times> allocation_id) option"

type_synonym spot_tally = "(node_id, resources) fmap"

record plan =
  pn_idx :: nat
  pn_bound :: timestamp
  pn_risk :: nat
  pn_victims :: "eviction list"
  pn_spot :: spot_tally

definition reserve_spot_room :: "'f pass \<Rightarrow> 'f victim \<Rightarrow> spot_tally \<Rightarrow> bool \<times> spot_tally" where
  "reserve_spot_room p v spot =
     (if \<not> vi_preemptible_now v then (False, spot)
      else
        let taken = (\<lambda>nm. memo_get spot (nd_id (nm_node nm))) in
        case find (\<lambda>nm. nd_preemptible_only (nm_node nm) \<and> nm_admission nm = AdmitOpen \<and>
              fits_within (vi_requested v) (nd_capacity (nm_node nm)) \<and>
              fits_within (vi_requested v) (res_sub (memo_get (pa_base_free p) (nd_id (nm_node nm))) (taken nm)))
            (pa_nodes p) of
          None \<Rightarrow> (False, spot)
        | Some nm \<Rightarrow>
            if fits_within (vi_requested v) (res_sub (nm_sim_free nm) (taken nm))
            then (True, memo_add (nd_id (nm_node nm)) (vi_requested v) spot)
            else (False, spot))"

definition victim_rule :: "'f f64 \<Rightarrow> 'f beneficiary \<Rightarrow> bool \<Rightarrow> 'f victim \<Rightarrow> eviction_rule option" where
  "victim_rule F b relocating v =
     (if vi_priority v < j_priority (be_job b) \<and> f_lt F (vi_score v) (be_score b) then Some RulePriority
      else if relocating \<and> vi_preemptible_now v then Some RuleRelocation
      else None)"

definition victim_less :: "'f f64 \<Rightarrow> 'f victim \<Rightarrow> 'f victim \<Rightarrow> bool" where
  "victim_less F x y \<longleftrightarrow>
     (if vi_priority x \<noteq> vi_priority y then vi_priority x < vi_priority y
      else if f_total_lt F (vi_score x) (vi_score y) then True
      else if f_total_lt F (vi_score y) (vi_score x) then False
      else if vi_work_at_risk x \<noteq> vi_work_at_risk y then vi_work_at_risk x < vi_work_at_risk y
      else vi_alloc x < vi_alloc y)"

definition u128_sat_add :: "nat \<Rightarrow> nat \<Rightarrow> nat" where
  "u128_sat_add x y = min (x + y) (2 ^ 128 - 1)"

fun plan_loop :: "'f pass \<Rightarrow> nat \<Rightarrow> resources \<Rightarrow> ('f victim \<times> eviction_rule) list \<Rightarrow> resources \<Rightarrow> eviction list \<Rightarrow> u64 fset \<Rightarrow>
    duration \<Rightarrow> nat \<Rightarrow> spot_tally \<Rightarrow> plan option" where
  "plan_loop p idx requested [] available chosen seqs notice risk spot = None"
| "plan_loop p idx requested ((v, rule) # rest) available chosen seqs notice risk spot =
     (let (admitted, spot) = (case rule of RulePriority \<Rightarrow> (True, spot) | RuleRelocation \<Rightarrow> reserve_spot_room p v spot) in
      if \<not> admitted then plan_loop p idx requested rest available chosen seqs notice risk spot
      else
        let chosen = chosen @ [\<lparr>ev_allocation = vi_alloc v, ev_rule = rule\<rparr>];
            seqs = finsert (vi_seq v) seqs;
            available = res_add available (vi_funded v);
            notice = max notice (vi_notice v);
            risk = u128_sat_add risk (vi_work_at_risk v);
            bound = ts_sat_add (ts_sat_add (pa_now p) notice) (po_abort_grace (policy (pa_snapshot p)));
            others = fold (\<lambda>e acc. res_add acc (re_freed e))
              (filter (\<lambda>e. re_at e \<le> bound \<and> re_seq e |\<notin>| seqs) (nm_events (pa_nodes p ! idx))) res_zero
        in if fits_within requested (res_add available others)
           then Some \<lparr>pn_idx = idx, pn_bound = bound, pn_risk = risk, pn_victims = chosen, pn_spot = spot\<rparr>
           else plan_loop p idx requested rest available chosen seqs notice risk spot)"

definition plan_on :: "'f f64 \<Rightarrow> 'f pass \<Rightarrow> 'f beneficiary \<Rightarrow> nat \<Rightarrow> plan option" where
  "plan_on F p b idx =
     (let nm = pa_nodes p ! idx;
          node_id = nd_id (nm_node nm);
          requested = j_requests (be_job b)
      in if nm_victims nm = [] \<or> \<not> model_admits nm (be_preemptible b) \<or> \<not> capable requested (be_required b) nm then None
         else if node_id |\<in>| lg_guarded (pa_ledger p) \<or> node_id |\<in>| pa_evicted_nodes p then None
         else if (case fmlookup (lg_latest_request (pa_ledger p)) node_id of
                None \<Rightarrow> False | Some t \<Rightarrow> pa_now p < ts_sat_add t (pa_cooldown p)) then None
         else
           let own = (case be_reseat b of None \<Rightarrow> None | Some (source, al) \<Rightarrow> if source = node_id then Some al else None) in
           if nm_pending_accruals nm \<noteq> [] \<or> list_ex (\<lambda>a. Some (sa_alloc a) \<noteq> own) (nm_accruals nm) then None
           else if own \<noteq> None \<and> node_id |\<in>| pa_placed_nodes p then None
           else
             let available = fold (\<lambda>a acc. res_add acc (sa_funded a))
                   (filter (\<lambda>a. Some (sa_alloc a) = own) (nm_accruals nm)) (nm_sim_free nm);
                 relocating = (\<not> be_preemptible b \<and> \<not> nd_preemptible_only (nm_node nm));
                 eligible = List.map_filter (\<lambda>v. map_option (\<lambda>rule. (v, rule)) (victim_rule F b relocating v)) (nm_victims nm)
             in plan_loop p idx requested (sort_by (\<lambda>x y. victim_less F (fst x) (fst y)) eligible) available [] {||}
                  dur_zero 0 (pa_spot p))"

definition best_plan :: "'f f64 \<Rightarrow> 'f pass \<Rightarrow> 'f beneficiary \<Rightarrow> timestamp option \<Rightarrow> plan option" where
  "best_plan F p b natural =
     fold (\<lambda>idx best.
        case plan_on F p b idx of
          None \<Rightarrow> best
        | Some pn \<Rightarrow>
            if (case natural of None \<Rightarrow> False | Some n \<Rightarrow> n < ts_sat_add (pn_bound pn) (pa_preempt_min_improvement p)) then best
            else (case best of
                None \<Rightarrow> Some pn
              | Some q \<Rightarrow> if (pn_bound pn, pn_risk pn) < (pn_bound q, pn_risk q) then Some pn else Some q))
       [0..<length (pa_nodes p)] None"

definition add_pending :: "resources \<Rightarrow> 'f node_model \<Rightarrow> 'f node_model" where
  "add_pending requested nm =
     (let remaining = res_sub requested (component_min (nm_sim_free nm) requested)
      in if res_is_zero remaining then nm else nm\<lparr>nm_pending_accruals := nm_pending_accruals nm @ [remaining]\<rparr>)"

definition try_preempt :: "'f f64 \<Rightarrow> 'f beneficiary \<Rightarrow> timestamp option \<Rightarrow> 'f pass \<Rightarrow> 'f pass \<times> bool" where
  "try_preempt F b natural p =
     (if pa_preempting_left p = 0 \<or> length (pa_placements p) \<ge> pa_max_placements p then (p, False)
      else if be_job_id b |\<in>| lg_beneficiaries (pa_ledger p) then (p, False)
      else if be_reseat b = None \<and> pa_base_before p \<ge> pa_accrual_limit p then (p, False)
      else case best_plan F p b natural of
        None \<Rightarrow> (p, False)
      | Some pn \<Rightarrow>
          let requested = j_requests (be_job b);
              node_id = nd_id (nm_node (pa_nodes p ! pn_idx pn));
              revocations = pa_revocations p @ (case be_reseat b of None \<Rightarrow> [] | Some (_, al) \<Rightarrow> [al]);
              placements = push_placement (be_job_id b) (pn_idx pn) requested False (pn_victims pn) p
          in if sim_rejected (simulate_pass p revocations placements) then (p, False)
             else
               let p = (case be_reseat b of
                      None \<Rightarrow> p
                    | Some (source, al) \<Rightarrow>
                        let p = revoke_accrual_on_source source al p
                        in p\<lparr>pa_revoked_nodes := finsert source (pa_revoked_nodes p)\<rparr>);
                   p = p\<lparr>pa_revocations := revocations, pa_placements := placements\<rparr>;
                   p = update_node (pn_idx pn) (\<lambda>nm. take_free requested (add_pending requested nm)) p
               in (p\<lparr>pa_placed_nodes := finsert node_id (pa_placed_nodes p),
                     pa_evicted_nodes := finsert node_id (pa_evicted_nodes p), pa_spot := pn_spot pn,
                     pa_preempting_left := pa_preempting_left p - 1\<rparr>, True))"

section \<open>Re-planning of accruals\<close>

definition accrual_projected_ready :: "'f pass \<Rightarrow> nat \<Rightarrow> allocation_id \<Rightarrow> timestamp option option" where
  "accrual_projected_ready p idx al =
     (let nm = pa_nodes p ! idx in
      map_option (\<lambda>pos. sweep_projected_ready (nm_events nm) (accrual_needs nm) ! pos)
        (position (\<lambda>a. sa_alloc a = al) (nm_accruals nm)))"

definition improves_bound :: "'f pass \<Rightarrow> timestamp \<Rightarrow> timestamp option \<Rightarrow> bool" where
  "improves_bound p ready current =
     (case current of
        None \<Rightarrow> True
      | Some c \<Rightarrow> ready < c \<and> ts_sat_add ready (pa_min_improvement p) \<le> c)"

text \<open>The bound an accrual moved to the node would get, when the node may take it.\<close>

definition improvement_ready :: "'f pass \<Rightarrow> node_id \<Rightarrow> bool \<Rightarrow> resources \<Rightarrow> (string, string) fmap \<Rightarrow> timestamp option \<Rightarrow>
    'f node_model \<Rightarrow> timestamp option" where
  "improvement_ready p source preemptible requested required current nm =
     (if nd_id (nm_node nm) = source \<or> \<not> model_admits nm preemptible \<or> nd_id (nm_node nm) |\<in>| pa_revoked_nodes p
         \<or> \<not> capable requested required nm then None
      else
        let remaining = res_sub requested (component_min (nm_sim_free nm) requested) in
        if \<not> res_is_zero remaining \<and> (nm_accruals nm \<noteq> [] \<or> nm_pending_accruals nm \<noteq> []) then None
        else
          let ready = (if res_is_zero remaining then Some (pa_now p) else candidate_projected_ready nm remaining)
          in (case ready of
                None \<Rightarrow> None
              | Some t \<Rightarrow> if improves_bound p t current then Some t else None))"

definition best_improvement_target :: "'f f64 \<Rightarrow> 'f pass \<Rightarrow> node_id \<Rightarrow> bool \<Rightarrow> resources \<Rightarrow> (string, string) fmap \<Rightarrow>
    timestamp option \<Rightarrow> (nat \<times> timestamp) option" where
  "best_improvement_target F p source preemptible requested required current =
     map_option (\<lambda>(ready, _, i). (i, ready)) (fold (\<lambda>(i, nm) best.
        case improvement_ready p source preemptible requested required current nm of
          None \<Rightarrow> best
        | Some ready \<Rightarrow>
            let pledged = pledge_fraction F (nm_sim_free nm) requested;
                better = (case best of
                    None \<Rightarrow> True
                  | Some (best_ready, best_pledged, bi) \<Rightarrow>
                      ready < best_ready \<or> (ready = best_ready \<and> f_lt F best_pledged pledged) \<or>
                      (ready = best_ready \<and> f_eq F pledged best_pledged \<and> prefers_on_tie preemptible nm (pa_nodes p ! bi)))
            in if better then Some (ready, pledged, i) else best)
       (enumerate 0 (pa_nodes p)) None)"

definition best_reseat_target :: "'f f64 \<Rightarrow> 'f pass \<Rightarrow> node_id \<Rightarrow> job \<Rightarrow> bool \<Rightarrow> resources \<Rightarrow> (string, string) fmap \<Rightarrow> nat option" where
  "best_reseat_target F p source j preemptible requested required =
     best_node F preemptible (pa_nodes p)
       (\<lambda>nm. nd_id (nm_node nm) \<noteq> source \<and> model_admits nm preemptible \<and> nm_accruals nm = [] \<and>
          nd_id (nm_node nm) |\<notin>| pa_revoked_nodes p \<and> capable requested required nm \<and>
          fits_within requested (nm_sim_free nm))
       (fit_key F j requested)"

definition reseat_accrual :: "job_id \<Rightarrow> allocation_id \<Rightarrow> node_id \<Rightarrow> resources \<Rightarrow> nat \<Rightarrow> 'f pass \<Rightarrow> 'f pass" where
  "reseat_accrual j al source requested idx p =
     (let p = revoke_accrual_on_source source al p;
          p = p\<lparr>pa_revocations := pa_revocations p @ [al], pa_revoked_nodes := finsert source (pa_revoked_nodes p)\<rparr>;
          placements = push_placement j idx requested True [] p;
          node_id = nd_id (nm_node (pa_nodes p ! idx));
          p = update_node idx (take_free requested) p
      in p\<lparr>pa_placed_nodes := finsert node_id (pa_placed_nodes p), pa_placements := placements\<rparr>)"

definition try_improve_accrual_bound :: "job_id \<Rightarrow> allocation_id \<Rightarrow> node_id \<Rightarrow> nat \<Rightarrow> resources \<Rightarrow> 'f pass \<Rightarrow> 'f pass \<times> bool" where
  "try_improve_accrual_bound j al source idx requested p =
     (let node_id = nd_id (nm_node (pa_nodes p ! idx));
          revocations = pa_revocations p @ [al];
          placements = push_placement j idx requested False [] p
      in if sim_rejected (simulate_pass p revocations placements) then (p, False)
         else
           let p = revoke_accrual_on_source source al p;
               p = p\<lparr>pa_revocations := revocations, pa_revoked_nodes := finsert source (pa_revoked_nodes p)\<rparr>;
               p = update_node idx (\<lambda>nm. take_free requested (add_pending requested nm)) p
           in (p\<lparr>pa_placed_nodes := finsert node_id (pa_placed_nodes p), pa_placements := placements\<rparr>, True))"

definition natural_bound :: "timestamp option \<Rightarrow> timestamp option \<Rightarrow> timestamp option" where
  "natural_bound a b =
     (case (a, b) of
        (Some x, Some y) \<Rightarrow> Some (min x y)
      | (Some x, None) \<Rightarrow> Some x
      | (None, y) \<Rightarrow> y)"

text \<open>
  The part of the loop body after the free fit: the scan for a better bound, a preemption by revoke and
  reseat, and the improvement move. The second component is the number of scans so far.
\<close>

definition improve_accrual :: "'f f64 \<Rightarrow> job_id \<Rightarrow> job_record \<Rightarrow> allocation_id \<Rightarrow> node_id \<Rightarrow> 'f pass \<times> nat \<Rightarrow> 'f pass \<times> nat" where
  "improve_accrual F j jr al source st =
     (let (p, scans) = st;
          requested = j_requests (jr_spec jr);
          required = required_labels (jr_spec jr);
          preemptible = effective_preemptible (quota_entities (pa_snapshot p)) (jr_spec jr)
      in if \<not> scans < pa_accrual_limit p then (p, scans)
         else
           case fmlookup (pa_node_index p) source of
             None \<Rightarrow> (p, scans + 1)
           | Some source_idx \<Rightarrow>
               (case accrual_projected_ready p source_idx al of
                  None \<Rightarrow> (p, scans + 1)
                | Some current \<Rightarrow>
                    let target = best_improvement_target F p source preemptible requested required current;
                        (p, preempted) =
                          (if pa_preempting_left p > 0 then
                             let natural = natural_bound current (map_option snd target);
                                 (p, score) = job_score F jr p
                             in try_preempt F \<lparr>be_job_id = j, be_job = jr_spec jr, be_score = score, be_preemptible = preemptible,
                                  be_required = required, be_reseat = Some (source, al)\<rparr> natural p
                           else (p, False))
                    in (if preempted then p
                        else case target of
                          None \<Rightarrow> p
                        | Some (idx, _) \<Rightarrow> fst (try_improve_accrual_bound j al source idx requested p),
                        scans + 1)))"

definition replan_accrual :: "'f f64 \<Rightarrow> job_id \<Rightarrow> allocation_id \<Rightarrow> node_id \<Rightarrow> 'f pass \<times> nat \<Rightarrow> 'f pass \<times> nat" where
  "replan_accrual F j al source st =
     (let (p, scans) = st; s = pa_snapshot p in
      case fmlookup (jobs s) j of
        None \<Rightarrow> st
      | Some jr \<Rightarrow>
          if j_abort_requested (jr_spec jr) \<noteq> None then st
          else if \<not> (case Option.bind (state_attempt (jr_state jr)) (fmlookup (attempts s)) of
                 None \<Rightarrow> False | Some a \<Rightarrow> att_allocation (atr_attempt a) = al) then st
          else if source |\<in>| pa_placed_nodes p then st
          else if (case fmlookup (pa_node_index p) source of
                 None \<Rightarrow> False | Some i \<Rightarrow> length (nm_accruals (pa_nodes p ! i)) > 1) then st
          else
            let requested = j_requests (jr_spec jr);
                preemptible = effective_preemptible (quota_entities s) (jr_spec jr)
            in (case best_reseat_target F p source (jr_spec jr) preemptible requested (required_labels (jr_spec jr)) of
                  Some idx \<Rightarrow> (reseat_accrual j al source requested idx p, scans)
                | None \<Rightarrow>
                    if source |\<in>| lg_guarded (pa_ledger p) \<and>
                       (case fmlookup (pa_node_index p) source of
                          None \<Rightarrow> False | Some i \<Rightarrow> nm_admission (pa_nodes p ! i) = AdmitOpen)
                    then st
                    else improve_accrual F j jr al source (p, scans)))"

fun replan_loop :: "'f f64 \<Rightarrow> (job_id \<times> allocation_id \<times> node_id) list \<Rightarrow> job_id fset \<Rightarrow> 'f pass \<times> nat \<Rightarrow> 'f pass" where
  "replan_loop F [] seen st = fst st"
| "replan_loop F ((j, al, source) # rest) seen st =
     (if j |\<in>| seen then replan_loop F rest seen st
      else
        let seen = finsert j seen; p = fst st in
        if length (pa_placements p) \<ge> pa_max_placements p \<or> fcard seen > pa_max_placements p then p
        else replan_loop F rest seen (replan_accrual F j al source st))"

definition accrual_entries :: "state_machine \<Rightarrow> (job_id \<times> allocation_id \<times> node_id) list" where
  "accrual_entries s =
     List.map_filter (\<lambda>((n, _), al). map_option (\<lambda>a. (al_job (alr_allocation a), al, n)) (fmlookup (allocations s) al))
       (entries (accrual_queue s))"

definition replan_existing_accruals :: "'f f64 \<Rightarrow> 'f pass \<Rightarrow> 'f pass" where
  "replan_existing_accruals F p = replan_loop F (accrual_entries (pa_snapshot p)) {||} (p, 0)"

section \<open>Seating of candidates\<close>

definition rank_job :: "'f f64 \<Rightarrow> job_id \<times> job_record \<Rightarrow> 'f pass \<times> 'f rank list \<Rightarrow> 'f pass \<times> 'f rank list" where
  "rank_job F kv acc =
     (let (j, jr) = kv; (p, ranks) = acc in
      if jr_state jr \<noteq> Queued then acc
      else
        let (p, score) = job_score F jr p
        in (p, ranks @ [\<lparr>rk_score = score, rk_submitted_at = jr_submitted_at jr, rk_job = j\<rparr>]))"

text \<open>
  The partial selection keeps the best \<open>max_candidates\<close> and the sort orders them: together a prefix of the
  order, which is total.
\<close>

definition select_candidates :: "'f f64 \<Rightarrow> 'f pass \<Rightarrow> 'f pass \<times> 'f rank list" where
  "select_candidates F p =
     (if pa_max_candidates p = 0 then (p, [])
      else
        let (p, ranks) = fold (rank_job F) (entries (jobs (pa_snapshot p))) (p, [])
        in (p, take (pa_max_candidates p) (sort_by (rank_less F) ranks)))"

definition seat_funded :: "job_id \<Rightarrow> resources \<Rightarrow> nat \<Rightarrow> ('f node_model \<Rightarrow> 'f node_model) \<Rightarrow> 'f pass \<Rightarrow> 'f pass" where
  "seat_funded j requested idx f p =
     (let placements = push_placement j idx requested True [] p;
          node_id = nd_id (nm_node (pa_nodes p ! idx));
          p = update_node idx f p
      in p\<lparr>pa_placed_nodes := finsert node_id (pa_placed_nodes p), pa_placements := placements\<rparr>)"

definition try_free_fit :: "'f f64 \<Rightarrow> job_id \<Rightarrow> job \<Rightarrow> bool \<Rightarrow> resources \<Rightarrow> (string, string) fmap \<Rightarrow> 'f pass \<Rightarrow> 'f pass \<times> bool" where
  "try_free_fit F j spec preemptible requested required p =
     (case best_node F preemptible (pa_nodes p)
         (\<lambda>nm. model_admits nm preemptible \<and> capable requested required nm \<and> fits_within requested (nm_sim_free nm))
         (fit_key F spec requested) of
        None \<Rightarrow> (p, False)
      | Some idx \<Rightarrow> (seat_funded j requested idx (take_free requested) p, True))"

definition is_backfill :: "node_admission \<Rightarrow> bool" where
  "is_backfill na = (case na of AdmitBackfill _ \<Rightarrow> True | _ \<Rightarrow> False)"

definition try_drain_backfill :: "'f f64 \<Rightarrow> job_id \<Rightarrow> job \<Rightarrow> bool \<Rightarrow> resources \<Rightarrow> (string, string) fmap \<Rightarrow> 'f pass \<Rightarrow> 'f pass \<times> bool" where
  "try_drain_backfill F j spec preemptible requested required p =
     (if j_max_runtime spec = None then (p, False)
      else case best_node F preemptible (pa_nodes p)
         (\<lambda>nm. is_backfill (nm_admission nm) \<and>
            (case admission_admits (nm_admission nm) spec (pa_now p) (po_abort_grace (policy (pa_snapshot p))) of
               AdmissionBackfill _ \<Rightarrow> True | _ \<Rightarrow> False) \<and>
            spot_admits nm preemptible \<and> capable requested required nm \<and> fits_within requested (nm_sim_free nm))
         (fit_key F spec requested) of
        None \<Rightarrow> (p, False)
      | Some idx \<Rightarrow>
          (seat_funded j requested idx (\<lambda>nm. nm\<lparr>nm_sim_free := res_sub (nm_sim_free nm) requested\<rparr>) p, True))"

definition lendable :: "'f node_model \<Rightarrow> resources" where
  "lendable nm = fold (\<lambda>a acc. res_add acc (sa_funded a)) (nm_accruals nm) (nm_sim_free nm)"

definition may_lend :: "'f pass \<Rightarrow> timestamp \<Rightarrow> bool \<Rightarrow> resources \<Rightarrow> (string, string) fmap \<Rightarrow> 'f node_model \<Rightarrow> bool" where
  "may_lend p deadline preemptible requested required nm \<longleftrightarrow>
     model_admits nm preemptible \<and> nm_accruals nm \<noteq> [] \<and>
     (nd_preemptible_only (nm_node nm) \<longrightarrow> list_all (\<lambda>a.
        case fmlookup (jobs (pa_snapshot p)) (sa_job a) of
          None \<Rightarrow> False
        | Some jr \<Rightarrow> effective_preemptible (quota_entities (pa_snapshot p)) (jr_spec jr)) (nm_accruals nm)) \<and>
     \<not> length (nm_accruals nm) > 1 \<and>
     nd_id (nm_node nm) |\<notin>| lg_guarded (pa_ledger p) \<and>
     nd_id (nm_node nm) |\<notin>| pa_placed_nodes p \<and> nd_id (nm_node nm) |\<notin>| pa_revoked_nodes p \<and>
     capable requested required nm \<and> fits_within requested (lendable nm) \<and>
     list_all (\<lambda>a. case sa_projected_ready a of None \<Rightarrow> False | Some ready \<Rightarrow> deadline \<le> ready) (nm_accruals nm)"

fun reseat_pledges :: "resources \<Rightarrow> sim_accrual list \<Rightarrow> resources \<times> resources list" where
  "reseat_pledges free [] = (free, [])"
| "reseat_pledges free (a # as) =
     (let pledge = component_min free (sa_requested a);
          remaining = res_sub (sa_requested a) pledge;
          (free, pending) = reseat_pledges (res_sub free pledge) as
      in (free, if res_is_zero remaining then pending else remaining # pending))"

definition lend_node :: "resources \<Rightarrow> 'f node_model \<Rightarrow> 'f node_model" where
  "lend_node requested nm =
     (let free = lendable nm;
          free = res_sub free (component_min free requested);
          (free, pending) = reseat_pledges free (nm_accruals nm)
      in nm\<lparr>nm_sim_free := free, nm_accruals := [], nm_pending_accruals := nm_pending_accruals nm @ pending\<rparr>)"

definition try_backfill :: "'f f64 \<Rightarrow> job_id \<Rightarrow> job \<Rightarrow> bool \<Rightarrow> resources \<Rightarrow> (string, string) fmap \<Rightarrow> 'f pass \<Rightarrow> 'f pass \<times> bool" where
  "try_backfill F j spec preemptible requested required p =
     (case j_max_runtime spec of
        None \<Rightarrow> (p, False)
      | Some runtime \<Rightarrow>
          if pa_base_before p \<ge> pa_accrual_limit p then (p, False)
          else case best_node F preemptible (pa_nodes p)
              (may_lend p (ts_sat_add (pa_now p) runtime) preemptible requested required)
              (\<lambda>nm. borrowed_fraction F (nm_sim_free nm) requested (nd_capacity (nm_node nm))) of
            None \<Rightarrow> (p, False)
          | Some idx \<Rightarrow>
              let survivors = nm_accruals (pa_nodes p ! idx);
                  node_id = nd_id (nm_node (pa_nodes p ! idx));
                  revocations = pa_revocations p @ map sa_alloc survivors;
                  placements = push_placement j idx requested True [] p @
                    map (\<lambda>a. \<lparr>pp_job = sa_job a, pp_node = node_id, pp_requested = sa_requested a,
                      pp_expect_funded = False, pp_preemptions = []\<rparr>) survivors
              in if sim_rejected (simulate_pass p revocations placements) then (p, False)
                 else
                   (update_node idx (lend_node requested)
                      (p\<lparr>pa_revocations := revocations, pa_placements := placements,
                        pa_revoked_nodes := finsert node_id (pa_revoked_nodes p),
                        pa_placed_nodes := finsert node_id (pa_placed_nodes p)\<rparr>), True))"

definition better_accrual :: "'f f64 \<Rightarrow> bool \<Rightarrow> 'f pass \<Rightarrow> timestamp option \<Rightarrow> 'f \<Rightarrow> 'f node_model \<Rightarrow>
    (timestamp option \<times> 'f \<times> nat) option \<Rightarrow> bool" where
  "better_accrual F preemptible p ready pledged nm best =
     (case best of
        None \<Rightarrow> True
      | Some (best_ready, best_pledged, bi) \<Rightarrow>
          (case (ready, best_ready) of
             (Some _, None) \<Rightarrow> True
           | (None, Some _) \<Rightarrow> False
           | (Some t, Some bt) \<Rightarrow> t < bt \<or> (t = bt \<and> f_lt F best_pledged pledged)
           | (None, None) \<Rightarrow> f_lt F best_pledged pledged) \<or>
          (ready = best_ready \<and> f_eq F pledged best_pledged \<and> prefers_on_tie preemptible nm (pa_nodes p ! bi)))"

definition best_accrual_target :: "'f f64 \<Rightarrow> bool \<Rightarrow> resources \<Rightarrow> (string, string) fmap \<Rightarrow> 'f pass \<Rightarrow> (timestamp option \<times> 'f \<times> nat) option" where
  "best_accrual_target F preemptible requested required p =
     (if pa_base_before p \<ge> pa_accrual_limit p then None
      else fold (\<lambda>(i, nm) best.
          if \<not> model_admits nm preemptible \<or> \<not> capable requested required nm then best
          else if nm_accruals nm \<noteq> [] \<or> nm_pending_accruals nm \<noteq> [] then best
          else
            let remaining = res_sub requested (component_min (nm_sim_free nm) requested);
                ready = candidate_projected_ready nm remaining;
                pledged = pledge_fraction F (nm_sim_free nm) requested
            in if better_accrual F preemptible p ready pledged nm best then Some (ready, pledged, i) else best)
        (enumerate 0 (pa_nodes p)) None)"

definition open_accrual_on :: "job_id \<Rightarrow> nat \<Rightarrow> resources \<Rightarrow> 'f pass \<Rightarrow> 'f pass \<times> bool" where
  "open_accrual_on j idx requested p =
     (let placements = push_placement j idx requested False [] p in
      if sim_rejected (simulate_pass p (pa_revocations p) placements) then (p, False)
      else
        (update_node idx (\<lambda>nm. take_free requested
             (nm\<lparr>nm_pending_accruals := nm_pending_accruals nm @ [res_sub requested (component_min (nm_sim_free nm) requested)]\<rparr>))
           (p\<lparr>pa_placements := placements,
             pa_placed_nodes := finsert (nd_id (nm_node (pa_nodes p ! idx))) (pa_placed_nodes p)\<rparr>), True))"

definition accrue_or_preempt :: "'f f64 \<Rightarrow> 'f rank \<Rightarrow> job \<Rightarrow> bool \<Rightarrow> resources \<Rightarrow> (string, string) fmap \<Rightarrow> 'f pass \<Rightarrow> 'f pass" where
  "accrue_or_preempt F rank spec preemptible requested required p =
     (let target = best_accrual_target F preemptible requested required p;
          (p, preempted) =
            (if pa_preempting_left p > 0
             then try_preempt F \<lparr>be_job_id = rk_job rank, be_job = spec, be_score = rk_score rank, be_preemptible = preemptible,
                    be_required = required, be_reseat = None\<rparr> (Option.bind target fst) p
             else (p, False))
      in if preempted then p
         else case target of
           None \<Rightarrow> p
         | Some (_, _, idx) \<Rightarrow> fst (open_accrual_on (rk_job rank) idx requested p))"

definition seat_candidate :: "'f f64 \<Rightarrow> 'f rank \<Rightarrow> 'f pass \<Rightarrow> 'f pass" where
  "seat_candidate F rank p =
     (case fmlookup (jobs (pa_snapshot p)) (rk_job rank) of
        None \<Rightarrow> p
      | Some jr \<Rightarrow>
          if jr_state jr \<noteq> Queued then p
          else
            let spec = jr_spec jr;
                requested = j_requests spec;
                required = required_labels spec;
                preemptible = effective_preemptible (quota_entities (pa_snapshot p)) spec;
                (p, fitted) = try_free_fit F (rk_job rank) spec preemptible requested required p
            in if fitted then p
               else let (p, filled) = try_drain_backfill F (rk_job rank) spec preemptible requested required p
               in if filled then p
               else let (p, lent) = try_backfill F (rk_job rank) spec preemptible requested required p
               in if lent then p
               else accrue_or_preempt F rank spec preemptible requested required p)"

fun seat_loop :: "'f f64 \<Rightarrow> 'f rank list \<Rightarrow> 'f pass \<Rightarrow> 'f pass" where
  "seat_loop F [] p = p"
| "seat_loop F (rank # ranks) p =
     (if length (pa_placements p) \<ge> pa_max_placements p then p else seat_loop F ranks (seat_candidate F rank p))"

definition seat_candidates :: "'f f64 \<Rightarrow> 'f pass \<Rightarrow> 'f pass" where
  "seat_candidates F p = (let (p, ranks) = select_candidates F p in seat_loop F ranks p)"

section \<open>The pass\<close>

definition into_proposal :: "'f pass \<Rightarrow> placement_proposal" where
  "into_proposal p =
     (let sim = simulate_pass p (pa_revocations p) (pa_placements p)
      in \<lparr>pr_against_version = version (pa_snapshot p), pr_now = pa_now p, pr_revocations = pa_revocations p,
          pr_placements = map (\<lambda>(pl, funded). pl\<lparr>pp_expect_funded := funded\<rparr>) (zip (pa_placements p) (bs_funded sim))\<rparr>)"

definition schedule :: "'f f64 \<Rightarrow> 'f scheduler_config \<Rightarrow> state_machine \<Rightarrow> timestamp \<Rightarrow> placement_proposal" where
  "schedule F config s now = into_proposal (seat_candidates F (replan_existing_accruals F (pass_new F s now config)))"

end
