(* ===== verification/Sched_Sim.thy ===== *)
theory Sched_Sim
  imports Engine Reachable "HOL-Library.Multiset"
begin

text \<open>
  The scheduler's batch simulator against the guard of apply: they decide alike, so a batch that the
  simulator lets pass is one that the guard lets pass.
\<close>

section \<open>Free capacity of all nodes\<close>

lemma fold_upd_lookup:
  "distinct (map fst kvs) \<Longrightarrow> fmlookup (fold (\<lambda>(k, v) m. fmupd k (f k v) m) kvs m) x =
     (case map_of kvs x of None \<Rightarrow> fmlookup m x | Some v \<Rightarrow> Some (f x v))"
proof (induction kvs arbitrary: m)
  case (Cons kv kvs)
  obtain k v where kv: "kv = (k, v)" by (cases kv)
  then have "map_of kvs k = None" using Cons.prems by (auto simp: map_of_eq_None_iff)
  then show ?case using Cons by (auto simp: kv split: option.split)
qed simp

lemma entries_map_of: "map_of (entries m) x = fmlookup m x"
proof (cases "fmlookup m x")
  case None
  then have "x \<notin> fst ` set (entries m)" by (auto simp: set_entries)
  then show ?thesis using None by (simp add: map_of_eq_None_iff)
next
  case (Some v)
  then show ?thesis by (simp add: set_entries distinct_entries)
qed

lemma fold_entries_lookup:
  "fmlookup (fold (\<lambda>(k, v) m. fmupd k (f k v) m) (entries es) fmempty) x = map_option (f x) (fmlookup es x)"
  using fold_upd_lookup [of "entries es" f fmempty x] by (simp add: distinct_entries entries_map_of split: option.split)

lemma base_free: "memo_get (free_capacity_map s) n = free_capacity s n (Some (used_capacity_memo s))"
proof -
  have "fmlookup (free_capacity_map s) n =
      map_option (\<lambda>rec. res_sub (nd_capacity (nr_node rec)) (memo_get (used_capacity_memo s) n)) (fmlookup (nodes s) n)"
    using fold_entries_lookup [of "\<lambda>n rec. res_sub (nd_capacity (nr_node rec)) (memo_get (used_capacity_memo s) n)" "nodes s" n]
    by (simp add: free_capacity_map_def used_capacity_memo_def live_allocation_def Let_def)
  then show ?thesis by (simp add: memo_get_def [of "free_capacity_map s"] free_capacity_def split: option.split)
qed

section \<open>Revoked capacity in any order\<close>

definition revoked_on :: "state_machine \<Rightarrow> node_id \<Rightarrow> allocation_id \<Rightarrow> resources" where
  "revoked_on s n al = (case fmlookup (allocations s) al of
     None \<Rightarrow> res_zero | Some a \<Rightarrow> if al_node (alr_allocation a) = n then al_funded (alr_allocation a) else res_zero)"

lemma add_revoked_fold: "add_revoked_funded s n als free = fold (\<lambda>al free. res_add free (revoked_on s n al)) als free"
proof -
  have "(\<lambda>al free. case fmlookup (allocations s) al of None \<Rightarrow> free
      | Some a \<Rightarrow> if al_node (alr_allocation a) = n then res_add free (al_funded (alr_allocation a)) else free) =
    (\<lambda>al free. res_add free (revoked_on s n al))"
    by (simp add: fun_eq_iff revoked_on_def split: option.split)
  then show ?thesis by (simp add: add_revoked_funded_def)
qed

lemma add_revoked_permute:
  assumes "mset xs = mset ys"
  shows "add_revoked_funded s n xs free = add_revoked_funded s n ys free"
proof -
  have "res_add (res_add r (revoked_on s n y)) (revoked_on s n x) = res_add (res_add r (revoked_on s n x)) (revoked_on s n y)" for r x y
    by (metis res_add_assoc res_add_commute)
  then have "fold (\<lambda>al free. res_add free (revoked_on s n al)) xs = fold (\<lambda>al free. res_add free (revoked_on s n al)) ys"
    using assms by (intro fold_multiset_equiv) (auto simp: fun_eq_iff)
  then show ?thesis by (simp add: add_revoked_fold)
qed

lemma mset_sorted_fset: "distinct xs \<Longrightarrow> mset (sorted_list_of_fset (fset_of_list xs)) = mset xs"
  by (subst set_eq_iff_mset_eq_distinct [symmetric]) (simp_all add: sorted_list_of_fset.rep_eq fset_of_list.rep_eq)

section \<open>The simulator and the guard\<close>

lemma map_snd_enumerate: "map (\<lambda>x. f (snd x)) (enumerate n xs) = map f xs"
  using map_map [of f snd "enumerate n xs"] by (simp add: comp_def)

lemma batch_touched_eq:
  "touched_nodes s (to_commit_placements mint pr) (fset_of_list (pr_revocations pr)) =
     batch_touched s (pr_revocations pr) (pr_placements pr)"
proof -
  have "concat (map (\<lambda>p. map as_node (pl_allocations p)) (cp_placements (to_commit_placements mint pr))) = map pp_node (pr_placements pr)"
    by (simp add: to_commit_placements_def to_placement_def case_prod_unfold comp_def map_snd_enumerate)
  then show ?thesis
    by (auto simp: touched_nodes_def batch_touched_def fset_eq_iff fset_of_list_elem List.map_filter_def
        sorted_list_of_fset.rep_eq fset_of_list.rep_eq)
qed

lemma batch_node_eq:
  assumes "distinct rs"
  shows "batch_node s (free_capacity_map s) rs n = sim_node s (fset_of_list rs) (used_capacity_memo s) n"
proof -
  have "add_revoked_funded s n rs (memo_get (free_capacity_map s) n) =
      add_revoked_funded s n (sorted_list_of_fset (fset_of_list rs)) (free_capacity s n (Some (used_capacity_memo s)))"
    by (simp add: base_free add_revoked_permute [OF mset_sorted_fset [OF assms]])
  then show ?thesis by (simp add: fun_eq_iff batch_node_def sim_node_def)
qed

lemma batch_placement_eq: "fst (batch_placement p acc) = sim_placement (to_placement ids p) (fst acc)"
  by (cases acc) (simp add: batch_placement_def sim_placement_def to_placement_def Let_def split: option.split)

lemma batch_placements_eq:
  "fst (fold batch_placement ps acc) = fold sim_placement (map (\<lambda>(i, p). to_placement (mint i) p) (enumerate k ps)) (fst acc)"
proof (induction ps arbitrary: acc k)
  case (Cons p ps)
  show ?case by (simp add: Cons.IH [where k = "Suc k"] batch_placement_eq [where ids = "mint k"])
qed simp

lemma simulated_batch_eq:
  assumes "distinct (pr_revocations pr)"
  shows "fst (fold batch_placement (pr_placements pr)
      (simulate_nodes s (free_capacity_map s) (pr_revocations pr) (pr_placements pr), [])) =
    run_accrual_sim s (to_commit_placements mint pr) (fset_of_list (pr_revocations pr)) (used_capacity_memo s)"
proof -
  have "batch_node s (free_capacity_map s) (pr_revocations pr) = sim_node s (fset_of_list (pr_revocations pr)) (used_capacity_memo s)"
    using batch_node_eq [OF assms] by (simp add: fun_eq_iff)
  moreover have "cp_placements (to_commit_placements mint pr) = map (\<lambda>(i, p). to_placement (mint i) p) (enumerate 0 (pr_placements pr))"
    by (simp add: to_commit_placements_def)
  ultimately show ?thesis
    by (simp add: run_accrual_sim_def simulate_nodes_def batch_touched_eq batch_placements_eq [where mint = mint and k = 0])
qed

lemma find_none_list_ex: "find P xs = None \<longleftrightarrow> \<not> list_ex P xs"
  by (auto simp: find_None_iff list_ex_iff)

lemma simulator_decides_as_apply:
  assumes "distinct (pr_revocations pr)"
  shows "sim_rejected (simulate_batch s (free_capacity_map s) (pr_revocations pr) (pr_placements pr)) \<longleftrightarrow>
    check_accrual_limit s (to_commit_placements mint pr) (fset_of_list (pr_revocations pr)) (used_capacity_memo s) \<noteq> None"
proof -
  obtain sim fl where f: "fold batch_placement (pr_placements pr)
      (simulate_nodes s (free_capacity_map s) (pr_revocations pr) (pr_placements pr), []) = (sim, fl)" by fastforce
  have "run_accrual_sim s (to_commit_placements mint pr) (fset_of_list (pr_revocations pr)) (used_capacity_memo s) = sim"
    using simulated_batch_eq [OF assms, of s mint] f by simp
  moreover have "find (\<lambda>(_, js). 1 < fcard js) (entries m) = None \<longleftrightarrow> \<not> list_ex (\<lambda>js. 1 < fcard js) (vals m)"
    for m :: "(node_id, job_id fset) fmap"
    by (simp add: find_none_list_ex list_ex_iff case_prod_unfold)
  ultimately show ?thesis
    using f by (simp add: sim_rejected_def simulate_batch_def check_accrual_limit_def Let_def del: not_None_eq) blast
qed

end
