(* ===== verification/Sched_Calm.thy ===== *)
theory Sched_Calm
  imports Sched_Sim
begin

text \<open>
  What the batch simulator computes on a calm snapshot: one on which the invariant of the core holds and
  no node accrues for two allocations. There the queue of a node takes nothing (no capacity it could use
  is idle), so the simulation is a running subtraction per node, and its verdict is a statement about
  two sets: the jobs that accrue after the batch, and those of them on each node.
\<close>

section \<open>Calm snapshots\<close>

definition accruing_on :: "state_machine \<Rightarrow> node_id \<Rightarrow> allocation_id \<Rightarrow> bool" where
  "accruing_on s n al \<longleftrightarrow> (\<exists>r. fmlookup (allocations s) al = Some r \<and> kstate r = Accruing \<and> knode r = n)"

definition single_accruals :: "state_machine \<Rightarrow> bool" where
  "single_accruals s \<longleftrightarrow> (\<forall>n al al'. accruing_on s n al \<longrightarrow> accruing_on s n al' \<longrightarrow> al = al')"

definition calm :: "state_machine \<Rightarrow> bool" where
  "calm s \<longleftrightarrow> core {} s \<and> single_accruals s"

definition revocable :: "state_machine \<Rightarrow> allocation_id list \<Rightarrow> bool" where
  "revocable s R \<longleftrightarrow> distinct R \<and> (\<forall>al \<in> set R. \<exists>n. accruing_on s n al)"

lemma calmD:
  assumes "calm s"
  shows calm_core: "core {} s" and calm_single: "accruing_on s n al \<Longrightarrow> accruing_on s n al' \<Longrightarrow> al = al'"
  using assms by (auto simp: calm_def single_accruals_def)

lemma pool_of: "core {} s \<Longrightarrow> pool {} (attempts s) (allocations s) (accrual_queue s)"
  by (rule pool_okD(1) [OF core_pool])

lemmas calm_pool = pool_of [OF calm_core]

lemma calm_memo: "calm s \<Longrightarrow> memo_ok (allocations s) (Some (used_capacity_memo s))"
  by (rule memo_ok_scan [OF pool_okD(2) [OF core_pool [OF calm_core]]])

lemma set_queue: "calm s \<Longrightarrow> set (map snd (node_queue s n)) = {al. accruing_on s n al}"
proof -
  assume "calm s"
  have "al \<in> set (map snd (node_queue s n)) \<longleftrightarrow> (\<exists>seq. fmlookup (accrual_queue s) (n, seq) = Some al)" for al
    by (simp add: image_iff Bex_def set_node_queue)
  then show ?thesis by (auto simp: accruing_on_def pool_queue [OF calm_pool [OF \<open>calm s\<close>]])
qed

lemma calm_queue:
  assumes "calm s"
  shows "map snd (node_queue s n) = [] \<and> (\<forall>al. \<not> accruing_on s n al) \<or>
    (\<exists>al. map snd (node_queue s n) = [al] \<and> accruing_on s n al)"
proof (cases "map snd (node_queue s n)")
  case Nil
  then show ?thesis using set_queue [OF assms, of n] by auto
next
  case (Cons al rest)
  then have al: "accruing_on s n al" using set_queue [OF assms, of n] by auto
  have "distinct (al # rest)"
    using node_queue_queued [OF calm_pool [OF assms], of n] Cons by (simp add: queued_on_def)
  moreover have "al' = al" if "al' \<in> set rest" for al'
    using set_queue [OF assms, of n] Cons that calm_single [OF assms _ al] by auto
  ultimately have "rest = []" by (cases rest) auto
  then show ?thesis using Cons al by simp
qed

section \<open>The queue takes nothing\<close>

definition waiting :: "state_machine \<Rightarrow> allocation_id list \<Rightarrow> node_id \<Rightarrow> job_id fset" where
  "waiting s R n = fset_of_list (List.map_filter (\<lambda>al. if al \<in> set R then None
      else map_option (\<lambda>r. al_job (alr_allocation r)) (fmlookup (allocations s) al)) (map snd (node_queue s n)))"

definition base_room :: "state_machine \<Rightarrow> allocation_id list \<Rightarrow> node_id \<Rightarrow> resources" where
  "base_room s R n = add_revoked_funded s n R (memo_get (free_capacity_map s) n)"

lemma base_room_fold: "base_room s R n = fold (\<lambda>al free. res_add free (revoked_on s n al)) R (memo_get (free_capacity_map s) n)"
  by (simp add: base_room_def add_revoked_fold)

lemma base_room_snoc: "base_room s (R @ [al]) n = res_add (base_room s R n) (revoked_on s n al)"
  by (simp add: base_room_fold)

lemma revoked_elsewhere: "accruing_on s m al \<Longrightarrow> m \<noteq> n \<Longrightarrow> revoked_on s n al = res_zero"
  by (auto simp: accruing_on_def revoked_on_def)

lemma base_room_untouched:
  assumes "\<forall>al \<in> set R. revoked_on s n al = res_zero"
  shows "base_room s R n = memo_get (free_capacity_map s) n"
  using assms unfolding base_room_fold by (induction R rule: rev_induct) auto

lemma calm_sim_queue:
  assumes "calm s" "revocable s R"
  shows "sim_queue s (fset_of_list R) (map snd (node_queue s n)) (base_room s R n, A, {||}) = (base_room s R n, A, waiting s R n)"
  using calm_queue [OF assms(1), of n]
proof (elim disjE exE conjE)
  fix al assume q: "map snd (node_queue s n) = [al]" and on: "accruing_on s n al"
  obtain r where r: "fmlookup (allocations s) al = Some r" "kstate r = Accruing" "knode r = n"
    using on by (auto simp: accruing_on_def)
  show ?thesis
  proof (cases "al \<in> set R")
    case True
    then show ?thesis by (simp add: q sim_queue_def sim_queue_step_def waiting_def fset_of_list_elem map_filter_simps)
  next
    case False
    have "revoked_on s n al' = res_zero" if al': "al' \<in> set R" for al'
    proof -
      obtain m where m: "accruing_on s m al'" using assms(2) al' by (auto simp: revocable_def)
      then have "m \<noteq> n" using calm_single [OF assms(1) on, of al'] False al' by auto
      then show ?thesis by (rule revoked_elsewhere [OF m])
    qed
    then have "base_room s R n = free_capacity s n (Some (used_capacity_memo s))"
      using base_room_untouched [of R s n] base_free [of s n] by simp
    then have "component_min (base_room s R n) (allocation_need r) = res_zero"
      using no_idle_min [OF calm_core [OF assms(1)] calm_memo [OF assms(1)] r] by simp
    moreover have "allocation_need r \<noteq> res_zero"
    proof -
      have "fund_ok r" using pool_owned [OF calm_pool [OF assms(1)]] r(1) by (auto simp: allocations_owned_def)
      then have "\<not> fits_within (krequested r) (kfunded r)"
        using r(2) fits_within_antisym [of "kfunded r" "krequested r"] by (auto simp: fund_ok_def)
      then show ?thesis by (simp add: fits_within_iff res_eq_iff rget_need)
    qed
    moreover have "res_sub x res_zero = x" for x by (simp add: res_nat)
    ultimately show ?thesis
      using False r(1) by (simp add: q sim_queue_def sim_queue_step_def waiting_def fset_of_list_elem map_filter_simps Let_def)
  qed
qed (simp add: sim_queue_def waiting_def map_filter_simps)

section \<open>The running subtraction\<close>

definition seat_step :: "proposed_placement \<Rightarrow> (node_id \<Rightarrow> resources) \<times> (node_id \<times> job_id) set \<Rightarrow>
    (node_id \<Rightarrow> resources) \<times> (node_id \<times> job_id) set" where
  "seat_step p st =
     (let (free, short) = st; n = pp_node p; pledge = component_min (free n) (pp_requested p)
      in (free(n := res_sub (free n) pledge), if pledge = pp_requested p then short else insert (n, pp_job p) short))"

definition tally :: "state_machine \<Rightarrow> allocation_id list \<Rightarrow> proposed_placement list \<Rightarrow> (node_id \<Rightarrow> resources) \<times> (node_id \<times> job_id) set" where
  "tally s R P = fold seat_step P (base_room s R, {})"

abbreviation room :: "state_machine \<Rightarrow> allocation_id list \<Rightarrow> proposed_placement list \<Rightarrow> node_id \<Rightarrow> resources" where
  "room s R P \<equiv> fst (tally s R P)"

abbreviation short :: "state_machine \<Rightarrow> allocation_id list \<Rightarrow> proposed_placement list \<Rightarrow> (node_id \<times> job_id) set" where
  "short s R P \<equiv> snd (tally s R P)"

lemma tally_Nil [simp]: "tally s R [] = (base_room s R, {})"
  by (simp add: tally_def)

lemma tally_snoc: "tally s R (P @ [p]) = seat_step p (tally s R P)"
  by (simp add: tally_def)

lemma room_snoc: "room s R (P @ [p]) n = (if n = pp_node p
    then res_sub (room s R P n) (component_min (room s R P n) (pp_requested p)) else room s R P n)"
  by (simp add: tally_snoc seat_step_def case_prod_unfold Let_def)

lemma short_snoc: "short s R (P @ [p]) = (if component_min (room s R P (pp_node p)) (pp_requested p) = pp_requested p
    then short s R P else insert (pp_node p, pp_job p) (short s R P))"
  by (simp add: tally_snoc seat_step_def case_prod_unfold Let_def)

lemma component_min_fits: "component_min r q = q \<longleftrightarrow> fits_within q r"
  by (simp add: res_nat min.absorb_iff2 [symmetric])

text \<open>The simulation follows the running subtraction on the touched nodes.\<close>

definition tracks :: "state_machine \<Rightarrow> allocation_id list \<Rightarrow> node_id fset \<Rightarrow> accrual_sim \<Rightarrow>
    (node_id \<Rightarrow> resources) \<times> (node_id \<times> job_id) set \<Rightarrow> bool" where
  "tracks s R T sim st \<longleftrightarrow>
     (\<forall>n. fmlookup (sim_free sim) n = (if n |\<in>| T then Some (fst st n) else None)) \<and>
     fset (sim_accruing sim) = fset (accruing_jobs_before s (fset_of_list R)) \<union> snd ` snd st \<and>
     fmdom (sim_per_node sim) = T \<and>
     (\<forall>n js. fmlookup (sim_per_node sim) n = Some js \<longrightarrow> fset js = fset (waiting s R n) \<union> {j. (n, j) \<in> snd st})"

lemma tracks_placement:
  assumes "tracks s R T (fst acc) st" "pp_node p |\<in>| T"
  shows "tracks s R T (fst (batch_placement p acc)) (seat_step p st)"
proof -
  obtain sim fl where acc: "acc = (sim, fl)" by (cases acc)
  obtain free sh where st: "st = (free, sh)" by (cases st)
  have sf: "fmlookup (sim_free sim) (pp_node p) = Some (free (pp_node p))" using assms by (simp add: tracks_def acc st)
  obtain js where js: "fmlookup (sim_per_node sim) (pp_node p) = Some js"
    using assms by (auto simp: tracks_def acc dest: fmdomE)
  show ?thesis
    using assms js by (auto simp: tracks_def acc st batch_placement_def seat_step_def Let_def sf fm_or_insert_def)
qed

lemma tracks_placements:
  assumes "tracks s R T (fst acc) st" "\<forall>p \<in> set P. pp_node p |\<in>| T"
  shows "tracks s R T (fst (fold batch_placement P acc)) (fold seat_step P st)"
  using assms by (induction P arbitrary: acc st) (simp_all add: tracks_placement)

lemma calm_batch_node:
  assumes "calm s" "revocable s R"
  shows "batch_node s (free_capacity_map s) R n sim =
    sim\<lparr>sim_free := fmupd n (base_room s R n) (sim_free sim), sim_per_node := fmupd n (waiting s R n) (sim_per_node sim)\<rparr>"
  using calm_sim_queue [OF assms, of n "sim_accruing sim"] by (simp add: batch_node_def base_room_def [symmetric])

lemma calm_batch_nodes:
  assumes "calm s" "revocable s R"
  shows "fold (batch_node s (free_capacity_map s) R) ns sim =
    sim\<lparr>sim_free := fold (\<lambda>n. fmupd n (base_room s R n)) ns (sim_free sim),
      sim_per_node := fold (\<lambda>n. fmupd n (waiting s R n)) ns (sim_per_node sim)\<rparr>"
  by (induction ns arbitrary: sim) (simp_all add: calm_batch_node [OF assms])

lemma fold_fmupd_lookup: "fmlookup (fold (\<lambda>n. fmupd n (f n)) ns m) x = (if x \<in> set ns then Some (f x) else fmlookup m x)"
  by (induction ns arbitrary: m) auto

lemma tracks_start:
  assumes "calm s" "revocable s R"
  shows "tracks s R (batch_touched s R P) (simulate_nodes s (free_capacity_map s) R P) (base_room s R, {})"
proof -
  let ?T = "batch_touched s R P"
  have "x |\<in>| fmdom (fold (\<lambda>n. fmupd n (f n)) (sorted_list_of_fset ?T) fmempty) \<longleftrightarrow> x |\<in>| ?T"
    for x and f :: "node_id \<Rightarrow> job_id fset"
    by (simp add: fmdom_notI fmlookup_dom_iff fold_fmupd_lookup sorted_list_of_fset.rep_eq)
  then show ?thesis
    by (auto simp: tracks_def simulate_nodes_def calm_batch_nodes [OF assms] fold_fmupd_lookup sorted_list_of_fset.rep_eq
        fset_eq_iff split: if_splits)
qed

text \<open>The verdict.\<close>

definition jobs_after :: "state_machine \<Rightarrow> allocation_id list \<Rightarrow> proposed_placement list \<Rightarrow> job_id set" where
  "jobs_after s R P = fset (accruing_jobs_before s (fset_of_list R)) \<union> snd ` short s R P"

definition admissible :: "state_machine \<Rightarrow> allocation_id list \<Rightarrow> proposed_placement list \<Rightarrow> bool" where
  "admissible s R P \<longleftrightarrow>
     card (jobs_after s R P) \<le> max (unat (po_accrual_limit (policy s))) (fcard (accruing_jobs_before s (fset_of_list R))) \<and>
     (\<forall>n. card (fset (waiting s R n) \<union> {j. (n, j) \<in> short s R P}) \<le> 1)"

lemma short_touched: "(n, j) \<in> short s R P \<Longrightarrow> \<exists>p \<in> set P. pp_node p = n \<and> pp_job p = j"
  by (induction P rule: rev_induct) (auto simp: short_snoc split: if_splits)

lemma waiting_card: "calm s \<Longrightarrow> card (fset (waiting s R n)) \<le> 1"
  using calm_queue [of s n] by (auto simp: waiting_def map_filter_simps split: option.split)

lemma calm_verdict:
  assumes "calm s" "revocable s R"
  shows "sim_rejected (simulate_batch s (free_capacity_map s) R P) \<longleftrightarrow> \<not> admissible s R P"
proof -
  let ?T = "batch_touched s R P"
  obtain sim fl where f: "fold batch_placement P (simulate_nodes s (free_capacity_map s) R P, []) = (sim, fl)" by fastforce
  have T: "\<forall>p \<in> set P. pp_node p |\<in>| ?T" by (simp add: batch_touched_def fset_of_list_elem)
  have tr: "tracks s R ?T sim (tally s R P)"
    using tracks_placements [OF _ , of s R ?T "(simulate_nodes s (free_capacity_map s) R P, [])" "(base_room s R, {})" P]
      tracks_start [OF assms, of P] f T by (simp add: tally_def)
  have after: "fcard (sim_accruing sim) = card (jobs_after s R P)"
    using tr by (simp add: tracks_def fcard.rep_eq jobs_after_def)
  have "(\<exists>js \<in> set (vals (sim_per_node sim)). 1 < fcard js) \<longleftrightarrow> (\<exists>n. 1 < card (fset (waiting s R n) \<union> {j. (n, j) \<in> short s R P}))"
    (is "?L \<longleftrightarrow> ?R")
  proof
    assume ?L
    then obtain n js where "fmlookup (sim_per_node sim) n = Some js" "1 < fcard js" by (auto simp: set_vals simp del: set_map)
    then show ?R using tr by (intro exI [of _ n]) (auto simp: tracks_def fcard.rep_eq)
  next
    assume ?R
    then obtain n where n: "1 < card (fset (waiting s R n) \<union> {j. (n, j) \<in> short s R P})" by blast
    then have "{j. (n, j) \<in> short s R P} \<noteq> {}" using waiting_card [OF assms(1), of R n] by (metis Un_empty_right not_le)
    then obtain p where "p \<in> set P" "pp_node p = n" using short_touched [of n _ s R P] by blast
    then have "n |\<in>| ?T" using T by blast
    then have "n |\<in>| fmdom (sim_per_node sim)" using tr by (simp add: tracks_def)
    then obtain js where "fmlookup (sim_per_node sim) n = Some js" by (rule fmdomE)
    then show ?L using n tr by (auto simp: set_vals tracks_def fcard.rep_eq simp del: set_map intro!: bexI [of _ js])
  qed
  then show ?thesis
    using f after by (auto simp: sim_rejected_def simulate_batch_def admissible_def Let_def list_ex_iff not_le simp del: set_map)
qed

section \<open>Growing a batch\<close>

definition accrues :: "state_machine \<Rightarrow> allocation_id \<Rightarrow> job_id \<Rightarrow> node_id \<Rightarrow> bool" where
  "accrues s al j n \<longleftrightarrow> (\<exists>r. fmlookup (allocations s) al = Some r \<and> kstate r = Accruing \<and> knode r = n \<and> al_job (alr_allocation r) = j)"

lemma accrues_on: "accrues s al j n \<Longrightarrow> accruing_on s n al" "accruing_on s n al \<Longrightarrow> \<exists>j. accrues s al j n"
  by (auto simp: accrues_def accruing_on_def)

lemma accrues_fun: "accrues s al j n \<Longrightarrow> accrues s al j' n' \<Longrightarrow> j' = j \<and> n' = n"
  by (auto simp: accrues_def)

lemma accrues_attempt:
  assumes "core {} s" "accrues s al j n"
  obtains a r where "fmlookup (attempts s) a = Some r" "\<not> attempt_terminal (astate r)" "ajob r = j" "aalloc r = al"
proof -
  obtain k where k: "fmlookup (allocations s) al = Some k" "kstate k = Accruing" "al_job (alr_allocation k) = j"
    using assms(2) by (auto simp: accrues_def)
  obtain r where r: "fmlookup (attempts s) (kattempt k) = Some r" "aalloc r = al"
    using pool_owned [OF pool_of [OF assms(1)]] k(1) by (auto simp: allocations_owned_def)
  obtain k' where "fmlookup (allocations s) (aalloc r) = Some k'" "linked (kattempt k) r (aalloc r) k'"
    "matched False (astate r) (kstate k')"
    using pool_linked [OF pool_of [OF assms(1)]] r(1) by (auto simp: attempts_linked_def)
  then have "linked (kattempt k) r al k" "kstate k = alloc_state_for (astate r)" using r k(1) by (auto simp: matched_def)
  then show thesis using that [OF r(1)] r k by (cases "astate r") (auto simp: linked_def)
qed

lemma accrues_job_fun:
  assumes "core {} s" "accrues s al j n" "accrues s al' j n'"
  shows "al' = al"
proof -
  obtain a r where r: "fmlookup (attempts s) a = Some r" "\<not> attempt_terminal (astate r)" "ajob r = j" "aalloc r = al"
    using accrues_attempt [OF assms(1,2)] .
  obtain a' r' where r': "fmlookup (attempts s) a' = Some r'" "\<not> attempt_terminal (astate r')" "ajob r' = j" "aalloc r' = al'"
    using accrues_attempt [OF assms(1,3)] .
  have "a' = a" using pool_live [OF pool_of [OF assms(1)]] r r' unfolding one_live_def by metis
  then show ?thesis using r r' by simp
qed

lemma before_set:
  assumes "calm s"
  shows "fset (accruing_jobs_before s (fset_of_list R)) = {j. \<exists>al n. al \<notin> set R \<and> accrues s al j n}"
proof -
  have "fset (fold (\<lambda>al js. if al |\<in>| fset_of_list R then js else case fmlookup (allocations s) al of
        None \<Rightarrow> js | Some a \<Rightarrow> finsert (al_job (alr_allocation a)) js) als js0) =
      fset js0 \<union> {j. \<exists>al r. al \<in> set als \<and> al \<notin> set R \<and> fmlookup (allocations s) al = Some r \<and> al_job (alr_allocation r) = j}" for als js0
    by (induction als arbitrary: js0) (auto simp: fset_of_list_elem split: option.splits)
  moreover have "al \<in> set (vals (accrual_queue s)) \<longleftrightarrow> (\<exists>r. fmlookup (allocations s) al = Some r \<and> kstate r = Accruing)" for al
  proof -
    have "al \<in> set (vals (accrual_queue s)) \<longleftrightarrow> (\<exists>n seq. fmlookup (accrual_queue s) (n, seq) = Some al)"
      by (simp add: set_vals del: set_map)
    then show ?thesis by (auto simp: pool_queue [OF calm_pool [OF assms]])
  qed
  ultimately show ?thesis by (auto simp: accruing_jobs_before_def accrues_def simp del: set_map)
qed

lemma waiting_set:
  assumes "calm s"
  shows "fset (waiting s R n) = {j. \<exists>al. al \<notin> set R \<and> accrues s al j n}"
proof -
  have "j |\<in>| waiting s R n \<longleftrightarrow> (\<exists>al. accruing_on s n al \<and> al \<notin> set R \<and> (\<exists>r. fmlookup (allocations s) al = Some r \<and> al_job (alr_allocation r) = j))" for j
    using set_queue [OF assms, of n] by (force simp: waiting_def fset_of_list_elem List.map_filter_def split: if_splits)
  moreover have "accruing_on s n al \<and> (\<exists>r. fmlookup (allocations s) al = Some r \<and> al_job (alr_allocation r) = j) \<longleftrightarrow> accrues s al j n" for al j
    by (auto simp: accrues_def accruing_on_def)
  ultimately show ?thesis by blast
qed

lemma seat_step_shift:
  "pp_node p \<noteq> m \<Longrightarrow> seat_step p (f(m := x), S) = ((fst (seat_step p (f, S)))(m := x), snd (seat_step p (f, S)))"
  by (auto simp: seat_step_def Let_def fun_eq_iff)

lemma tally_shift:
  assumes "\<forall>p \<in> set P. pp_node p \<noteq> m"
  shows "fold seat_step P (f(m := x), S) = ((fst (fold seat_step P (f, S)))(m := x), snd (fold seat_step P (f, S)))"
  using assms
proof (induction P arbitrary: f S)
  case (Cons p P)
  obtain f' S' where fs: "seat_step p (f, S) = (f', S')" by fastforce
  have "seat_step p (f(m := x), S) = (f'(m := x), S')" using seat_step_shift [of p m f x S] Cons.prems fs by simp
  then show ?case using Cons.IH [of f' S'] Cons.prems by (simp add: fs del: fun_upd_apply)
qed simp

lemma tally_revoke:
  assumes "accrues s al j m" "\<forall>p \<in> set P. pp_node p \<noteq> m"
  shows "room s (R @ [al]) P = (room s R P)(m := res_add (base_room s R m) (revoked_on s m al))"
    and "short s (R @ [al]) P = short s R P"
proof -
  have "base_room s (R @ [al]) = (base_room s R)(m := res_add (base_room s R m) (revoked_on s m al))"
    using revoked_elsewhere [OF accrues_on(1) [OF assms(1)]] by (auto simp: base_room_snoc fun_eq_iff)
  then show "room s (R @ [al]) P = (room s R P)(m := res_add (base_room s R m) (revoked_on s m al))"
    "short s (R @ [al]) P = short s R P"
    by (simp_all add: tally_def tally_shift [OF assms(2)])
qed

lemma room_unplaced: "\<forall>p \<in> set P. pp_node p \<noteq> m \<Longrightarrow> room s R P m = base_room s R m"
  by (induction P rule: rev_induct) (auto simp: room_snoc)

lemma admissible_funded:
  assumes "fits_within (pp_requested p) (room s R P (pp_node p))"
  shows "admissible s R (P @ [p]) \<longleftrightarrow> admissible s R P"
  using assms by (simp add: admissible_def jobs_after_def short_snoc component_min_fits)

lemma finite_short [simp]: "finite (short s R P)"
  by (induction P rule: rev_induct) (simp_all add: short_snoc)

lemma admissible_revoke:
  assumes c: "calm s" and a: "accrues s al j m" "al \<notin> set R" and P: "\<forall>p \<in> set P. pp_node p \<noteq> m \<and> pp_job p \<noteq> j"
    and ok: "admissible s R P"
  shows "admissible s (R @ [al]) P"
proof -
  let ?B = "fset (accruing_jobs_before s (fset_of_list R))" and ?S = "snd ` short s R P"
  have sh: "short s (R @ [al]) P = short s R P" using tally_revoke(2) [OF a(1)] P by blast
  have "i \<in> fset (accruing_jobs_before s (fset_of_list (R @ [al]))) \<longleftrightarrow> i \<in> ?B - {j}" for i
  proof -
    have "al' \<noteq> al \<longleftrightarrow> i \<noteq> j" if "accrues s al' i n" for al' n
      using that accrues_job_fun [OF calm_core [OF c] a(1), of al' n] accrues_fun [OF a(1), of i n] by blast
    then have "(\<exists>al' n. al' \<notin> set (R @ [al]) \<and> accrues s al' i n) \<longleftrightarrow> (\<exists>al' n. al' \<notin> set R \<and> accrues s al' i n) \<and> i \<noteq> j" by auto
    then show ?thesis unfolding before_set [OF c] by simp
  qed
  then have B: "fset (accruing_jobs_before s (finsert al (fset_of_list R))) = ?B - {j}" by auto
  have "j \<in> ?B" using a by (simp add: before_set [OF c]) blast
  note B = B this
  have j: "j \<notin> ?S" using P short_touched [of _ _ s R P] by fastforce
  have "?B - {j} \<union> ?S = (?B \<union> ?S) - {j}" using j by blast
  then have "card (?B - {j} \<union> ?S) = card (?B \<union> ?S) - 1" using B(2) by (simp only: card_Diff_singleton UnI1)
  moreover have "card (?B - {j}) = card ?B - 1" "0 < card ?B" using B(2) by (auto simp: card_gt_0_iff)
  moreover have "card (?B \<union> ?S) \<le> max (unat (po_accrual_limit (policy s))) (card ?B)"
    using ok by (simp add: admissible_def jobs_after_def fcard.rep_eq)
  ultimately have "card (?B - {j} \<union> ?S) \<le> max (unat (po_accrual_limit (policy s))) (card (?B - {j}))" by linarith
  moreover have le: "card (fset (waiting s (R @ [al]) n) \<union> {i. (n, i) \<in> short s R P}) \<le> card (fset (waiting s R n) \<union> {i. (n, i) \<in> short s R P})" for n
  proof (rule card_mono)
    have "{i. (n, i) \<in> short s R P} \<subseteq> ?S" by force
    then show "finite (fset (waiting s R n) \<union> {i. (n, i) \<in> short s R P})" by (auto intro: finite_subset)
    show "fset (waiting s (R @ [al]) n) \<union> {i. (n, i) \<in> short s R P} \<subseteq> fset (waiting s R n) \<union> {i. (n, i) \<in> short s R P}"
      by (auto simp: waiting_set [OF c])
  qed
  moreover have "card (fset (waiting s R n) \<union> {i. (n, i) \<in> short s R P}) \<le> 1" for n
    using ok by (simp add: admissible_def)
  ultimately show ?thesis by (simp add: admissible_def jobs_after_def fcard.rep_eq sh B(1) order_trans [OF le])
qed

end
