(* ===== verification/Steady.thy ===== *)
theory Steady
  imports Admin_Inv
begin

text \<open>
  Two bookkeeping facts every log keeps: a node record is filed under its own identifier, and the quota
  entity a job is charged to is in the tree. Jobs are checked against the tree on submission, never
  change their entity, and no command removes an entity.
\<close>

definition nodes_keyed :: "state_machine \<Rightarrow> bool" where
  "nodes_keyed s \<longleftrightarrow> (\<forall>n rec. fmlookup (nodes s) n = Some rec \<longrightarrow> nd_id (nr_node rec) = n)"

definition entities_known :: "state_machine \<Rightarrow> bool" where
  "entities_known s \<longleftrightarrow> (\<forall>j jr. fmlookup (jobs s) j = Some jr \<longrightarrow> has_key (j_quota_entity (jr_spec jr)) (quota_entities s))"

definition steady :: "state_machine \<Rightarrow> state_machine \<Rightarrow> bool" where
  "steady s s' \<longleftrightarrow> (nodes_keyed s \<longrightarrow> nodes_keyed s') \<and> (entities_known s \<longrightarrow> entities_known s') \<and>
     same_shape (quota_entities s) (quota_entities s')"

lemma entities_shape:
  "entities_known s \<Longrightarrow> jobs s' = jobs s \<Longrightarrow> same_shape (quota_entities s) (quota_entities s') \<Longrightarrow> entities_known s'"
  using has_key_shape by (fastforce simp: entities_known_def)

interpretation steadying: footprint steady
proof (unfold_locales, goal_cases)
  case (2 a b c)
  then show ?case using same_shape_trans by (auto simp: steady_def)
next
  case (8 s n nr')
  then show ?case by (cases "fmlookup (nodes s) n") (auto simp: steady_def nodes_keyed_def entities_known_def)
next
  case (10 s e amount t)
  have "same_shape (quota_entities s) (quota_entities (charge_ancestors e amount t s))"
    by (simp add: charge_ancestors_def update_ancestors_shape)
  then show ?case using entities_shape [of s] by (simp add: steady_def nodes_keyed_def charge_ancestors_def)
next
  case (11 s e u t)
  have "same_shape (quota_entities s) (quota_entities (settle_ancestors e u t s))"
    by (simp add: settle_ancestors_def update_ancestors_shape)
  then show ?case using entities_shape [of s] by (simp add: steady_def nodes_keyed_def settle_ancestors_def)
qed (auto simp: steady_def nodes_keyed_def entities_known_def)

definition filed :: "state_machine \<Rightarrow> bool" where
  "filed s \<longleftrightarrow> nodes_keyed s \<and> entities_known s"

lemma record_ca_same:
  "nodes (fst (record_ca_certificate ext c s)) = nodes s" "jobs (fst (record_ca_certificate ext c s)) = jobs s"
  using activate_staged_same [of s "bundle_serials ext (rca_bundle c)"]
  by (simp_all add: record_ca_certificate_def stage_root_def same_core_def Let_def split: option.split)

definition untouched :: "state_machine \<Rightarrow> state_machine \<Rightarrow> bool" where
  "untouched s s' \<longleftrightarrow> nodes s' = nodes s \<and> jobs s' = jobs s \<and> quota_entities s' = quota_entities s"

lemma administrative:
  "untouched s (fst (update_policy up s))" "untouched s (fst (update_authorization ua s))"
  "untouched s (fst (bump_cluster_version v actor t s))" "untouched s (fst (bind_machine_identity bm s))"
  "untouched s (fst (mint_enroll_token mt s))" "untouched s (fst (revoke_enroll_token tok t s))"
  "untouched s (fst (revoke_identity i t s))" "untouched s (fst (confirm_key_possession n t s))"
  "untouched s (fst (record_enrolled_identity m t s))" "untouched s (fst (rebind_machine_address n addr t s))"
  "untouched s (fst (retire_machine_binding m t s))" "untouched s (fst (record_key_transfer_intent n t s))"
  "untouched s (fst (record_staged_key_transfer_intent n serial t s))" "untouched s (fst (confirm_staged_key_possession n serial t s))"
  by (simp_all add: untouched_def update_policy_def update_authorization_def identity_defs split: option.split sum.split)

lemma filed_step: "filed s \<Longrightarrow> filed (fst (dispatch ext cmd s))"
proof -
  assume ok: "filed s"
  have grow: "filed s'" if "nodes s' = nodes s" "jobs s' = jobs s"
    "\<And>e. has_key e (quota_entities s) \<Longrightarrow> has_key e (quota_entities s')" for s'
    using ok that by (auto simp: filed_def nodes_keyed_def entities_known_def)
  then have keep: "filed s'" if "untouched s s'" for s' using that by (simp add: untouched_def)
  have st: "filed s'" if "steady s s'" for s'
    using ok that by (simp add: filed_def steady_def)
  note S = steadying.handlers_rel [THEN st]
  show ?thesis
  proof (cases cmd)
    case (ConfigureQuotaEntity c)
    show ?thesis
      unfolding ConfigureQuotaEntity dispatch_def command.case
      by (rule grow) (simp_all add: configure_quota_entity_def configure_existing_def configure_new_def
          split: sum.split option.split)
  next
    case (RecordCaCertificate c)
    then show ?thesis using record_ca_same [of ext c s] by (intro grow) (simp_all add: dispatch_def admin_same)
  qed (use S in \<open>simp_all add: dispatch_def administrative [THEN keep]\<close>)
qed

lemma filed_version: "filed (s\<lparr>version := v\<rparr>) \<longleftrightarrow> filed s"
  by (simp add: filed_def nodes_keyed_def entities_known_def)

interpretation filed_log: unconditional "step_of ext" filed for ext
proof
  fix s c and cs :: "command list"
  assume "filed s"
  then show "filed (step_of ext c s)"
    using filed_step [of s ext c] by (simp add: apply_command_def case_prod_unfold Let_def filed_version)
qed

lemma run_log_filed: "filed (run_log ext cmds state_default)"
  unfolding run_log_fold
  by (rule filed_log.always) (simp add: filed_def nodes_keyed_def entities_known_def state_default_def)

end
