(* ===== verification/Pass_Inv.thy ===== *)
theory Pass_Inv
  imports Sched_Calm Steady
begin

text \<open>
  The invariant of a scheduling pass. The working model of a pass follows the running subtraction of its
  batch: every node has the capacity that is left after the batch, and exactly the accruals that the
  batch has not revoked. The batch itself stays admissible, and each of its seats is one that apply
  takes.
\<close>

section \<open>What a node admits\<close>

definition admission_at :: "state_machine \<Rightarrow> node_id \<Rightarrow> node_admission" where
  "admission_at s n = (case fmlookup (nodes s) n of
     None \<Rightarrow> AdmitClosed | Some rec \<Rightarrow> node_admission_of rec (policy s) (node_horizon_of s n))"

lemma horizon_step:
  assumes "\<forall>m. fmlookup out m = (if m |\<in>| D then Some (h m) else None)"
  shows "fmlookup (fold (\<lambda>r out. case fmlookup out (knode r) of None \<Rightarrow> out
      | Some x \<Rightarrow> if kstate r = Released then out else fmupd (knode r) (absorb x (commitment_bound s r)) out) rs out) n =
    (if n |\<in>| D then Some (fold (\<lambda>r x. if knode r = n \<and> kstate r \<noteq> Released then absorb x (commitment_bound s r) else x) rs (h n)) else None)"
  using assms
proof (induction rs arbitrary: out h)
  case (Cons r rs)
  let ?h = "\<lambda>m. if knode r = m \<and> kstate r \<noteq> Released then absorb (h m) (commitment_bound s r) else h m"
  let ?out = "case fmlookup out (knode r) of None \<Rightarrow> out
      | Some x \<Rightarrow> if kstate r = Released then out else fmupd (knode r) (absorb x (commitment_bound s r)) out"
  have "\<forall>m. fmlookup ?out m = (if m |\<in>| D then Some (?h m) else None)" using Cons.prems by auto
  then show ?case using Cons.IH [of ?out ?h] by simp
qed simp

definition horizon_scan :: "state_machine \<Rightarrow> node_id \<Rightarrow> node_horizon" where
  "horizon_scan s n = fold (\<lambda>r x. if knode r = n \<and> kstate r \<noteq> Released then absorb x (commitment_bound s r) else x)
     (vals (allocations s)) HorizonEmpty"

lemma node_horizons_lookup: "fmlookup (node_horizons s D) n = (if n |\<in>| D then Some (horizon_scan s n) else None)"
proof -
  let ?out = "fold (\<lambda>n m. fmupd n HorizonEmpty m) (sorted_list_of_fset D) fmempty"
  have "\<forall>m. fmlookup ?out m = (if m |\<in>| D then Some HorizonEmpty else None)"
    by (simp add: sorted_list_of_fset.rep_eq fold_fmupd_lookup [where f = "\<lambda>_. HorizonEmpty"])
  then show ?thesis
    using horizon_step [of ?out D "\<lambda>_. HorizonEmpty" s "vals (allocations s)" n]
    by (simp add: node_horizons_def Let_def horizon_scan_def)
qed

lemma horizon_of_scan: "node_horizon_of s n = horizon_scan s n"
  by (simp add: node_horizon_of_def node_horizons_lookup)

text \<open>Only a node drained without a deadline, and not yet announced by its agent, asks for its horizon.\<close>

definition asks_horizon :: "node_record \<Rightarrow> bool" where
  "asks_horizon rec \<longleftrightarrow> (case nd_drain (nr_node rec) of None \<Rightarrow> False | Some d \<Rightarrow> dr_deadline d = None) \<and> \<not> nr_draining rec"

lemma admission_horizon: "\<not> asks_horizon rec \<Longrightarrow> node_admission_of rec p h = node_admission_of rec p h'"
  by (auto simp: asks_horizon_def node_admission_of_def split: option.splits)

lemma admission_lookup:
  assumes "fmlookup (nodes s) n = Some rec" "asks_horizon rec \<Longrightarrow> n |\<in>| D"
  shows "node_admission_of rec (policy s) (case fmlookup (node_horizons s D) n of None \<Rightarrow> HorizonUnbounded | Some h \<Rightarrow> h) = admission_at s n"
proof (cases "asks_horizon rec")
  case True
  then show ?thesis using assms by (simp add: admission_at_def node_horizons_lookup horizon_of_scan)
next
  case False
  then show ?thesis using admission_horizon [OF False] assms(1) by (simp add: admission_at_def)
qed

lemma absorb_unbounded: "fold (\<lambda>r x. if P r then absorb x (b r) else x) rs HorizonUnbounded = HorizonUnbounded"
  by (induction rs) auto

lemma horizon_accruing:
  assumes "accruing_on s n al"
  shows "horizon_scan s n = HorizonUnbounded"
proof -
  obtain r where r: "fmlookup (allocations s) al = Some r" "kstate r = Accruing" "knode r = n"
    using assms by (auto simp: accruing_on_def)
  then have "r \<in> set (vals (allocations s))" by (auto simp: set_vals simp del: set_map)
  then obtain xs ys where "vals (allocations s) = xs @ r # ys" by (meson split_list)
  moreover have "absorb x None = HorizonUnbounded" for x by (cases x) auto
  ultimately show ?thesis using r absorb_unbounded [of "\<lambda>r. knode r = n \<and> kstate r \<noteq> Released"]
    by (simp add: horizon_scan_def commitment_bound_def)
qed

lemma accruing_backfill:
  assumes "accruing_on s n al" "is_backfill (admission_at s n)"
  obtains rec d t where "fmlookup (nodes s) n = Some rec" "nd_drain (nr_node rec) = Some d" "dr_deadline d = Some t" "\<not> nr_draining rec"
proof -
  obtain rec where rec: "fmlookup (nodes s) n = Some rec"
    using assms(2) by (cases "fmlookup (nodes s) n") (auto simp: admission_at_def is_backfill_def)
  show thesis
    using that [OF rec] assms(2)
    by (auto simp: admission_at_def is_backfill_def rec horizon_of_scan horizon_accruing [OF assms(1)] node_admission_of_def
        split: option.splits if_splits)
qed

section \<open>Scans over the nodes\<close>

text \<open>Every scan keeps a candidate that passed its filter.\<close>

lemma scan_sound:
  assumes "\<And>i nm best. ok nm best \<Longrightarrow> step (i, nm) best = best \<or> (\<exists>x. step (i, nm) best = Some x \<and> pick x = i \<and> good nm x)"
    "\<And>i nm best. \<not> ok nm best \<Longrightarrow> step (i, nm) best = best"
    "fold step (enumerate 0 nms) None = Some x"
  shows "pick x < length nms \<and> good (nms ! pick x) x"
proof -
  let ?Q = "\<lambda>b. case b of None \<Rightarrow> True | Some x \<Rightarrow> pick x < length nms \<and> good (nms ! pick x) x"
  have "?Q (fold step inms b)" if "?Q b" "\<forall>(i, nm) \<in> set inms. i < length nms \<and> nms ! i = nm" for inms b
    using that
  proof (induction inms arbitrary: b)
    case (Cons inm inms)
    obtain i nm where inm: "inm = (i, nm)" by (cases inm)
    have i: "i < length nms" "nms ! i = nm" using Cons.prems(2) inm by auto
    have "step (i, nm) b = b \<or> (\<exists>x. step (i, nm) b = Some x \<and> pick x = i \<and> good nm x)"
      using assms(1,2) by blast
    then have "?Q (step (i, nm) b)"
    proof (elim disjE exE conjE)
      fix x assume "step (i, nm) b = Some x" "pick x = i" "good nm x"
      then show ?thesis using i by simp
    qed (simp only: Cons.prems(1))
    then show ?case using Cons.IH [of "step (i, nm) b"] Cons.prems(2) inm by simp
  qed simp
  moreover have "\<forall>(i, nm) \<in> set (enumerate 0 nms). i < length nms \<and> nms ! i = nm"
    by (auto simp: in_set_enumerate_eq)
  ultimately have "?Q (Some x)" using assms(3) by (metis (mono_tags, lifting) option.simps(4))
  then show ?thesis by simp
qed

lemma best_node_sound:
  assumes "best_node F preemptible nms ok key = Some i"
  shows "i < length nms \<and> ok (nms ! i)"
proof -
  let ?step = "\<lambda>(i, nm) best. if \<not> ok nm then best
    else if better_key F preemptible nms (key nm) nm best then Some (key nm, i) else best"
  obtain x where "fold ?step (enumerate 0 nms) None = Some x" "i = snd x" using assms by (auto simp: best_node_def)
  then show ?thesis using scan_sound [of "\<lambda>nm _. ok nm" ?step snd "\<lambda>nm _. ok nm" nms x] by auto
qed

lemma best_improvement_sound:
  assumes "best_improvement_target F p source preemptible requested required current = Some (i, t)"
  shows "i < length (pa_nodes p) \<and> improvement_ready p source preemptible requested required current (pa_nodes p ! i) = Some t"
proof -
  let ?ready = "improvement_ready p source preemptible requested required current"
  let ?step = "\<lambda>(i, nm) best. case ?ready nm of None \<Rightarrow> best
    | Some ready \<Rightarrow>
        let pledged = pledge_fraction F (nm_sim_free nm) requested;
            better = (case best of
                None \<Rightarrow> True
              | Some (best_ready, best_pledged, bi) \<Rightarrow>
                  ready < best_ready \<or> (ready = best_ready \<and> f_lt F best_pledged pledged) \<or>
                  (ready = best_ready \<and> f_eq F pledged best_pledged \<and> prefers_on_tie preemptible nm (pa_nodes p ! bi)))
        in if better then Some (ready, pledged, i) else best"
  obtain f where "fold ?step (enumerate 0 (pa_nodes p)) None = Some (t, f, i)"
    using assms by (auto simp: best_improvement_target_def)
  then show ?thesis
    using scan_sound [of "\<lambda>nm _. ?ready nm \<noteq> None" ?step "\<lambda>x. snd (snd x)" "\<lambda>nm x. ?ready nm = Some (fst x)" "pa_nodes p" "(t, f, i)"]
    by (auto simp: Let_def split: option.splits if_splits)
qed

lemma best_accrual_sound:
  assumes "best_accrual_target F preemptible requested required p = Some (t, f, i)"
  shows "i < length (pa_nodes p) \<and> model_admits (pa_nodes p ! i) preemptible \<and> capable requested required (pa_nodes p ! i)"
proof -
  let ?step = "\<lambda>(i, nm) best.
      if \<not> model_admits nm preemptible \<or> \<not> capable requested required nm then best
      else if nm_accruals nm \<noteq> [] \<or> nm_pending_accruals nm \<noteq> [] then best
      else
        let remaining = res_sub requested (component_min (nm_sim_free nm) requested);
            ready = candidate_projected_ready nm remaining;
            pledged = pledge_fraction F (nm_sim_free nm) requested
        in if better_accrual F preemptible p ready pledged nm best then Some (ready, pledged, i) else best"
  let ?ok = "\<lambda>nm. model_admits nm preemptible \<and> capable requested required nm"
  have "fold ?step (enumerate 0 (pa_nodes p)) None = Some (t, f, i)"
    using assms by (simp add: best_accrual_target_def split: if_splits)
  then show ?thesis
    using scan_sound [of "\<lambda>nm _. ?ok nm" ?step "\<lambda>x. snd (snd x)" "\<lambda>nm _. ?ok nm" "pa_nodes p" "(t, f, i)"]
    by (auto simp: Let_def)
qed

section \<open>The books of a node\<close>

abbreviation nm_id :: "'f node_model \<Rightarrow> node_id" where
  "nm_id nm \<equiv> nd_id (nm_node nm)"

definition mirrors :: "state_machine \<Rightarrow> sim_accrual \<Rightarrow> bool" where
  "mirrors s a \<longleftrightarrow> (\<exists>r. fmlookup (allocations s) (sa_alloc a) = Some r \<and> sa_job a = al_job (alr_allocation r) \<and>
     sa_requested a = krequested r \<and> sa_funded a = kfunded r)"

definition node_books :: "state_machine \<Rightarrow> allocation_id list \<Rightarrow> proposed_placement list \<Rightarrow> 'f node_model \<Rightarrow> bool" where
  "node_books s R P nm \<longleftrightarrow> nm_sim_free nm = room s R P (nm_id nm) \<and> length (nm_accruals nm) \<le> 1 \<and>
     (\<forall>al. al \<in> sa_alloc ` set (nm_accruals nm) \<longleftrightarrow> accruing_on s (nm_id nm) al \<and> al \<notin> set R) \<and>
     (\<forall>a \<in> set (nm_accruals nm). mirrors s a)"

lemma node_books_elsewhere:
  assumes "node_books s R P nm" "pp_node pl \<noteq> nm_id nm"
  shows "node_books s R (P @ [pl]) nm"
  using assms by (simp add: node_books_def room_snoc)

lemma node_books_seat:
  assumes "node_books s R P nm" "pp_node pl = nm_id nm" "nm_node nm' = nm_node nm" "nm_accruals nm' = nm_accruals nm"
    "nm_sim_free nm' = res_sub (nm_sim_free nm) (component_min (nm_sim_free nm) (pp_requested pl))"
  shows "node_books s R (P @ [pl]) nm'"
  using assms by (simp add: node_books_def room_snoc)

lemma node_books_kept:
  assumes b: "node_books s R P nm" and al: "accrues s al j m" and P: "\<forall>pl \<in> set P. pp_node pl \<noteq> m" and m: "m \<noteq> nm_id nm"
  shows "node_books s (R @ [al]) P nm"
proof -
  have "\<not> accruing_on s (nm_id nm) al" using al m by (auto simp: accrues_def accruing_on_def)
  then show ?thesis using b m by (auto simp: node_books_def tally_revoke(1) [OF al P])
qed

lemma node_books_revoke:
  assumes c: "calm s" and b: "node_books s R P nm" and al: "accrues s al j (nm_id nm)" "al \<notin> set R"
    and P: "\<forall>pl \<in> set P. pp_node pl \<noteq> nm_id nm"
  obtains a where "nm_accruals nm = [a]" "sa_alloc a = al" "sa_job a = j" "sa_funded a = revoked_on s (nm_id nm) al"
    "\<And>nm'. nm_node nm' = nm_node nm \<Longrightarrow> nm_accruals nm' = [] \<Longrightarrow> nm_sim_free nm' = res_add (nm_sim_free nm) (sa_funded a) \<Longrightarrow>
       node_books s (R @ [al]) P nm'"
proof -
  have "al \<in> sa_alloc ` set (nm_accruals nm)" using b al accrues_on(1) [OF al(1)] by (simp add: node_books_def)
  moreover have "length (nm_accruals nm) \<le> 1" using b by (simp add: node_books_def)
  ultimately obtain a where a: "nm_accruals nm = [a]" "sa_alloc a = al" by (cases "nm_accruals nm") auto
  then have "mirrors s a" using b by (simp add: node_books_def)
  then have f: "sa_funded a = revoked_on s (nm_id nm) al" "sa_job a = j"
    using al(1) a(2) by (auto simp: mirrors_def revoked_on_def accrues_def)
  have "node_books s (R @ [al]) P nm'" if "nm_node nm' = nm_node nm" "nm_accruals nm' = []"
    "nm_sim_free nm' = res_add (nm_sim_free nm) (sa_funded a)" for nm'
    using that b calm_single [OF c accrues_on(1) [OF al(1)]]
    by (auto simp: node_books_def tally_revoke(1) [OF al(1) P] f room_unplaced [OF P])
  then show thesis using that a f by blast
qed

section \<open>The batch\<close>

definition seat_ok :: "state_machine \<Rightarrow> timestamp \<Rightarrow> allocation_id list \<Rightarrow> proposed_placement \<Rightarrow> bool" where
  "seat_ok s now R pl \<longleftrightarrow> (\<exists>jr rec. fmlookup (jobs s) (pp_job pl) = Some jr \<and>
     (jr_state jr = Queued \<or> is_reseat s (fset_of_list R) jr) \<and> fmlookup (nodes s) (pp_node pl) = Some rec \<and>
     admission_admits (admission_at s (pp_node pl)) (jr_spec jr) now (po_abort_grace (policy s)) \<noteq> AdmissionRefused \<and>
     (nd_preemptible_only (nr_node rec) \<longrightarrow> effective_preemptible (quota_entities s) (jr_spec jr)) \<and>
     fits_within (pp_requested pl) (nd_capacity (nr_node rec)))"

text \<open>On a draining node each seat fits what the seats before it left of the capacity before the batch.\<close>

definition backfills_fit :: "state_machine \<Rightarrow> proposed_placement list \<Rightarrow> bool" where
  "backfills_fit s P \<longleftrightarrow> (\<forall>i < length P. is_backfill (admission_at s (pp_node (P ! i))) \<longrightarrow>
     fits_within (pp_requested (P ! i)) (room s [] (take i P) (pp_node (P ! i))))"

definition batch_ok :: "state_machine \<Rightarrow> timestamp \<Rightarrow> allocation_id list \<Rightarrow> proposed_placement list \<Rightarrow> bool" where
  "batch_ok s now R P \<longleftrightarrow> revocable s R \<and> admissible s R P \<and> distinct (map pp_job P) \<and>
     (\<forall>pl \<in> set P. seat_ok s now R pl \<and> pp_preemptions pl = []) \<and> backfills_fit s P \<and>
     (\<forall>al j n. al \<in> set R \<longrightarrow> accrues s al j n \<longrightarrow> j \<in> pp_job ` set P)"

lemma backfills_fit_snoc:
  "backfills_fit s (P @ [pl]) \<longleftrightarrow> backfills_fit s P \<and>
     (is_backfill (admission_at s (pp_node pl)) \<longrightarrow> fits_within (pp_requested pl) (room s [] P (pp_node pl)))"
  by (auto simp: backfills_fit_def nth_append less_Suc_eq)

lemma seat_ok_mono: "seat_ok s now R pl \<Longrightarrow> seat_ok s now (R @ R') pl"
  by (auto simp: seat_ok_def is_reseat_def split: option.splits)

lemma room_local: "room s R P n = fold (\<lambda>pl free. if pp_node pl = n then res_sub free (component_min free (pp_requested pl)) else free) P (base_room s R n)"
  by (induction P rule: rev_induct) (auto simp: room_snoc)

lemma room_no_revocation:
  assumes "\<forall>al \<in> set R. \<not> accruing_on s n al" "revocable s R"
  shows "room s R P n = room s [] P n"
proof -
  have "revoked_on s n al = res_zero" if "al \<in> set R" for al
    using assms that revoked_elsewhere [of s _ al n] unfolding revocable_def by metis
  then have "base_room s R n = base_room s [] n" by (simp add: base_room_untouched)
  then show ?thesis by (simp add: room_local)
qed

lemma batch_grow:
  assumes "batch_ok s now R P" "revocable s (R @ xs)" "admissible s (R @ xs) (P @ ys)" "distinct (map pp_job (P @ ys))"
    "\<forall>pl \<in> set ys. seat_ok s now (R @ xs) pl \<and> pp_preemptions pl = []" "backfills_fit s (P @ ys)"
    "\<forall>al j n. al \<in> set xs \<longrightarrow> accrues s al j n \<longrightarrow> j \<in> pp_job ` set (P @ ys)"
  shows "batch_ok s now (R @ xs) (P @ ys)"
  unfolding batch_ok_def
proof (intro conjI allI impI)
  show "\<forall>pl \<in> set (P @ ys). seat_ok s now (R @ xs) pl \<and> pp_preemptions pl = []"
    using assms(1,5) seat_ok_mono by (auto simp: batch_ok_def)
  fix al j n assume "al \<in> set (R @ xs)" "accrues s al j n"
  then show "j \<in> pp_job ` set (P @ ys)" using assms(1,7) unfolding batch_ok_def by (simp add: image_Un) blast
qed (use assms in simp_all)

section \<open>The invariant\<close>

definition snapshot_ok :: "state_machine \<Rightarrow> bool" where
  "snapshot_ok s \<longleftrightarrow> calm s \<and> (\<forall>n al. accruing_on s n al \<longrightarrow> \<not> is_backfill (admission_at s n)) \<and>
     (\<forall>al r rec. fmlookup (allocations s) al = Some r \<longrightarrow> kstate r = Accruing \<longrightarrow> fmlookup (nodes s) (knode r) = Some rec \<longrightarrow>
        fits_within (krequested r) (nd_capacity (nr_node rec)))"

definition model_ok :: "state_machine \<Rightarrow> timestamp \<Rightarrow> 'f pass \<Rightarrow> bool" where
  "model_ok s now p \<longleftrightarrow> pa_snapshot p = s \<and> pa_now p = now \<and> pa_base_free p = free_capacity_map s \<and> pa_preempting_left p = 0 \<and>
     distinct (map nm_id (pa_nodes p)) \<and>
     (\<forall>n i. fmlookup (pa_node_index p) n = Some i \<longleftrightarrow> i < length (pa_nodes p) \<and> nm_id (pa_nodes p ! i) = n) \<and>
     (\<forall>nm \<in> set (pa_nodes p). nm_admission nm = admission_at s (nm_id nm) \<and>
        (\<exists>rec. fmlookup (nodes s) (nm_id nm) = Some rec \<and> nr_node rec = nm_node nm)) \<and>
     (\<forall>n al. accruing_on s n al \<longrightarrow> n \<in> nm_id ` set (pa_nodes p))"

abbreviation jobs_placed :: "'f pass \<Rightarrow> job_id set" where
  "jobs_placed p \<equiv> pp_job ` set (pa_placements p)"

definition pass_ok :: "state_machine \<Rightarrow> timestamp \<Rightarrow> 'f pass \<Rightarrow> bool" where
  "pass_ok s now p \<longleftrightarrow> model_ok s now p \<and> batch_ok s now (pa_revocations p) (pa_placements p) \<and>
     (\<forall>nm \<in> set (pa_nodes p). node_books s (pa_revocations p) (pa_placements p) nm) \<and>
     (\<forall>pl \<in> set (pa_placements p). pp_node pl |\<in>| pa_placed_nodes p)"

lemma snapshot_okD:
  assumes "snapshot_ok s"
  shows snapshot_calm: "calm s" and snapshot_backfill: "accruing_on s n al \<Longrightarrow> \<not> is_backfill (admission_at s n)"
    and snapshot_fits: "fmlookup (allocations s) al = Some r \<Longrightarrow> kstate r = Accruing \<Longrightarrow> fmlookup (nodes s) (knode r) = Some rec \<Longrightarrow>
        fits_within (krequested r) (nd_capacity (nr_node rec))"
  using assms unfolding snapshot_ok_def by blast+

lemma batch_okD:
  assumes "batch_ok s now R P"
  shows batch_revocable: "revocable s R" and batch_admissible: "admissible s R P" and batch_distinct: "distinct (map pp_job P)"
    and batch_seat: "pl \<in> set P \<Longrightarrow> seat_ok s now R pl" and batch_plain: "pl \<in> set P \<Longrightarrow> pp_preemptions pl = []"
    and batch_backfills: "backfills_fit s P" and batch_paired: "al \<in> set R \<Longrightarrow> accrues s al j n \<Longrightarrow> j \<in> pp_job ` set P"
  using assms unfolding batch_ok_def by blast+

lemma pass_okD:
  assumes "pass_ok s now p"
  shows pass_model: "model_ok s now p" and pass_batch: "batch_ok s now (pa_revocations p) (pa_placements p)"
    and pass_books: "nm \<in> set (pa_nodes p) \<Longrightarrow> node_books s (pa_revocations p) (pa_placements p) nm"
    and pass_placed: "pl \<in> set (pa_placements p) \<Longrightarrow> pp_node pl |\<in>| pa_placed_nodes p"
  using assms by (simp_all add: pass_ok_def)

lemma model_okD:
  assumes "model_ok s now p"
  shows model_snapshot: "pa_snapshot p = s" and model_now: "pa_now p = now" and model_free: "pa_base_free p = free_capacity_map s"
    and model_calm: "pa_preempting_left p = 0" and model_distinct: "distinct (map nm_id (pa_nodes p))"
    and model_index: "fmlookup (pa_node_index p) n = Some i \<longleftrightarrow> i < length (pa_nodes p) \<and> nm_id (pa_nodes p ! i) = n"
    and model_admission: "nm \<in> set (pa_nodes p) \<Longrightarrow> nm_admission nm = admission_at s (nm_id nm)"
    and model_record: "nm \<in> set (pa_nodes p) \<Longrightarrow> \<exists>rec. fmlookup (nodes s) (nm_id nm) = Some rec \<and> nr_node rec = nm_node nm"
    and model_hosts: "accruing_on s n al \<Longrightarrow> n \<in> nm_id ` set (pa_nodes p)"
  using assms unfolding model_ok_def by blast+

lemma update_all:
  assumes "distinct (map nm_id N)" "i < length N" "B y" "\<And>nm. nm \<in> set N \<Longrightarrow> nm_id nm \<noteq> nm_id (N ! i) \<Longrightarrow> B nm"
  shows "\<forall>nm \<in> set (N[i := y]). B nm"
proof
  fix nm assume "nm \<in> set (N[i := y])"
  then obtain k where k: "k < length N" "nm = (if k = i then y else N ! k)" by (auto simp: in_set_conv_nth nth_list_update)
  then show "B nm" using assms nth_eq_iff_index_eq [OF assms(1), of k i] by (cases "k = i") auto
qed

text \<open>A change of one node that keeps what the node is.\<close>

lemma model_update:
  assumes m: "model_ok s now p" and i: "i < length (pa_nodes p)"
    and y: "nm_node y = nm_node (pa_nodes p ! i)" "nm_admission y = nm_admission (pa_nodes p ! i)"
    and p': "pa_snapshot p' = pa_snapshot p" "pa_now p' = pa_now p" "pa_base_free p' = pa_base_free p"
      "pa_preempting_left p' = pa_preempting_left p" "pa_node_index p' = pa_node_index p" "pa_nodes p' = (pa_nodes p)[i := y]"
  shows "model_ok s now p'"
proof -
  have ids: "map nm_id (pa_nodes p') = map nm_id (pa_nodes p)"
    using i y(1) by (simp add: p'(6) map_update list_update_same_conv)
  have nth: "nm_id (pa_nodes p' ! k) = nm_id (pa_nodes p ! k)" if "k < length (pa_nodes p)" for k
    using arg_cong [OF ids, of "\<lambda>xs. xs ! k"] that p'(6) by simp
  have "\<forall>nm \<in> set (pa_nodes p'). nm_admission nm = admission_at s (nm_id nm) \<and>
        (\<exists>rec. fmlookup (nodes s) (nm_id nm) = Some rec \<and> nr_node rec = nm_node nm)"
    unfolding p'(6)
  proof (rule update_all [OF model_distinct [OF m] i])
    have "pa_nodes p ! i \<in> set (pa_nodes p)" using i by simp
    then show "nm_admission y = admission_at s (nm_id y) \<and> (\<exists>rec. fmlookup (nodes s) (nm_id y) = Some rec \<and> nr_node rec = nm_node y)"
      using y model_admission [OF m] model_record [OF m] by simp
  qed (use model_admission [OF m] model_record [OF m] in blast)
  moreover have "\<forall>n k. fmlookup (pa_node_index p') n = Some k \<longleftrightarrow> k < length (pa_nodes p') \<and> nm_id (pa_nodes p' ! k) = n"
    using model_index [OF m] nth p'(5,6) by auto
  moreover have "nm_id ` set (pa_nodes p') = nm_id ` set (pa_nodes p)" using ids by (metis list.set_map)
  ultimately show ?thesis
    using m ids p'(1-4) by (simp add: model_ok_def)
qed

section \<open>A funded seat\<close>

lemma seated:
  assumes ok: "snapshot_ok s" "pass_ok s now p" and i: "i < length (pa_nodes p)"
    and jr: "fmlookup (jobs s) j = Some jr" "jr_state jr = Queued \<or> is_reseat s (fset_of_list R) jr"
    and nm: "spot_admits (pa_nodes p ! i) (effective_preemptible (quota_entities s) (jr_spec jr))" "capable requested required (pa_nodes p ! i)"
    and adm: "admission_admits (nm_admission (pa_nodes p ! i)) (jr_spec jr) now (po_abort_grace (policy s)) \<noteq> AdmissionRefused"
  shows "seat_ok s now R \<lparr>pp_job = j, pp_node = nm_id (pa_nodes p ! i), pp_requested = requested, pp_expect_funded = b, pp_preemptions = []\<rparr>"
proof -
  have mem: "pa_nodes p ! i \<in> set (pa_nodes p)" using i by simp
  note m = pass_model [OF ok(2)]
  obtain rec where "fmlookup (nodes s) (nm_id (pa_nodes p ! i)) = Some rec" "nr_node rec = nm_node (pa_nodes p ! i)"
    using model_record [OF m mem] by blast
  then show ?thesis using jr nm adm model_admission [OF m mem] by (auto simp: seat_ok_def spot_admits_def capable_def)
qed

text \<open>A step that adds one seat to the batch and takes its capacity from the node.\<close>

lemma pass_seat:
  assumes ok: "pass_ok s now p" and i: "i < length (pa_nodes p)"
    and y: "nm_node y = nm_node (pa_nodes p ! i)" "nm_admission y = nm_admission (pa_nodes p ! i)"
      "nm_accruals y = nm_accruals (pa_nodes p ! i)"
      "nm_sim_free y = res_sub (nm_sim_free (pa_nodes p ! i)) (component_min (nm_sim_free (pa_nodes p ! i)) (pp_requested pl))"
    and pl: "pp_node pl = nm_id (pa_nodes p ! i)" and b: "batch_ok s now (pa_revocations p) (pa_placements p @ [pl])"
    and p': "pa_snapshot p' = pa_snapshot p" "pa_now p' = pa_now p" "pa_base_free p' = pa_base_free p"
      "pa_preempting_left p' = pa_preempting_left p" "pa_node_index p' = pa_node_index p" "pa_nodes p' = (pa_nodes p)[i := y]"
      "pa_revocations p' = pa_revocations p" "pa_placements p' = pa_placements p @ [pl]"
      "pa_placed_nodes p' = finsert (pp_node pl) (pa_placed_nodes p)"
  shows "pass_ok s now p'"
proof -
  have mem: "pa_nodes p ! i \<in> set (pa_nodes p)" using i by simp
  note m = pass_model [OF ok] and bk = pass_books [OF ok]
  have "\<forall>nm \<in> set (pa_nodes p'). node_books s (pa_revocations p) (pa_placements p @ [pl]) nm"
    unfolding p'(6)
  proof (rule update_all [OF model_distinct [OF m] i])
    show "node_books s (pa_revocations p) (pa_placements p @ [pl]) y"
      by (rule node_books_seat [OF bk [OF mem] pl y(1,3,4)])
  qed (simp add: bk node_books_elsewhere pl)
  moreover have "model_ok s now p'" by (rule model_update [OF m i y(1,2) p'(1-6)])
  ultimately show ?thesis using pass_placed [OF ok] b by (auto simp: pass_ok_def p'(7-9))
qed

lemma seat_funded_ok:
  assumes ok: "snapshot_ok s" "pass_ok s now p" and i: "i < length (pa_nodes p)"
    and jr: "fmlookup (jobs s) j = Some jr" "jr_state jr = Queued" "j \<notin> jobs_placed p"
    and nm: "spot_admits (pa_nodes p ! i) (effective_preemptible (quota_entities s) (jr_spec jr))" "capable requested required (pa_nodes p ! i)"
    and adm: "admission_admits (nm_admission (pa_nodes p ! i)) (jr_spec jr) now (po_abort_grace (policy s)) \<noteq> AdmissionRefused"
    and fit: "fits_within requested (nm_sim_free (pa_nodes p ! i))"
    and f: "nm_node (f (pa_nodes p ! i)) = nm_node (pa_nodes p ! i)" "nm_admission (f (pa_nodes p ! i)) = nm_admission (pa_nodes p ! i)"
      "nm_accruals (f (pa_nodes p ! i)) = nm_accruals (pa_nodes p ! i)"
      "nm_sim_free (f (pa_nodes p ! i)) = res_sub (nm_sim_free (pa_nodes p ! i)) (component_min (nm_sim_free (pa_nodes p ! i)) requested)"
  shows "pass_ok s now (seat_funded j requested i f p)"
proof -
  let ?nm = "pa_nodes p ! i" and ?R = "pa_revocations p" and ?P = "pa_placements p"
  let ?pl = "\<lparr>pp_job = j, pp_node = nm_id ?nm, pp_requested = requested, pp_expect_funded = True, pp_preemptions = []\<rparr>"
  have mem: "?nm \<in> set (pa_nodes p)" using i by simp
  note m = pass_model [OF ok(2)] and b = pass_batch [OF ok(2)] and bk = pass_books [OF ok(2)]
  have fits: "fits_within requested (room s ?R ?P (nm_id ?nm))" using bk [OF mem] fit by (simp add: node_books_def)
  have bf: "fits_within requested (room s [] ?P (nm_id ?nm))" if "is_backfill (admission_at s (nm_id ?nm))"
    using fits room_no_revocation [OF _ batch_revocable [OF b], of "nm_id ?nm" ?P] snapshot_backfill [OF ok(1)] that by fastforce
  have "batch_ok s now (?R @ []) (?P @ [?pl])"
    using b jr(3) fits bf seated [OF ok i jr(1) disjI1 [OF jr(2)] nm adm]
    by (intro batch_grow) (auto simp: batch_ok_def admissible_funded backfills_fit_snoc)
  then have "batch_ok s now ?R (?P @ [?pl])" by simp
  then show ?thesis
    by (rule pass_seat [OF ok(2) i f(1,2,3), rotated 2])
      (simp_all add: f seat_funded_def update_node_def Let_def push_placement_def)
qed

lemma seat_funded_jobs: "jobs_placed (seat_funded j requested i f p) = insert j (jobs_placed p)"
  by (simp add: seat_funded_def update_node_def push_placement_def Let_def)

lemma free_fit_ok:
  assumes ok: "snapshot_ok s" "pass_ok s now p"
    and jr: "fmlookup (jobs s) j = Some jr" "jr_state jr = Queued" "j \<notin> jobs_placed p"
    and run: "try_free_fit F j (jr_spec jr) (effective_preemptible (quota_entities s) (jr_spec jr)) requested required p = (p', b)"
  shows "pass_ok s now p' \<and> jobs_placed p' \<subseteq> insert j (jobs_placed p) \<and> (\<not> b \<longrightarrow> p' = p)"
proof (cases b)
  case True
  then obtain i where p': "p' = seat_funded j requested i (take_free requested) p"
    and best: "best_node F (effective_preemptible (quota_entities s) (jr_spec jr)) (pa_nodes p)
      (\<lambda>nm. model_admits nm (effective_preemptible (quota_entities s) (jr_spec jr)) \<and> capable requested required nm \<and>
        fits_within requested (nm_sim_free nm)) (fit_key F (jr_spec jr) requested) = Some i"
    using run by (auto simp: try_free_fit_def split: option.splits)
  have i: "i < length (pa_nodes p)" "model_admits (pa_nodes p ! i) (effective_preemptible (quota_entities s) (jr_spec jr))"
    "capable requested required (pa_nodes p ! i)" "fits_within requested (nm_sim_free (pa_nodes p ! i))"
    using best_node_sound [OF best] by simp_all
  have "pass_ok s now p'"
    unfolding p'
    by (rule seat_funded_ok [OF ok i(1) jr _ i(3) _ i(4)])
      (use i(2) in \<open>simp_all add: model_admits_def admission_admits_def take_free_def\<close>)
  then show ?thesis using True by (simp add: p' seat_funded_jobs)
next
  case False
  then show ?thesis using run ok(2) by (auto simp: try_free_fit_def split: option.splits)
qed

lemma drain_backfill_ok:
  assumes ok: "snapshot_ok s" "pass_ok s now p"
    and jr: "fmlookup (jobs s) j = Some jr" "jr_state jr = Queued" "j \<notin> jobs_placed p"
    and run: "try_drain_backfill F j (jr_spec jr) (effective_preemptible (quota_entities s) (jr_spec jr)) requested required p = (p', b)"
  shows "pass_ok s now p' \<and> jobs_placed p' \<subseteq> insert j (jobs_placed p) \<and> (\<not> b \<longrightarrow> p' = p)"
proof (cases b)
  case True
  note m = pass_model [OF ok(2)]
  let ?f = "\<lambda>nm. nm\<lparr>nm_sim_free := res_sub (nm_sim_free nm) requested\<rparr>"
  let ?ok = "\<lambda>nm. is_backfill (nm_admission nm) \<and>
    (case admission_admits (nm_admission nm) (jr_spec jr) now (po_abort_grace (policy s)) of
       AdmissionBackfill _ \<Rightarrow> True | _ \<Rightarrow> False) \<and>
    spot_admits nm (effective_preemptible (quota_entities s) (jr_spec jr)) \<and> capable requested required nm \<and>
    fits_within requested (nm_sim_free nm)"
  obtain i where p': "p' = seat_funded j requested i ?f p"
    and best: "best_node F (effective_preemptible (quota_entities s) (jr_spec jr)) (pa_nodes p) ?ok (fit_key F (jr_spec jr) requested) = Some i"
    using True run model_snapshot [OF m] model_now [OF m] by (auto simp: try_drain_backfill_def split: option.splits if_splits)
  have i: "i < length (pa_nodes p)" "?ok (pa_nodes p ! i)" using best_node_sound [OF best] by simp_all
  have "pass_ok s now p'"
    unfolding p'
  proof (rule seat_funded_ok [OF ok i(1) jr])
    have "component_min (nm_sim_free (pa_nodes p ! i)) requested = requested" using i(2) by (simp add: component_min_fits)
    then show "nm_sim_free (?f (pa_nodes p ! i)) = res_sub (nm_sim_free (pa_nodes p ! i)) (component_min (nm_sim_free (pa_nodes p ! i)) requested)"
      by simp
  qed (use i(2) in \<open>auto split: admission.splits\<close>)
  then show ?thesis using True by (simp add: p' seat_funded_jobs)
next
  case False
  then show ?thesis using run ok(2) by (auto simp: try_drain_backfill_def split: option.splits if_splits)
qed

section \<open>Opening an accrual\<close>

text \<open>A batch that the simulator lets pass.\<close>

lemma simulated_ok:
  assumes "snapshot_ok s" "model_ok s now p" "revocable s R" "\<not> sim_rejected (simulate_pass p R P)"
  shows "admissible s R P"
  using calm_verdict [OF snapshot_calm [OF assms(1)] assms(3), of P] assms(2,4)
  by (simp add: simulate_pass_def model_snapshot model_free)

lemma open_node: "model_admits nm preemptible \<Longrightarrow> admission_admits (nm_admission nm) spec now grace = AdmissionOpen"
  by (simp add: model_admits_def admission_admits_def)

lemma open_accrual_ok:
  assumes ok: "snapshot_ok s" "pass_ok s now p" and i: "i < length (pa_nodes p)"
    and jr: "fmlookup (jobs s) j = Some jr" "jr_state jr = Queued" "j \<notin> jobs_placed p"
    and nm: "model_admits (pa_nodes p ! i) (effective_preemptible (quota_entities s) (jr_spec jr))" "capable requested required (pa_nodes p ! i)"
  shows "pass_ok s now (fst (open_accrual_on j i requested p)) \<and> jobs_placed (fst (open_accrual_on j i requested p)) \<subseteq> insert j (jobs_placed p)"
proof (cases "sim_rejected (simulate_pass p (pa_revocations p) (push_placement j i requested False [] p))")
  case True
  then show ?thesis using ok(2) by (auto simp: open_accrual_on_def)
next
  case False
  let ?nm = "pa_nodes p ! i" and ?R = "pa_revocations p" and ?P = "pa_placements p" and ?p' = "fst (open_accrual_on j i requested p)"
  let ?pl = "\<lparr>pp_job = j, pp_node = nm_id ?nm, pp_requested = requested, pp_expect_funded = False, pp_preemptions = []\<rparr>"
  have mem: "?nm \<in> set (pa_nodes p)" using i by simp
  note m = pass_model [OF ok(2)] and b = pass_batch [OF ok(2)] and bk = pass_books [OF ok(2)]
  have "admissible s ?R (?P @ [?pl])"
    using simulated_ok [OF ok(1) m batch_revocable [OF b]] False by (simp add: push_placement_def)
  moreover have "\<not> is_backfill (admission_at s (nm_id ?nm))"
    using nm(1) model_admission [OF m mem] by (simp add: model_admits_def is_backfill_def)
  ultimately have "batch_ok s now (?R @ []) (?P @ [?pl])"
    using b jr(3) seated [OF ok i jr(1) disjI1 [OF jr(2)] _ nm(2)] nm(1) open_node [OF nm(1)]
    by (intro batch_grow) (auto simp: batch_ok_def backfills_fit_snoc model_admits_def)
  then have "batch_ok s now ?R (?P @ [?pl])" by simp
  then have "pass_ok s now ?p'"
    by (rule pass_seat [OF ok(2) i, where y = "take_free requested
        (?nm\<lparr>nm_pending_accruals := nm_pending_accruals ?nm @ [res_sub requested (component_min (nm_sim_free ?nm) requested)]\<rparr>)", rotated 5])
      (use False in \<open>simp_all add: open_accrual_on_def Let_def update_node_def push_placement_def take_free_def\<close>)
  then show ?thesis using False by (auto simp: open_accrual_on_def Let_def update_node_def push_placement_def)
qed

section \<open>Revoking and reseating\<close>

text \<open>
  A step that revokes the accrual of one node and, on another, takes the capacity of the seat that pays
  for it.
\<close>

lemma pass_move:
  assumes ok: "snapshot_ok s" "pass_ok s now p" and i: "i < length (pa_nodes p)" "k < length (pa_nodes p)" "i \<noteq> k"
    and al: "accrues s al j (nm_id (pa_nodes p ! k))" "al \<notin> set (pa_revocations p)"
    and unplaced: "\<forall>pl \<in> set (pa_placements p). pp_node pl \<noteq> nm_id (pa_nodes p ! k)"
    and y: "nm_node y = nm_node (pa_nodes p ! i)" "nm_admission y = nm_admission (pa_nodes p ! i)"
      "nm_accruals y = nm_accruals (pa_nodes p ! i)"
      "nm_sim_free y = res_sub (nm_sim_free (pa_nodes p ! i)) (component_min (nm_sim_free (pa_nodes p ! i)) (pp_requested pl))"
    and z: "nm_node z = nm_node (pa_nodes p ! k)" "nm_admission z = nm_admission (pa_nodes p ! k)" "nm_accruals z = []"
      "nm_sim_free z = res_add (nm_sim_free (pa_nodes p ! k)) (revoked_on s (nm_id (pa_nodes p ! k)) al)"
    and pl: "pp_node pl = nm_id (pa_nodes p ! i)" and b: "batch_ok s now (pa_revocations p @ [al]) (pa_placements p @ [pl])"
    and p': "pa_snapshot p' = pa_snapshot p" "pa_now p' = pa_now p" "pa_base_free p' = pa_base_free p"
      "pa_preempting_left p' = pa_preempting_left p" "pa_node_index p' = pa_node_index p" "pa_nodes p' = (pa_nodes p)[k := z, i := y]"
      "pa_revocations p' = pa_revocations p @ [al]" "pa_placements p' = pa_placements p @ [pl]"
      "pa_placed_nodes p' = finsert (pp_node pl) (pa_placed_nodes p)"
  shows "pass_ok s now p'"
proof -
  let ?N = "pa_nodes p" and ?R = "pa_revocations p" and ?P = "pa_placements p"
  note m = pass_model [OF ok(2)] and bk = pass_books [OF ok(2)]
  have mem: "?N ! i \<in> set ?N" "?N ! k \<in> set ?N" using i by simp_all
  have ne: "nm_id (?N ! i) \<noteq> nm_id (?N ! k)" using nth_eq_iff_index_eq [OF model_distinct [OF m], of i k] i by simp
  have m1: "model_ok s now (p\<lparr>pa_nodes := ?N[k := z]\<rparr>)" by (rule model_update [OF m i(2) z(1,2)]) simp_all
  have books: "\<forall>nm \<in> set (?N[k := z]). node_books s (?R @ [al]) ?P nm"
  proof (rule update_all [OF model_distinct [OF m] i(2)])
    show "node_books s (?R @ [al]) ?P z"
      using node_books_revoke [OF snapshot_calm [OF ok(1)] bk [OF mem(2)] al unplaced] z by metis
  qed (use node_books_kept [OF bk al(1) unplaced] in auto)
  then have yi: "node_books s (?R @ [al]) ?P (?N ! i)" using i by (metis nth_list_update_neq nth_mem length_list_update)
  have "\<forall>nm \<in> set (?N[k := z, i := y]). node_books s (?R @ [al]) (?P @ [pl]) nm"
  proof (rule update_all)
    show "distinct (map nm_id (?N[k := z]))" using model_distinct [OF m1] by simp
    show "i < length (?N[k := z])" using i by simp
    show "node_books s (?R @ [al]) (?P @ [pl]) y" by (rule node_books_seat [OF yi pl y(1,3,4)])
    fix nm assume "nm \<in> set (?N[k := z])" "nm_id nm \<noteq> nm_id (?N[k := z] ! i)"
    then show "node_books s (?R @ [al]) (?P @ [pl]) nm" using books pl i by (intro node_books_elsewhere) auto
  qed
  moreover have "model_ok s now p'"
    by (rule model_update [OF m1, of i y]) (use i y p' in simp_all)
  ultimately show ?thesis using pass_placed [OF ok(2)] b by (auto simp: pass_ok_def p'(6-9))
qed

lemma revoke_on_source:
  assumes ok: "snapshot_ok s" "pass_ok s now p" and k: "k < length (pa_nodes p)"
    and al: "accrues s al j (nm_id (pa_nodes p ! k))" "al \<notin> set (pa_revocations p)"
    and unplaced: "\<forall>pl \<in> set (pa_placements p). pp_node pl \<noteq> nm_id (pa_nodes p ! k)"
  shows "revoke_accrual_on_source (nm_id (pa_nodes p ! k)) al p =
    update_node k (\<lambda>nm. nm\<lparr>nm_sim_free := res_add (nm_sim_free nm) (revoked_on s (nm_id nm) al), nm_accruals := []\<rparr>) p"
proof -
  have mem: "pa_nodes p ! k \<in> set (pa_nodes p)" using k by simp
  obtain a where "nm_accruals (pa_nodes p ! k) = [a]" "sa_alloc a = al" "sa_funded a = revoked_on s (nm_id (pa_nodes p ! k)) al"
    by (rule node_books_revoke [OF snapshot_calm [OF ok(1)] pass_books [OF ok(2) mem] al unplaced])
  moreover have "fmlookup (pa_node_index p) (nm_id (pa_nodes p ! k)) = Some k"
    using model_index [OF pass_model [OF ok(2)]] k by simp
  ultimately show ?thesis by (simp add: revoke_accrual_on_source_def update_node_def)
qed

text \<open>What an entry of the accrual queue says of the job that a replan may move.\<close>

definition movable :: "state_machine \<Rightarrow> 'f pass \<Rightarrow> job_id \<Rightarrow> job_record \<Rightarrow> allocation_id \<Rightarrow> node_id \<Rightarrow> bool" where
  "movable s p j jr al source \<longleftrightarrow> accrues s al j source \<and> fmlookup (jobs s) j = Some jr \<and>
     is_reseat s {|al|} jr \<and> j \<notin> jobs_placed p \<and> source |\<notin>| pa_placed_nodes p"

lemma movableD:
  assumes "movable s p j jr al source" "pass_ok s now p"
  shows "accrues s al j source" "fmlookup (jobs s) j = Some jr" "j \<notin> jobs_placed p" "al \<notin> set (pa_revocations p)"
    "is_reseat s (fset_of_list (R @ [al])) jr" "\<forall>pl \<in> set (pa_placements p). pp_node pl \<noteq> source \<and> pp_job pl \<noteq> j"
    "\<exists>k < length (pa_nodes p). source = nm_id (pa_nodes p ! k)"
proof -
  show *: "accrues s al j source" "fmlookup (jobs s) j = Some jr" "j \<notin> jobs_placed p"
    using assms(1) by (simp_all add: movable_def)
  show "al \<notin> set (pa_revocations p)" using batch_paired [OF pass_batch [OF assms(2)] _ *(1)] *(3) by blast
  show "is_reseat s (fset_of_list (R @ [al])) jr"
    using assms(1) by (auto simp: movable_def is_reseat_def split: option.splits)
  show "\<forall>pl \<in> set (pa_placements p). pp_node pl \<noteq> source \<and> pp_job pl \<noteq> j"
    using assms(1) pass_placed [OF assms(2)] by (auto simp: movable_def)
  show "\<exists>k < length (pa_nodes p). source = nm_id (pa_nodes p ! k)"
    using model_hosts [OF pass_model [OF assms(2)] accrues_on(1) [OF *(1)]] by (auto simp: in_set_conv_nth)
qed

lemma revocable_snoc: "revocable s R \<Longrightarrow> accrues s al j n \<Longrightarrow> al \<notin> set R \<Longrightarrow> revocable s (R @ [al])"
  by (auto simp: revocable_def dest: accrues_on(1))

text \<open>The batch of a move: the seat of the moved job goes to an open node that the simulator or a fit allows.\<close>

lemma move_batch:
  assumes ok: "snapshot_ok s" "pass_ok s now p" and mv: "movable s p j jr al source" and i: "i < length (pa_nodes p)"
    and nm: "model_admits (pa_nodes p ! i) (effective_preemptible (quota_entities s) (jr_spec jr))" "capable requested required (pa_nodes p ! i)"
    and pl: "pl = \<lparr>pp_job = j, pp_node = nm_id (pa_nodes p ! i), pp_requested = requested, pp_expect_funded = b, pp_preemptions = []\<rparr>"
    and adm: "admissible s (pa_revocations p @ [al]) (pa_placements p @ [pl])"
  shows "batch_ok s now (pa_revocations p @ [al]) (pa_placements p @ [pl])"
proof (rule batch_grow [OF pass_batch [OF ok(2)] _ adm])
  note b = pass_batch [OF ok(2)] and d = movableD [OF mv ok(2)]
  show "revocable s (pa_revocations p @ [al])" by (rule revocable_snoc [OF batch_revocable [OF b] d(1,4)])
  show "distinct (map pp_job (pa_placements p @ [pl]))" using batch_distinct [OF b] d(3) by (auto simp: pl)
  show "\<forall>pl' \<in> set [pl]. seat_ok s now (pa_revocations p @ [al]) pl' \<and> pp_preemptions pl' = []"
    using seated [OF ok i d(2) disjI2 [OF d(5)] _ nm(2)] nm(1) open_node [OF nm(1)] by (auto simp: pl model_admits_def)
  have "pa_nodes p ! i \<in> set (pa_nodes p)" using i by simp
  then have "\<not> is_backfill (admission_at s (pp_node pl))"
    using nm(1) model_admission [OF pass_model [OF ok(2)], of "pa_nodes p ! i"] by (simp add: pl model_admits_def is_backfill_def)
  then show "backfills_fit s (pa_placements p @ [pl])" using batch_backfills [OF b] by (simp add: backfills_fit_snoc)
  show "\<forall>al' j' n. al' \<in> set [al] \<longrightarrow> accrues s al' j' n \<longrightarrow> j' \<in> pp_job ` set (pa_placements p @ [pl])"
    using accrues_fun [OF d(1)] by (auto simp: pl)
qed

lemma reseat_ok:
  assumes ok: "snapshot_ok s" "pass_ok s now p" and mv: "movable s p j jr al source" and i: "i < length (pa_nodes p)"
    and nm: "model_admits (pa_nodes p ! i) (effective_preemptible (quota_entities s) (jr_spec jr))" "capable requested required (pa_nodes p ! i)"
    and fit: "fits_within requested (nm_sim_free (pa_nodes p ! i))" and ne: "nm_id (pa_nodes p ! i) \<noteq> source"
  shows "pass_ok s now (reseat_accrual j al source requested i p)"
proof -
  let ?R = "pa_revocations p" and ?P = "pa_placements p" and ?N = "pa_nodes p"
  let ?pl = "\<lparr>pp_job = j, pp_node = nm_id (?N ! i), pp_requested = requested, pp_expect_funded = True, pp_preemptions = []\<rparr>"
  note b = pass_batch [OF ok(2)] and d = movableD [OF mv ok(2)]
  obtain k where k: "k < length ?N" "source = nm_id (?N ! k)" using d(7) by blast
  let ?z = "(?N ! k)\<lparr>nm_sim_free := res_add (nm_sim_free (?N ! k)) (revoked_on s source al), nm_accruals := []\<rparr>"
  have unplaced: "\<forall>pl \<in> set ?P. pp_node pl \<noteq> nm_id (?N ! k)" using d(6) k by blast
  have "admissible s (?R @ [al]) ?P"
    by (rule admissible_revoke [OF snapshot_calm [OF ok(1)] d(1,4,6) batch_admissible [OF b]])
  moreover have "fits_within requested (room s (?R @ [al]) ?P (nm_id (?N ! i)))"
    using tally_revoke(1) [OF d(1), of ?P ?R] d(6) ne fit pass_books [OF ok(2), of "?N ! i"] i by (simp add: node_books_def)
  ultimately have "admissible s (?R @ [al]) (?P @ [?pl])" by (simp add: admissible_funded)
  then have "batch_ok s now (?R @ [al]) (?P @ [?pl])" by (rule move_batch [OF ok mv i nm refl])
  moreover have "revoke_accrual_on_source source al p = p\<lparr>pa_nodes := ?N[k := ?z]\<rparr>"
    using revoke_on_source [OF ok k(1) d(1,4) [unfolded k(2)] unplaced] by (simp add: k(2) update_node_def)
  moreover have "i \<noteq> k" using ne k by blast
  ultimately show ?thesis
    using i k unplaced d(1,4)
    by (intro pass_move [OF ok i k(1), where y = "take_free requested (?N ! i)" and z = ?z and al = al and j = j and pl = ?pl])
      (simp_all add: reseat_accrual_def update_node_def push_placement_def take_free_def Let_def)
qed

lemma improve_ok:
  assumes ok: "snapshot_ok s" "pass_ok s now p" and mv: "movable s p j jr al source" and i: "i < length (pa_nodes p)"
    and nm: "model_admits (pa_nodes p ! i) (effective_preemptible (quota_entities s) (jr_spec jr))" "capable requested required (pa_nodes p ! i)"
    and ne: "nm_id (pa_nodes p ! i) \<noteq> source"
  shows "pass_ok s now (fst (try_improve_accrual_bound j al source i requested p))"
proof -
  let ?R = "pa_revocations p" and ?P = "pa_placements p" and ?N = "pa_nodes p"
  let ?pl = "\<lparr>pp_job = j, pp_node = nm_id (?N ! i), pp_requested = requested, pp_expect_funded = False, pp_preemptions = []\<rparr>"
  note b = pass_batch [OF ok(2)] and d = movableD [OF mv ok(2)]
  show ?thesis
  proof (cases "sim_rejected (simulate_pass p (?R @ [al]) (?P @ [?pl]))")
    case True
    then show ?thesis using ok(2) by (simp add: try_improve_accrual_bound_def push_placement_def Let_def)
  next
    case False
    obtain k where k: "k < length ?N" "source = nm_id (?N ! k)" using d(7) by blast
    let ?z = "(?N ! k)\<lparr>nm_sim_free := res_add (nm_sim_free (?N ! k)) (revoked_on s source al), nm_accruals := []\<rparr>"
    have unplaced: "\<forall>pl \<in> set ?P. pp_node pl \<noteq> nm_id (?N ! k)" using d(6) k by blast
    have "admissible s (?R @ [al]) (?P @ [?pl])"
      by (rule simulated_ok [OF ok(1) pass_model [OF ok(2)] revocable_snoc [OF batch_revocable [OF b] d(1,4)] False])
    then have "batch_ok s now (?R @ [al]) (?P @ [?pl])" by (rule move_batch [OF ok mv i nm refl])
    moreover have "revoke_accrual_on_source source al p = p\<lparr>pa_nodes := ?N[k := ?z]\<rparr>"
      using revoke_on_source [OF ok k(1) d(1,4) [unfolded k(2)] unplaced] by (simp add: k(2) update_node_def)
    moreover have "i \<noteq> k" using ne k by blast
    ultimately show ?thesis
      using i k unplaced d(1,4) False
      by (intro pass_move [OF ok i k(1), where y = "take_free requested (add_pending requested (?N ! i))" and z = ?z and al = al and j = j and pl = ?pl])
        (simp_all add: try_improve_accrual_bound_def update_node_def push_placement_def take_free_def add_pending_def Let_def)
  qed
qed

end
