(* ===== verification/Pass_Loop.thy ===== *)
theory Pass_Loop
  imports Pass_Inv
begin

text \<open>
  The loops of a pass keep its invariant: the re-planning of accruals, the seating of candidates with
  its lends, and the start. What comes out is that the batch of every pass is one that apply accepts.
\<close>

section \<open>Re-planning\<close>

lemma revoke_jobs [simp]: "jobs_placed (revoke_accrual_on_source source al p) = jobs_placed p"
  by (auto simp: revoke_accrual_on_source_def update_node_def split: option.split prod.split)

lemma reseat_jobs: "jobs_placed (reseat_accrual j al source requested i p) = insert j (jobs_placed p)"
proof -
  have "pa_placements (revoke_accrual_on_source source al p) = pa_placements p"
    by (auto simp: revoke_accrual_on_source_def update_node_def split: option.split prod.split)
  then show ?thesis by (simp add: reseat_accrual_def update_node_def push_placement_def Let_def)
qed

lemma improve_jobs: "jobs_placed (fst (try_improve_accrual_bound j al source i requested p)) \<subseteq> insert j (jobs_placed p)"
  by (auto simp: try_improve_accrual_bound_def update_node_def push_placement_def Let_def)

lemma improvement_ready_admits:
  assumes "improvement_ready p source preemptible requested required current nm = Some t"
  shows "nm_id nm \<noteq> source" "model_admits nm preemptible" "capable requested required nm"
  using assms by (auto simp: improvement_ready_def split: if_splits)

lemma improve_accrual_cases:
  assumes "pa_preempting_left p = 0" "pa_snapshot p = s"
  shows "fst (improve_accrual F j jr al source (p, scans)) = p \<or>
    (\<exists>i t current. best_improvement_target F p source (effective_preemptible (quota_entities s) (jr_spec jr)) (j_requests (jr_spec jr))
        (required_labels (jr_spec jr)) current = Some (i, t) \<and>
      fst (improve_accrual F j jr al source (p, scans)) = fst (try_improve_accrual_bound j al source i (j_requests (jr_spec jr)) p))"
proof (cases "Option.bind (fmlookup (pa_node_index p) source) (\<lambda>k. accrual_projected_ready p k al)")
  case None
  then show ?thesis by (cases "fmlookup (pa_node_index p) source") (simp_all add: improve_accrual_def Let_def)
next
  case (Some current)
  then obtain k where k: "fmlookup (pa_node_index p) source = Some k" "accrual_projected_ready p k al = Some current"
    by (auto simp: bind_eq_Some_conv)
  let ?best = "best_improvement_target F p source (effective_preemptible (quota_entities s) (jr_spec jr)) (j_requests (jr_spec jr))
      (required_labels (jr_spec jr)) current"
  show ?thesis
  proof (cases ?best)
    case None
    then show ?thesis using assms k by (simp add: improve_accrual_def Let_def)
  next
    case (Some it)
    obtain i t where it: "it = (i, t)" by (cases it)
    then have "?best = Some (i, t)" using Some by simp
    moreover have "fst (improve_accrual F j jr al source (p, scans)) = (if scans < pa_accrual_limit p
        then fst (try_improve_accrual_bound j al source i (j_requests (jr_spec jr)) p) else p)"
      using assms k calculation by (simp add: improve_accrual_def Let_def)
    ultimately show ?thesis by metis
  qed
qed

lemma improve_accrual_ok:
  assumes ok: "snapshot_ok s" "pass_ok s now p" and mv: "movable s p j jr al source"
    and run: "improve_accrual F j jr al source (p, scans) = (p', scans')"
  shows "pass_ok s now p' \<and> jobs_placed p' \<subseteq> insert j (jobs_placed p)"
  using improve_accrual_cases [OF model_calm [OF pass_model [OF ok(2)]] model_snapshot [OF pass_model [OF ok(2)]], of F j jr al source scans]
  unfolding run fst_conv
proof (elim disjE exE conjE)
  fix i t current
  assume best: "best_improvement_target F p source (effective_preemptible (quota_entities s) (jr_spec jr)) (j_requests (jr_spec jr))
      (required_labels (jr_spec jr)) current = Some (i, t)"
    and p': "p' = fst (try_improve_accrual_bound j al source i (j_requests (jr_spec jr)) p)"
  note i = best_improvement_sound [OF best]
  note adm = improvement_ready_admits [OF conjunct2 [OF i]]
  show ?thesis
    unfolding p' using improve_ok [OF ok mv conjunct1 [OF i] adm(2,3,1)] improve_jobs by blast
qed (use ok(2) in auto)

lemma replan_accrual_ok:
  assumes ok: "snapshot_ok s" "pass_ok s now p" and al: "accrues s al j source" "j \<notin> jobs_placed p"
    and run: "replan_accrual F j al source (p, scans) = (p', scans')"
  shows "pass_ok s now p' \<and> jobs_placed p' \<subseteq> insert j (jobs_placed p)"
proof (cases "p' = p")
  case True
  then show ?thesis using ok(2) by auto
next
  case False
  note s = model_snapshot [OF pass_model [OF ok(2)]]
  obtain jr where jr: "fmlookup (jobs s) j = Some jr"
    using run False by (auto simp: replan_accrual_def s split: option.splits)
  have mv: "movable s p j jr al source"
    using run False al jr by (auto simp: replan_accrual_def s movable_def is_reseat_def Let_def split: option.splits if_splits)
  let ?pre = "effective_preemptible (quota_entities s) (jr_spec jr)"
  show ?thesis
  proof (cases "best_reseat_target F p source (jr_spec jr) ?pre (j_requests (jr_spec jr)) (required_labels (jr_spec jr))")
    case None
    then have "improve_accrual F j jr al source (p, scans) = (p', scans')"
      using run False by (auto simp: replan_accrual_def s jr Let_def split: option.splits if_splits)
    then show ?thesis by (rule improve_accrual_ok [OF ok mv])
  next
    case (Some i)
    have "p' = reseat_accrual j al source (j_requests (jr_spec jr)) i p"
      using run False Some by (auto simp: replan_accrual_def s jr Let_def split: option.splits if_splits)
    moreover have "i < length (pa_nodes p)" "model_admits (pa_nodes p ! i) ?pre" "nm_id (pa_nodes p ! i) \<noteq> source"
      "capable (j_requests (jr_spec jr)) (required_labels (jr_spec jr)) (pa_nodes p ! i)"
      "fits_within (j_requests (jr_spec jr)) (nm_sim_free (pa_nodes p ! i))"
      using best_node_sound [OF Some [unfolded best_reseat_target_def]] by simp_all
    ultimately show ?thesis using reseat_ok [OF ok mv] by (simp add: reseat_jobs)
  qed
qed

abbreviation accruing_jobs :: "state_machine \<Rightarrow> job_id set" where
  "accruing_jobs s \<equiv> {j. \<exists>al n. accrues s al j n}"

lemma accrual_entries_accrue: "core {} s \<Longrightarrow> \<forall>(j, al, n) \<in> set (accrual_entries s). accrues s al j n"
proof (clarsimp simp: accrual_entries_def List.map_filter_def set_entries)
  fix n seq al r assume "core {} s" "fmlookup (accrual_queue s) (n, seq) = Some al" "fmlookup (allocations s) al = Some r"
  then show "accrues s al (al_job (alr_allocation r)) n" by (auto simp: pool_queue [OF pool_of] accrues_def)
qed

lemma replan_loop_ok:
  assumes "snapshot_ok s" "pass_ok s now (fst st)" "\<forall>(j, al, n) \<in> set es. accrues s al j n"
    "jobs_placed (fst st) \<subseteq> fset seen" "jobs_placed (fst st) \<subseteq> accruing_jobs s"
  shows "pass_ok s now (replan_loop F es seen st) \<and> jobs_placed (replan_loop F es seen st) \<subseteq> accruing_jobs s"
  using assms(2-)
proof (induction F es seen st rule: replan_loop.induct)
  case (2 F j al source es seen st)
  obtain p scans where st: "st = (p, scans)" by (cases st)
  show ?case
  proof (cases "j |\<in>| seen")
    case True
    then show ?thesis using 2 by simp
  next
    case new: False
    show ?thesis
    proof (cases "length (pa_placements p) \<ge> pa_max_placements p \<or> fcard (finsert j seen) > pa_max_placements p")
      case True
      then show ?thesis using 2 new st by auto
    next
      case False
      obtain p' scans' where run: "replan_accrual F j al source (p, scans) = (p', scans')" by fastforce
      have al: "accrues s al j source" and placed: "j \<notin> jobs_placed p" using 2(4,5) new st by auto
      have step: "pass_ok s now p'" "jobs_placed p' \<subseteq> insert j (jobs_placed p)"
        using replan_accrual_ok [OF assms(1) _ al placed run] 2(3) st by simp_all
      have placed': "jobs_placed p' \<subseteq> fset (finsert j seen)" "jobs_placed p' \<subseteq> accruing_jobs s"
        using order_trans [OF step(2)] al 2(5,6) st by (simp_all add: subset_insertI2) blast
      have "pass_ok s now (replan_loop F es (finsert j seen) (replan_accrual F j al source st)) \<and>
          jobs_placed (replan_loop F es (finsert j seen) (replan_accrual F j al source st)) \<subseteq> accruing_jobs s"
      proof (rule 2(2) [OF new refl])
        show "\<not> (length (pa_placements (fst st)) \<ge> pa_max_placements (fst st) \<or> fcard (finsert j seen) > pa_max_placements (fst st))"
          using False st by simp
      qed (use step(1) placed' run st 2(4) in simp_all)
      then show ?thesis using new False st by (simp add: Let_def)
    qed
  qed
qed simp

section \<open>Lending\<close>

lemma accruing_job:
  assumes "core {} s" "accrues s al j n"
  obtains jr where "fmlookup (jobs s) j = Some jr" "jr_state jr \<noteq> Queued" "\<And>R. is_reseat s R jr \<longleftrightarrow> al |\<in>| R"
proof -
  obtain a r where r: "fmlookup (attempts s) a = Some r" "\<not> attempt_terminal (astate r)" "ajob r = j" "aalloc r = al"
    using accrues_attempt [OF assms] .
  then obtain jr where "fmlookup (jobs s) j = Some jr" "jr_state jr = Attempting a"
    using core_attempt_link [OF assms(1) r(1)] by (auto simp: attempt_link_def)
  then show thesis using that [of jr] r by (simp add: is_reseat_def)
qed

lemma accruing_unplaced:
  assumes ok: "snapshot_ok s" "pass_ok s now p" and al: "accrues s al j n" "al \<notin> set (pa_revocations p)"
  shows "j \<notin> jobs_placed p"
proof
  assume "j \<in> jobs_placed p"
  then obtain pl where pl: "pl \<in> set (pa_placements p)" "pp_job pl = j" by blast
  obtain jr where "fmlookup (jobs s) j = Some jr" "jr_state jr \<noteq> Queued" "\<And>R. is_reseat s R jr \<longleftrightarrow> al |\<in>| R"
    by (rule accruing_job [OF calm_core [OF snapshot_calm [OF ok(1)]] al(1)]) blast
  then have "al \<in> set (pa_revocations p)"
    using batch_seat [OF pass_batch [OF ok(2)] pl(1)] pl(2) by (auto simp: seat_ok_def fset_of_list_elem)
  then show False using al(2) by simp
qed

text \<open>The one accrual of a node that lends.\<close>

lemma lender:
  assumes ok: "snapshot_ok s" "pass_ok s now p" and i: "i < length (pa_nodes p)" and a: "nm_accruals (pa_nodes p ! i) = [a]"
    and lend: "may_lend p deadline preemptible requested required (pa_nodes p ! i)"
  shows lender_accrues: "accrues s (sa_alloc a) (sa_job a) (nm_id (pa_nodes p ! i))"
    and lender_new: "sa_alloc a \<notin> set (pa_revocations p)"
    and lender_unplaced: "\<forall>pl \<in> set (pa_placements p). pp_node pl \<noteq> nm_id (pa_nodes p ! i)"
    and lender_reseat: "seat_ok s now (pa_revocations p @ [sa_alloc a]) \<lparr>pp_job = sa_job a, pp_node = nm_id (pa_nodes p ! i),
      pp_requested = sa_requested a, pp_expect_funded = False, pp_preemptions = []\<rparr>"
    and lender_open: "admission_at s (nm_id (pa_nodes p ! i)) = AdmitOpen"
proof -
  let ?nm = "pa_nodes p ! i" and ?al = "sa_alloc a"
  note m = pass_model [OF ok(2)] and c = snapshot_calm [OF ok(1)]
  have mem: "?nm \<in> set (pa_nodes p)" using i by simp
  have "accruing_on s (nm_id ?nm) ?al \<and> ?al \<notin> set (pa_revocations p)" "mirrors s a"
    using pass_books [OF ok(2) mem] a by (auto simp: node_books_def)
  then obtain r where r: "fmlookup (allocations s) ?al = Some r" "kstate r = Accruing" "knode r = nm_id ?nm"
    "sa_job a = al_job (alr_allocation r)" "sa_requested a = krequested r"
    and new: "?al \<notin> set (pa_revocations p)" by (auto simp: accruing_on_def mirrors_def)
  then show al: "accrues s ?al (sa_job a) (nm_id ?nm)" by (simp add: accrues_def)
  show "?al \<notin> set (pa_revocations p)" by (rule new)
  have "nm_id ?nm |\<notin>| pa_placed_nodes p" using lend by (simp add: may_lend_def)
  then show "\<forall>pl \<in> set (pa_placements p). pp_node pl \<noteq> nm_id ?nm" using pass_placed [OF ok(2)] by metis
  show at: "admission_at s (nm_id ?nm) = AdmitOpen"
    using lend model_admission [OF m mem] by (simp add: may_lend_def model_admits_def)
  obtain jr where jr: "fmlookup (jobs s) (sa_job a) = Some jr" "is_reseat s (fset_of_list (pa_revocations p @ [?al])) jr"
    by (rule accruing_job [OF calm_core [OF c] al]) auto
  obtain rec where rec: "fmlookup (nodes s) (nm_id ?nm) = Some rec" "nr_node rec = nm_node ?nm" using model_record [OF m mem] by blast
  have "nd_preemptible_only (nm_node ?nm) \<longrightarrow> effective_preemptible (quota_entities s) (jr_spec jr)"
    using lend a jr model_snapshot [OF m] by (simp add: may_lend_def)
  then show "seat_ok s now (pa_revocations p @ [?al]) \<lparr>pp_job = sa_job a, pp_node = nm_id ?nm,
      pp_requested = sa_requested a, pp_expect_funded = False, pp_preemptions = []\<rparr>"
    using jr rec snapshot_fits [OF ok(1) r(1,2)] r(3,5) at by (auto simp: seat_ok_def admission_admits_def)
qed

definition lend_seats :: "job_id \<Rightarrow> node_id \<Rightarrow> resources \<Rightarrow> sim_accrual \<Rightarrow> proposed_placement list" where
  "lend_seats j n requested a =
     [\<lparr>pp_job = j, pp_node = n, pp_requested = requested, pp_expect_funded = True, pp_preemptions = []\<rparr>,
      \<lparr>pp_job = sa_job a, pp_node = n, pp_requested = sa_requested a, pp_expect_funded = False, pp_preemptions = []\<rparr>]"

lemma lend_batch:
  assumes ok: "snapshot_ok s" "pass_ok s now p" and i: "i < length (pa_nodes p)" and a: "nm_accruals (pa_nodes p ! i) = [a]"
    and jr: "fmlookup (jobs s) j = Some jr" "jr_state jr = Queued" "j \<notin> jobs_placed p"
    and lend: "may_lend p deadline (effective_preemptible (quota_entities s) (jr_spec jr)) requested required (pa_nodes p ! i)"
    and pass: "\<not> sim_rejected (simulate_pass p (pa_revocations p @ [sa_alloc a])
      (pa_placements p @ lend_seats j (nm_id (pa_nodes p ! i)) requested a))"
  shows "batch_ok s now (pa_revocations p @ [sa_alloc a]) (pa_placements p @ lend_seats j (nm_id (pa_nodes p ! i)) requested a)"
proof (rule batch_grow)
  note b = pass_batch [OF ok(2)] and l = lender [OF ok i a lend]
  obtain jr' where jr': "fmlookup (jobs s) (sa_job a) = Some jr'" "jr_state jr' \<noteq> Queued"
    by (rule accruing_job [OF calm_core [OF snapshot_calm [OF ok(1)]] l(1)]) blast
  then have ne: "sa_job a \<noteq> j" "sa_job a \<notin> jobs_placed p" using jr accruing_unplaced [OF ok l(1,2)] by auto
  show "batch_ok s now (pa_revocations p) (pa_placements p)" by (rule b)
  show rev: "revocable s (pa_revocations p @ [sa_alloc a])" by (rule revocable_snoc [OF batch_revocable [OF b] l(1,2)])
  show "admissible s (pa_revocations p @ [sa_alloc a]) (pa_placements p @ lend_seats j (nm_id (pa_nodes p ! i)) requested a)"
    by (rule simulated_ok [OF ok(1) pass_model [OF ok(2)] rev pass])
  show "distinct (map pp_job (pa_placements p @ lend_seats j (nm_id (pa_nodes p ! i)) requested a))"
    using batch_distinct [OF b] jr(3) ne by (auto simp: lend_seats_def)
  show "\<forall>pl \<in> set (lend_seats j (nm_id (pa_nodes p ! i)) requested a).
      seat_ok s now (pa_revocations p @ [sa_alloc a]) pl \<and> pp_preemptions pl = []"
    using l(4) seated [OF ok i jr(1) disjI1 [OF jr(2)], where requested = requested and required = required] lend
    by (simp add: lend_seats_def may_lend_def model_admits_def admission_admits_def)
  show "backfills_fit s (pa_placements p @ lend_seats j (nm_id (pa_nodes p ! i)) requested a)"
    using batch_backfills [OF b] l(5) backfills_fit_snoc [of s "pa_placements p @ [hd (lend_seats j (nm_id (pa_nodes p ! i)) requested a)]"]
      backfills_fit_snoc [of s "pa_placements p"] by (simp add: is_backfill_def lend_seats_def)
qed (use accrues_fun [OF lender_accrues [OF ok i a lend]] in \<open>auto simp: lend_seats_def\<close>)

lemma lend_books:
  fixes p :: "'f pass"
  assumes ok: "snapshot_ok s" "pass_ok s now p" and i: "i < length (pa_nodes p)" and a: "nm_accruals (pa_nodes p ! i) = [a]"
    and lend: "may_lend p deadline preemptible requested required (pa_nodes p ! i)"
  shows "\<forall>nm \<in> set ((pa_nodes p)[i := lend_node requested (pa_nodes p ! i)]).
    node_books s (pa_revocations p @ [sa_alloc a]) (pa_placements p @ lend_seats j (nm_id (pa_nodes p ! i)) requested a) nm"
proof (rule update_all [OF model_distinct [OF pass_model [OF ok(2)]] i])
  let ?nm = "pa_nodes p ! i" and ?R = "pa_revocations p @ [sa_alloc a]" and ?P = "pa_placements p"
  note l = lender [OF ok i a lend]
  have mem: "?nm \<in> set (pa_nodes p)" using i by simp
  obtain pl pl' where ls: "lend_seats j (nm_id ?nm) requested a = [pl, pl']" "pp_node pl = nm_id ?nm" "pp_node pl' = nm_id ?nm"
    "pp_requested pl = requested" "pp_requested pl' = sa_requested a" by (simp add: lend_seats_def)
  obtain a' where a': "nm_accruals ?nm = [a']" and z: "\<And>nm' :: 'f node_model. nm_node nm' = nm_node ?nm \<Longrightarrow> nm_accruals nm' = [] \<Longrightarrow>
      nm_sim_free nm' = res_add (nm_sim_free ?nm) (sa_funded a') \<Longrightarrow> node_books s ?R ?P nm'"
    using node_books_revoke [OF snapshot_calm [OF ok(1)] pass_books [OF ok(2) mem] l(1-3)] by metis
  let ?z = "?nm\<lparr>nm_accruals := [], nm_sim_free := res_add (nm_sim_free ?nm) (sa_funded a)\<rparr>"
  have "node_books s ?R ?P ?z" using z a a' by simp
  then have "node_books s ?R (?P @ [pl]) (take_free requested ?z)"
    by (rule node_books_seat) (simp_all add: take_free_def ls)
  then have "node_books s ?R ((?P @ [pl]) @ [pl']) (lend_node requested ?nm)"
    by (rule node_books_seat) (simp_all add: take_free_def lend_node_def lendable_def a Let_def ls)
  then show "node_books s ?R (?P @ lend_seats j (nm_id ?nm) requested a) (lend_node requested ?nm)" by (simp add: ls)
  fix nm assume nm: "nm \<in> set (pa_nodes p)" "nm_id nm \<noteq> nm_id ?nm"
  then have "node_books s ?R ?P nm" using node_books_kept [OF pass_books [OF ok(2)] l(1,3)] by simp
  then show "node_books s ?R (?P @ lend_seats j (nm_id ?nm) requested a) nm"
    using node_books_elsewhere [OF node_books_elsewhere, of s ?R ?P nm pl pl'] nm(2) by (simp add: ls)
qed

lemma lend_ok:
  assumes ok: "snapshot_ok s" "pass_ok s now p" and i: "i < length (pa_nodes p)" and a: "nm_accruals (pa_nodes p ! i) = [a]"
    and jr: "fmlookup (jobs s) j = Some jr" "jr_state jr = Queued" "j \<notin> jobs_placed p"
    and lend: "may_lend p deadline (effective_preemptible (quota_entities s) (jr_spec jr)) requested required (pa_nodes p ! i)"
    and P': "P' = pa_placements p @ lend_seats j (nm_id (pa_nodes p ! i)) requested a"
    and pass: "\<not> sim_rejected (simulate_pass p (pa_revocations p @ [sa_alloc a]) P')"
    and p': "p' = update_node i (lend_node requested) (p\<lparr>pa_revocations := pa_revocations p @ [sa_alloc a], pa_placements := P',
      pa_revoked_nodes := finsert (nm_id (pa_nodes p ! i)) (pa_revoked_nodes p),
      pa_placed_nodes := finsert (nm_id (pa_nodes p ! i)) (pa_placed_nodes p)\<rparr>)"
  shows "pass_ok s now p' \<and> jobs_placed p' \<subseteq> insert j (jobs_placed p) \<union> accruing_jobs s"
proof -
  let ?nm = "pa_nodes p ! i"
  have "nm_node (lend_node requested ?nm) = nm_node ?nm" "nm_admission (lend_node requested ?nm) = nm_admission ?nm"
    by (simp_all add: lend_node_def case_prod_unfold Let_def)
  then have "model_ok s now p'" by (rule model_update [OF pass_model [OF ok(2)] i]) (simp_all add: p' update_node_def)
  then show ?thesis
    using lend_batch [OF ok i a jr lend pass [unfolded P']] lend_books [OF ok i a lend, of j] pass_placed [OF ok(2)] lender_accrues [OF ok i a lend]
    by (auto simp: pass_ok_def p' update_node_def P' lend_seats_def)
qed

lemma backfill_ok:
  assumes ok: "snapshot_ok s" "pass_ok s now p"
    and jr: "fmlookup (jobs s) j = Some jr" "jr_state jr = Queued" "j \<notin> jobs_placed p"
    and run: "try_backfill F j (jr_spec jr) (effective_preemptible (quota_entities s) (jr_spec jr)) requested required p = (p', b)"
  shows "pass_ok s now p' \<and> jobs_placed p' \<subseteq> insert j (jobs_placed p) \<union> accruing_jobs s \<and> (\<not> b \<longrightarrow> p' = p)"
proof (cases b)
  case False
  then show ?thesis using run ok(2) by (auto simp: try_backfill_def Let_def split: option.splits if_splits)
next
  case True
  let ?pre = "effective_preemptible (quota_entities s) (jr_spec jr)"
  let ?R = "\<lambda>i. pa_revocations p @ map sa_alloc (nm_accruals (pa_nodes p ! i))"
  let ?P = "\<lambda>i. push_placement j i requested True [] p @ map (\<lambda>a. \<lparr>pp_job = sa_job a, pp_node = nm_id (pa_nodes p ! i),
    pp_requested = sa_requested a, pp_expect_funded = False, pp_preemptions = []\<rparr>) (nm_accruals (pa_nodes p ! i))"
  obtain deadline i where best: "best_node F ?pre (pa_nodes p) (may_lend p deadline ?pre requested required)
      (\<lambda>nm. borrowed_fraction F (nm_sim_free nm) requested (nd_capacity (nm_node nm))) = Some i"
    and sim: "\<not> sim_rejected (simulate_pass p (?R i) (?P i))"
    and p': "p' = update_node i (lend_node requested) (p\<lparr>pa_revocations := ?R i, pa_placements := ?P i,
      pa_revoked_nodes := finsert (nm_id (pa_nodes p ! i)) (pa_revoked_nodes p),
      pa_placed_nodes := finsert (nm_id (pa_nodes p ! i)) (pa_placed_nodes p)\<rparr>)"
    using run True by (auto simp: try_backfill_def Let_def split: option.splits if_splits)
  note i = best_node_sound [OF best]
  obtain a where a: "nm_accruals (pa_nodes p ! i) = [a]"
    using i by (cases "nm_accruals (pa_nodes p ! i)" rule: remdups_adj.cases) (auto simp: may_lend_def)
  have "?P i = pa_placements p @ lend_seats j (nm_id (pa_nodes p ! i)) requested a"
    by (simp add: push_placement_def lend_seats_def a)
  then show ?thesis
    using lend_ok [OF ok conjunct1 [OF i] a jr conjunct2 [OF i] refl, of p'] sim p' True by (simp add: a)
qed

section \<open>Seating the candidates\<close>

lemma seat_candidate_ok:
  assumes ok: "snapshot_ok s" "pass_ok s now p" and new: "rk_job rk \<notin> jobs_placed p"
  shows "pass_ok s now (seat_candidate F rk p) \<and> jobs_placed (seat_candidate F rk p) \<subseteq> insert (rk_job rk) (jobs_placed p) \<union> accruing_jobs s"
proof (cases "fmlookup (jobs s) (rk_job rk)")
  case None
  then show ?thesis using ok(2) model_snapshot [OF pass_model [OF ok(2)]] by (auto simp: seat_candidate_def)
next
  case (Some jr)
  note m = pass_model [OF ok(2)]
  let ?j = "rk_job rk" and ?spec = "jr_spec jr" and ?req = "j_requests (jr_spec jr)" and ?lab = "required_labels (jr_spec jr)"
  let ?pre = "effective_preemptible (quota_entities s) ?spec"
  obtain p1 b1 where 1: "try_free_fit F ?j ?spec ?pre ?req ?lab p = (p1, b1)" by fastforce
  obtain p2 b2 where 2: "try_drain_backfill F ?j ?spec ?pre ?req ?lab p = (p2, b2)" by fastforce
  obtain p3 b3 where 3: "try_backfill F ?j ?spec ?pre ?req ?lab p = (p3, b3)" by fastforce
  show ?thesis
  proof (cases "jr_state jr = Queued")
    case True
    note jr = Some True new
    note ok1 = free_fit_ok [OF ok jr 1] and ok2 = drain_backfill_ok [OF ok jr 2] and ok3 = backfill_ok [OF ok jr 3]
    let ?Q = "\<lambda>p'. pass_ok s now p' \<and> jobs_placed p' \<subseteq> insert ?j (jobs_placed p) \<union> accruing_jobs s"
    have sup: "X \<subseteq> insert ?j (jobs_placed p) \<Longrightarrow> X \<subseteq> insert ?j (jobs_placed p) \<union> accruing_jobs s" for X by blast
    have Q: "?Q p1" "?Q p2" "?Q p3" using ok1 ok2 ok3 sup by simp_all
    have "pass_ok s now (accrue_or_preempt F rk ?spec ?pre ?req ?lab p) \<and>
        jobs_placed (accrue_or_preempt F rk ?spec ?pre ?req ?lab p) \<subseteq> insert ?j (jobs_placed p)"
    proof (cases "best_accrual_target F ?pre ?req ?lab p")
      case None
      then show ?thesis using ok(2) model_calm [OF m] by (auto simp: accrue_or_preempt_def)
    next
      case (Some x)
      obtain t f i where x: "x = (t, f, i)" by (cases x)
      note i = best_accrual_sound [OF Some [unfolded x]]
      have "accrue_or_preempt F rk ?spec ?pre ?req ?lab p = fst (open_accrual_on ?j i ?req p)"
        using Some x model_calm [OF m] by (simp add: accrue_or_preempt_def)
      then show ?thesis using open_accrual_ok [OF ok conjunct1 [OF i] jr, of ?req ?lab] i by simp
    qed
    then have "?Q (accrue_or_preempt F rk ?spec ?pre ?req ?lab p)" using sup by simp
    moreover have "seat_candidate F rk p = (if b1 then p1 else if b2 then p2 else if b3 then p3
        else accrue_or_preempt F rk ?spec ?pre ?req ?lab p)"
      using ok1 ok2 ok3 by (cases b1; cases b2; cases b3) (simp_all add: seat_candidate_def Let_def Some True 1 2 3 model_snapshot [OF m])
    ultimately show ?thesis using Q by presburger
  next
    case False
    then show ?thesis using ok(2) Some model_snapshot [OF m] by (auto simp: seat_candidate_def)
  qed
qed

lemma seat_loop_ok:
  assumes "snapshot_ok s" "pass_ok s now p" "distinct (map rk_job ranks)"
    "\<forall>rk \<in> set ranks. rk_job rk \<notin> jobs_placed p \<and> rk_job rk \<notin> accruing_jobs s"
  shows "pass_ok s now (seat_loop F ranks p)"
  using assms(2-)
proof (induction ranks arbitrary: p)
  case (Cons rk ranks)
  have "rk_job rk \<notin> jobs_placed p" using Cons.prems(3) by simp
  note step = seat_candidate_ok [OF assms(1) Cons.prems(1) this, of F]
  show ?case
  proof (cases "length (pa_placements p) \<ge> pa_max_placements p")
    case False
    have "\<forall>rk' \<in> set ranks. rk_job rk' \<notin> jobs_placed (seat_candidate F rk p) \<and> rk_job rk' \<notin> accruing_jobs s"
    proof
      fix rk' assume rk': "rk' \<in> set ranks"
      then have "rk_job rk' \<in> rk_job ` set ranks" by blast
      then have "rk_job rk' \<noteq> rk_job rk" using Cons.prems(2) by auto
      moreover have "rk_job rk' \<notin> jobs_placed p" "rk_job rk' \<notin> accruing_jobs s" using Cons.prems(3) rk' by simp_all
      ultimately show "rk_job rk' \<notin> jobs_placed (seat_candidate F rk p) \<and> rk_job rk' \<notin> accruing_jobs s" using step by blast
    qed
    then show ?thesis using Cons.IH [of "seat_candidate F rk p"] Cons.prems(2) step False by simp
  qed (use Cons.prems(1) in simp)
qed simp

lemma job_score_penalties: "\<exists>m. fst (job_score F jr p) = p\<lparr>pa_penalties := m\<rparr>"
  by (auto simp: job_score_def case_prod_unfold Let_def)

lemma rank_jobs:
  "\<exists>m. fst (fold (rank_job F) es (p, ranks)) = p\<lparr>pa_penalties := m\<rparr> \<and>
     map rk_job (snd (fold (rank_job F) es (p, ranks))) = map rk_job ranks @ map fst (filter (\<lambda>(_, jr). jr_state jr = Queued) es)"
proof (induction es arbitrary: p ranks)
  case Nil
  show ?case by (intro exI [of _ "pa_penalties p"]) simp
next
  case (Cons kv es)
  obtain j jr where kv: "kv = (j, jr)" by (cases kv)
  show ?case
  proof (cases "jr_state jr = Queued")
    case True
    obtain m v where sc: "job_score F jr p = (p\<lparr>pa_penalties := m\<rparr>, v)" using job_score_penalties [of F jr p] by (metis prod.collapse)
    let ?r = "\<lparr>rk_score = v, rk_submitted_at = jr_submitted_at jr, rk_job = j\<rparr>"
    have "rank_job F kv (p, ranks) = (p\<lparr>pa_penalties := m\<rparr>, ranks @ [?r])" by (simp add: rank_job_def kv True sc)
    then show ?thesis using Cons.IH [of "p\<lparr>pa_penalties := m\<rparr>" "ranks @ [?r]"] True by (simp add: kv)
  next
    case False
    then have "rank_job F kv (p, ranks) = (p, ranks)" by (simp add: rank_job_def kv)
    then show ?thesis using Cons.IH [of p ranks] False by (simp add: kv)
  qed
qed

lemma mset_insert_by: "mset (insert_by lt x xs) = add_mset x (mset xs)"
  by (induction xs) auto

lemma mset_sort_by [simp]: "mset (sort_by lt xs) = mset xs"
  unfolding sort_by_def by (induction xs) (auto simp: mset_insert_by)

lemma pass_ok_penalties [simp]: "pass_ok s now (p\<lparr>pa_penalties := m\<rparr>) = pass_ok s now p"
  by (simp add: pass_ok_def model_ok_def)

lemma select_candidates_ok:
  assumes "select_candidates F p = (p', ranks)"
  shows "\<exists>m. p' = p\<lparr>pa_penalties := m\<rparr>" "distinct (map rk_job ranks)"
    "\<forall>rk \<in> set ranks. \<exists>jr. fmlookup (jobs (pa_snapshot p)) (rk_job rk) = Some jr \<and> jr_state jr = Queued"
proof -
  let ?es = "entries (jobs (pa_snapshot p))"
  obtain p1 rs where f: "fold (rank_job F) ?es (p, []) = (p1, rs)" by fastforce
  obtain m where m: "p1 = p\<lparr>pa_penalties := m\<rparr>" "map rk_job rs = map fst (filter (\<lambda>(_, jr). jr_state jr = Queued) ?es)"
    using rank_jobs [of F ?es p "[]"] f by auto
  have "p' = p \<or> p' = p1" using assms f by (auto simp: select_candidates_def split: if_splits)
  moreover have "p = p\<lparr>pa_penalties := pa_penalties p\<rparr>" by simp
  ultimately show "\<exists>m. p' = p\<lparr>pa_penalties := m\<rparr>" using m(1) by metis
  have ms: "mset (map rk_job (sort_by (rank_less F) rs)) = mset (map rk_job rs)" by simp
  have "distinct (map rk_job rs)" using m(2) distinct_entries [of "jobs (pa_snapshot p)"] by (simp add: distinct_map_filter)
  then have d: "distinct (map rk_job (sort_by (rank_less F) rs))" using mset_eq_imp_distinct_iff [OF ms] by simp
  have rks: "ranks = [] \<or> (\<exists>n. ranks = take n (sort_by (rank_less F) rs))"
    using assms f by (auto simp: select_candidates_def split: if_splits)
  then show "distinct (map rk_job ranks)" using d by (auto simp: take_map [symmetric])
  have "set (sort_by (rank_less F) rs) = set rs" by (rule mset_eq_setD) simp
  then have "set ranks \<subseteq> set rs" using rks set_take_subset [of _ "sort_by (rank_less F) rs"] by auto
  then have "rk_job ` set ranks \<subseteq> set (map rk_job rs)" by auto
  also have "\<dots> \<subseteq> {j. \<exists>jr. fmlookup (jobs (pa_snapshot p)) j = Some jr \<and> jr_state jr = Queued}"
    unfolding m(2) by (auto simp: set_entries)
  finally show "\<forall>rk \<in> set ranks. \<exists>jr. fmlookup (jobs (pa_snapshot p)) (rk_job rk) = Some jr \<and> jr_state jr = Queued" by blast
qed

lemma seat_candidates_ok:
  assumes ok: "snapshot_ok s" "pass_ok s now p" and placed: "jobs_placed p \<subseteq> accruing_jobs s"
  shows "pass_ok s now (seat_candidates F p)"
proof -
  obtain p' ranks where sel: "select_candidates F p = (p', ranks)" by fastforce
  note c = select_candidates_ok [OF sel]
  obtain m where p': "p' = p\<lparr>pa_penalties := m\<rparr>" using c(1) by blast
  have "rk_job rk \<notin> accruing_jobs s" if rk: "rk \<in> set ranks" for rk
  proof
    assume "rk_job rk \<in> accruing_jobs s"
    then obtain al n where al: "accrues s al (rk_job rk) n" by blast
    obtain jr where "fmlookup (jobs s) (rk_job rk) = Some jr" "jr_state jr \<noteq> Queued"
      by (rule accruing_job [OF calm_core [OF snapshot_calm [OF ok(1)]] al]) blast
    then show False using c(3) rk model_snapshot [OF pass_model [OF ok(2)]] by auto
  qed
  then have "\<forall>rk \<in> set ranks. rk_job rk \<notin> jobs_placed p' \<and> rk_job rk \<notin> accruing_jobs s"
    using placed unfolding p' by (simp del: mem_Collect_eq) blast
  then have "pass_ok s now (seat_loop F ranks p')" using ok by (intro seat_loop_ok [OF ok(1) _ c(2)]) (simp_all add: p')
  then show ?thesis by (simp add: seat_candidates_def sel)
qed

section \<open>The start of a pass\<close>

lemma pledge_pool_length [simp]: "length (snd (pledge_pool t free queue)) = length queue"
  by (induction t free queue rule: pledge_pool.induct) (auto simp: Let_def case_prod_unfold)

lemma sweep_events_length [simp]: "length (sweep_events evs free queue) = length queue"
  by (induction evs free queue rule: sweep_events.induct) (auto simp: Let_def case_prod_unfold)

lemma sweep_length [simp]: "length (sweep_projected_ready evs needs) = length needs"
  by (simp add: sweep_projected_ready_def)

lemma index_lookup:
  "distinct ns \<Longrightarrow> fmlookup (fold (\<lambda>(i, n) m. fmupd n i m) (enumerate 0 ns) fmempty) x = Some i \<longleftrightarrow> i < length ns \<and> ns ! i = x"
proof (induction ns rule: rev_induct)
  case (snoc n ns)
  then show ?case by (auto simp: enumerate_append_eq nth_append less_Suc_eq)
qed simp

lemma accruals_start:
  assumes "calm s"
  shows "length (with_projected evs (node_accruals s n)) \<le> 1"
    "sa_alloc ` set (with_projected evs (node_accruals s n)) = {al. accruing_on s n al}"
    "\<forall>a \<in> set (with_projected evs (node_accruals s n)). mirrors s a"
proof -
  let ?sa = "\<lambda>al a. \<lparr>sa_alloc = al, sa_job = al_job (alr_allocation a), sa_requested = al_requested (alr_allocation a),
    sa_funded = al_funded (alr_allocation a), sa_projected_ready = None\<rparr>"
  have q: "node_accruals s n = List.map_filter (\<lambda>al. map_option (?sa al) (fmlookup (allocations s) al)) (map snd (node_queue s n))"
    by (simp add: node_accruals_def List.map_filter_def filter_map comp_def case_prod_unfold)
  consider "node_accruals s n = []" "\<forall>al. \<not> accruing_on s n al"
    | al r where "node_accruals s n = [?sa al r]" "fmlookup (allocations s) al = Some r" "{al. accruing_on s n al} = {al}"
    using calm_queue [OF assms, of n]
  proof (elim disjE exE conjE)
    assume "map snd (node_queue s n) = []" "\<forall>al. \<not> accruing_on s n al"
    then show thesis using that(1) by (simp add: q map_filter_simps)
  next
    fix al assume al: "map snd (node_queue s n) = [al]" "accruing_on s n al"
    then obtain r where r: "fmlookup (allocations s) al = Some r" by (auto simp: accruing_on_def)
    have "node_accruals s n = [?sa al r]" by (simp add: q al(1) map_filter_simps r)
    moreover have "{al. accruing_on s n al} = {al}" using al(2) calm_single [OF assms al(2)] by blast
    ultimately show thesis using that(2) r by blast
  qed
  then have "length (with_projected evs (node_accruals s n)) \<le> 1 \<and>
    sa_alloc ` set (with_projected evs (node_accruals s n)) = {al. accruing_on s n al} \<and>
    (\<forall>a \<in> set (with_projected evs (node_accruals s n)). mirrors s a)"
  proof cases
    case 1
    then show ?thesis by (simp add: with_projected_def)
  next
    case (2 al r)
    let ?ready = "sweep_projected_ready evs [res_sub (al_requested (alr_allocation r)) (al_funded (alr_allocation r))]"
    have "length ?ready = Suc 0" by simp
    then obtain t where "?ready = [t]" by (metis length_0_conv length_Suc_conv)
    then show ?thesis using 2 by (simp add: with_projected_def mirrors_def)
  qed
  then show "length (with_projected evs (node_accruals s n)) \<le> 1"
    "sa_alloc ` set (with_projected evs (node_accruals s n)) = {al. accruing_on s n al}"
    "\<forall>a \<in> set (with_projected evs (node_accruals s n)). mirrors s a" by blast+
qed

lemma drained_nodes_asks: "fmlookup (nodes s) n = Some rec \<Longrightarrow> asks_horizon rec \<longleftrightarrow> n |\<in>| drained_nodes s"
  by (force simp: drained_nodes_def asks_horizon_def fset_of_list_elem set_entries image_iff)

lemma node_model_start:
  fixes nm :: "'f node_model"
  assumes "calm s" "nodes_keyed s" "fmlookup (nodes s) n = Some rec"
    and nm: "node_model_of s events victims (node_horizons s (drained_nodes s)) (free_capacity_map s) n rec = Some nm"
  shows "nm_id nm = n" "nm_admission nm = admission_at s n" "nr_node rec = nm_node nm" "node_books s [] [] nm"
proof -
  have ask: "asks_horizon rec \<Longrightarrow> n |\<in>| drained_nodes s" using drained_nodes_asks [OF assms(3)] by simp
  show node: "nr_node rec = nm_node nm" and "nm_admission nm = admission_at s n"
    using nm admission_lookup [OF assms(3) ask] by (auto simp: node_model_of_def Let_def split: if_splits)
  have "nd_id (nr_node rec) = n" using assms(2,3) by (simp add: nodes_keyed_def)
  then show id: "nm_id nm = n" using node by simp
  have "nm_sim_free nm = memo_get (free_capacity_map s) n" "\<exists>evs. nm_accruals nm = with_projected evs (node_accruals s n)"
    using nm by (auto simp: node_model_of_def Let_def split: if_splits)
  then obtain evs where "nm_sim_free nm = room s [] [] n" "nm_accruals nm = with_projected evs (node_accruals s n)"
    by (auto simp: base_room_fold)
  then show "node_books s [] [] nm" using accruals_start [OF assms(1), of evs n] id by (simp add: node_books_def)
qed

lemma node_model_hosts:
  assumes "accruing_on s n al" "calm s"
  shows "node_model_of s events victims horizons base n rec \<noteq> None"
proof -
  obtain seq where "fmlookup (accrual_queue s) (n, seq) = Some al"
    using assms by (auto simp: accruing_on_def pool_queue [OF calm_pool [OF assms(2)]])
  then have "n |\<in>| fst |`| fmdom (accrual_queue s)" by (metis fmdomI fimage_eqI fst_conv)
  then show ?thesis by (simp add: node_model_of_def Let_def)
qed

lemma accruing_node:
  assumes "calm s" "accruing_on s n al"
  obtains rec where "fmlookup (nodes s) n = Some rec"
proof -
  obtain r where r: "fmlookup (allocations s) al = Some r" "kstate r = Accruing" "knode r = n"
    using assms(2) by (auto simp: accruing_on_def)
  then have "has_key (knode r) (nodes s)"
    using pools_nodes [OF core_pools [OF calm_core [OF assms(1)]]] unfolding live_nodes_def live_allocation_def
    by (metis allocation_state.distinct(5))
  then show thesis using that r(3) by auto
qed

lemma admissible_start: "calm s \<Longrightarrow> admissible s [] []"
  using waiting_card [of s "[]"] by (simp add: admissible_def jobs_after_def fcard.rep_eq)

text \<open>The node models a pass starts with, and the index over them.\<close>

definition start_model :: "'f f64 \<Rightarrow> state_machine \<Rightarrow> timestamp \<Rightarrow> 'f scheduler_config \<Rightarrow> node_id \<Rightarrow> node_record \<Rightarrow> 'f node_model option" where
  "start_model F s now config = node_model_of s (collect_release_events s)
     (snd (candidate_victims F s now (age_horizon F (po_decay (policy s))) (cf_w_age config) fmempty))
     (node_horizons s (drained_nodes s)) (free_capacity_map s)"

lemma pass_start:
  fixes F :: "'f f64" and now config
  assumes keyed: "nodes_keyed s"
  defines "p \<equiv> pass_new F s now config"
  shows "nm \<in> set (pa_nodes p) \<longleftrightarrow> (\<exists>rec. fmlookup (nodes s) (nm_id nm) = Some rec \<and> start_model F s now config (nm_id nm) rec = Some nm)"
    "distinct (map nm_id (pa_nodes p))"
    "fmlookup (pa_node_index p) n = Some i \<longleftrightarrow> i < length (pa_nodes p) \<and> nm_id (pa_nodes p ! i) = n"
proof -
  let ?M = "List.map_filter (\<lambda>(n, rec). map_option (\<lambda>nm. (n, nm)) (start_model F s now config n rec)) (entries (nodes s))"
  have fields: "pa_nodes p = map snd ?M" "pa_node_index p = fold (\<lambda>(i, n) m. fmupd n i m) (enumerate 0 (map fst ?M)) fmempty"
    by (simp_all add: p_def pass_new_def Let_def case_prod_unfold start_model_def)
  have M: "(n, nm) \<in> set ?M \<longleftrightarrow> (\<exists>rec. fmlookup (nodes s) n = Some rec \<and> start_model F s now config n rec = Some nm)" for n nm
    by (force simp: List.map_filter_def set_entries image_iff)
  have id: "nm_id nm = n" if "(n, nm) \<in> set ?M" for n nm
    using that keyed unfolding M by (auto simp: start_model_def node_model_of_def Let_def nodes_keyed_def split: if_splits)
  then have ids: "map nm_id (map snd ?M) = map fst ?M" by (auto simp: case_prod_unfold)
  have "map fst ?M = map fst (filter (\<lambda>(n, rec). start_model F s now config n rec \<noteq> None) (entries (nodes s)))"
    by (simp add: List.map_filter_def comp_def case_prod_unfold) (auto intro: map_cong filter_cong)
  then have d: "distinct (map fst ?M)" by (simp add: distinct_map_filter distinct_entries)
  then show "distinct (map nm_id (pa_nodes p))" unfolding fields ids .
  show "nm \<in> set (pa_nodes p) \<longleftrightarrow> (\<exists>rec. fmlookup (nodes s) (nm_id nm) = Some rec \<and> start_model F s now config (nm_id nm) rec = Some nm)"
  proof -
    have "nm \<in> snd ` set ?M \<longleftrightarrow> (nm_id nm, nm) \<in> set ?M"
    proof
      assume "nm \<in> snd ` set ?M"
      then obtain n where n: "(n, nm) \<in> set ?M" by auto
      then show "(nm_id nm, nm) \<in> set ?M" using id [OF n] by simp
    next
      assume "(nm_id nm, nm) \<in> set ?M"
      from imageI [OF this, of snd] show "nm \<in> snd ` set ?M" by simp
    qed
    then show ?thesis unfolding fields M [symmetric] by simp
  qed
  show "fmlookup (pa_node_index p) n = Some i \<longleftrightarrow> i < length (pa_nodes p) \<and> nm_id (pa_nodes p ! i) = n"
    unfolding fields index_lookup [OF d] unfolding ids [symmetric] by auto
qed

lemma pass_new_ok:
  fixes F :: "'f f64"
  assumes ok: "snapshot_ok s" "nodes_keyed s" and cfg: "cf_max_preempting_placements_per_cycle config = 0"
  shows "pass_ok s now (pass_new F s now config)"
proof -
  let ?p = "pass_new F s now config"
  note c = snapshot_calm [OF ok(1)] and start = pass_start [OF ok(2), where F = F and now = now and config = config]
  have fields: "pa_snapshot ?p = s" "pa_now ?p = now" "pa_base_free ?p = free_capacity_map s" "pa_preempting_left ?p = 0"
    "pa_revocations ?p = []" "pa_placements ?p = []" "pa_placed_nodes ?p = {||}"
    by (simp_all add: pass_new_def Let_def case_prod_unfold cfg)
  have nm: "nm_admission nm = admission_at s (nm_id nm) \<and> node_books s [] [] nm \<and>
      (\<exists>rec. fmlookup (nodes s) (nm_id nm) = Some rec \<and> nr_node rec = nm_node nm)" if "nm \<in> set (pa_nodes ?p)" for nm
    using that node_model_start [OF c ok(2)] unfolding start(1) start_model_def by blast
  have host: "n \<in> nm_id ` set (pa_nodes ?p)" if al: "accruing_on s n al" for n al
  proof -
    obtain rec where rec: "fmlookup (nodes s) n = Some rec" by (rule accruing_node [OF c al])
    obtain nm where nm: "start_model F s now config n rec = Some nm"
      using node_model_hosts [OF al c] unfolding start_model_def by blast
    have "nm_id nm = n" using node_model_start(1) [OF c ok(2) rec nm [unfolded start_model_def]] .
    then show ?thesis using start(1) [of nm] rec nm by blast
  qed
  have "model_ok s now ?p"
    unfolding model_ok_def fields by (intro conjI allI ballI impI refl start(2,3) host) (use nm in simp_all)
  then show ?thesis
    using admissible_start [OF c] nm by (simp add: pass_ok_def fields batch_ok_def revocable_def backfills_fit_def)
qed

end
