(* ===== verification/Pass_Accept.thy ===== *)
theory Pass_Accept
  imports Pass_Loop
begin

text \<open>
  A batch that satisfies the invariant of a pass is accepted by \<open>commit_placements\<close>: every revocation
  and every placement is valid, and the accrual guards let it through.
\<close>

section \<open>Validation of the revocations\<close>

lemma revocations_valid:
  assumes "distinct R" "\<forall>al \<in> set R. \<exists>n. accruing_on s n al" "\<forall>al \<in> set R. al |\<notin>| seen"
  shows "\<exists>idx'. validate_revocations s R idx seen = ([], idx', fset_of_list R |\<union>| seen)"
  using assms
proof (induction R arbitrary: idx seen)
  case (Cons al R)
  obtain r where "fmlookup (allocations s) al = Some r" "kstate r = Accruing"
    using Cons.prems(2) by (auto simp: accruing_on_def)
  moreover have "\<exists>idx'. validate_revocations s R (idx + 1) (finsert al seen) = ([], idx', fset_of_list R |\<union>| finsert al seen)"
    using Cons.prems by (intro Cons.IH) auto
  ultimately show ?case using Cons.prems(3) by auto
qed simp

section \<open>Validation of the placements\<close>

definition fresh_ids :: "state_machine \<Rightarrow> (nat \<Rightarrow> attempt_id \<times> allocation_id) \<Rightarrow> nat \<Rightarrow> bool" where
  "fresh_ids s mint m \<longleftrightarrow> inj_on (\<lambda>i. fst (mint i)) {..<m} \<and> inj_on (\<lambda>i. snd (mint i)) {..<m} \<and>
     (\<forall>i < m. fmlookup (attempts s) (fst (mint i)) = None \<and> fmlookup (allocations s) (snd (mint i)) = None)"

lemma fresh_ids_mono: "fresh_ids s mint m \<Longrightarrow> k \<le> m \<Longrightarrow> fresh_ids s mint k"
  by (auto simp: fresh_ids_def intro: inj_on_subset)

text \<open>What apply has seated on draining nodes so far, against the running subtraction.\<close>

definition seated_so_far :: "state_machine \<Rightarrow> timestamp \<Rightarrow> node_id fset \<Rightarrow> proposed_placement list \<Rightarrow> backfill_check \<Rightarrow> bool" where
  "seated_so_far s now D Q bf \<longleftrightarrow> bc_now bf = now \<and> bc_horizons bf = node_horizons s D \<and> bc_used bf = used_capacity_memo s \<and>
     (\<forall>n. is_backfill (admission_at s n) \<longrightarrow>
        res_sub (free_capacity s n (Some (used_capacity_memo s))) (memo_get (bc_seated bf) n) = room s [] Q n)"

lemma res_sub_add: "res_sub r (res_add a b) = res_sub (res_sub r a) b"
proof (rule rget_eqI)
  fix d
  show "rget d (res_sub r (res_add a b)) = rget d (res_sub (res_sub r a) b)"
    using rget_le [of d r] by (simp add: rget_sub rget_add min_def)
qed

lemma res_sub_min: "res_sub r (component_min r q) = res_sub r q"
  by (rule rget_eqI) (simp add: rget_sub rget_min min_def)

lemma memo_get_fmupd: "memo_get (fmupd k v m) n = (if n = k then v else memo_get m n)"
  by (simp add: memo_get_def)

lemma seated_elsewhere:
  assumes "seated_so_far s now D Q bf" "\<not> is_backfill (admission_at s (pp_node pl))"
  shows "seated_so_far s now D (Q @ [pl]) bf"
  unfolding seated_so_far_def
proof (intro conjI allI impI)
  fix n assume n: "is_backfill (admission_at s n)"
  then have "n \<noteq> pp_node pl" using assms(2) by blast
  then show "res_sub (free_capacity s n (Some (used_capacity_memo s))) (memo_get (bc_seated bf) n) = room s [] (Q @ [pl]) n"
    using assms(1) n by (simp add: seated_so_far_def room_snoc)
qed (use assms(1) in \<open>simp_all add: seated_so_far_def\<close>)

lemma seated_here:
  assumes "seated_so_far s now D Q bf" "is_backfill (admission_at s (pp_node pl))"
  shows "seated_so_far s now D (Q @ [pl]) (bf\<lparr>bc_seated := fmupd (pp_node pl)
    (res_add (memo_get (bc_seated bf) (pp_node pl)) (pp_requested pl)) (bc_seated bf)\<rparr>)"
  unfolding seated_so_far_def
proof (intro conjI allI impI)
  let ?bf = "bf\<lparr>bc_seated := fmupd (pp_node pl) (res_add (memo_get (bc_seated bf) (pp_node pl)) (pp_requested pl)) (bc_seated bf)\<rparr>"
  fix n assume n: "is_backfill (admission_at s n)"
  have "res_sub (free_capacity s n (Some (used_capacity_memo s))) (memo_get (bc_seated bf) n) = room s [] Q n"
    using assms(1) n by (simp add: seated_so_far_def)
  then show "res_sub (free_capacity s n (Some (used_capacity_memo s))) (memo_get (bc_seated ?bf) n) = room s [] (Q @ [pl]) n"
    by (auto simp: room_snoc memo_get_fmupd res_sub_add res_sub_min)
qed (use assms(1) in \<open>simp_all add: seated_so_far_def\<close>)

lemma item_valid:
  assumes ok: "seat_ok s now R pl" "pp_preemptions pl = []" and known: "entities_known s" and bf: "seated_so_far s now D Q bf"
    and D: "\<And>rec. fmlookup (nodes s) (pp_node pl) = Some rec \<Longrightarrow> asks_horizon rec \<Longrightarrow> pp_node pl |\<in>| D"
    and fit: "is_backfill (admission_at s (pp_node pl)) \<Longrightarrow> fits_within (pp_requested pl) (room s [] Q (pp_node pl))"
    and new: "pp_job pl |\<notin>| sj" "fmlookup (attempts s) (fst ids) = None" "fst ids |\<notin>| sa"
      "fmlookup (allocations s) (snd ids) = None" "snd ids |\<notin>| sl"
  shows "\<exists>bf' cutoff. validate_item s (to_placement ids pl) (fset_of_list R) sj sa sl used bf None = (bf', None, Inr (cutoff, [])) \<and>
    seated_so_far s now D (Q @ [pl]) bf'"
proof -
  let ?n = "pp_node pl"
  obtain jr rec where jr: "fmlookup (jobs s) (pp_job pl) = Some jr" "jr_state jr = Queued \<or> is_reseat s (fset_of_list R) jr"
    and rec: "fmlookup (nodes s) ?n = Some rec" "nd_preemptible_only (nr_node rec) \<longrightarrow> effective_preemptible (quota_entities s) (jr_spec jr)"
      "fits_within (pp_requested pl) (nd_capacity (nr_node rec))"
    and adm: "admission_admits (admission_at s ?n) (jr_spec jr) now (po_abort_grace (policy s)) \<noteq> AdmissionRefused"
    using ok(1) by (auto simp: seat_ok_def)
  have bfs: "bc_now bf = now" "bc_horizons bf = node_horizons s D" "bc_used bf = used_capacity_memo s"
    using bf by (simp_all add: seated_so_far_def)
  have verdict: "node_admits rec (jr_spec jr) (bc_now bf) (policy s) (case fmlookup (bc_horizons bf) ?n of None \<Rightarrow> HorizonUnbounded | Some h \<Rightarrow> h) =
      admission_admits (admission_at s ?n) (jr_spec jr) now (po_abort_grace (policy s))"
    using admission_lookup [OF rec(1) D [OF rec(1)]] by (simp add: node_admits_def bfs)
  have entity: "\<exists>q. fmlookup (quota_entities s) (j_quota_entity (jr_spec jr)) = Some q" using known jr(1) by (auto simp: entities_known_def)
  show ?thesis
  proof (cases "admission_admits (admission_at s ?n) (jr_spec jr) now (po_abort_grace (policy s))")
    case AdmissionOpen
    then have "\<not> is_backfill (admission_at s ?n)"
      by (auto simp: admission_admits_def is_backfill_def split: node_admission.splits option.splits if_splits)
    then show ?thesis
      using AdmissionOpen jr rec new entity verdict seated_elsewhere [OF bf]
      by (auto simp: validate_item_def validate_placement_def to_placement_def Let_def)
  next
    case (AdmissionBackfill t)
    then have b: "is_backfill (admission_at s ?n)"
      by (auto simp: admission_admits_def is_backfill_def split: node_admission.splits option.splits if_splits)
    have "fits_within (pp_requested pl) (res_sub (free_capacity s ?n (Some (bc_used bf))) (memo_get (bc_seated bf) ?n))"
      using fit [OF b] bf b by (simp add: seated_so_far_def)
    then show ?thesis
      using AdmissionBackfill jr rec new entity verdict seated_here [OF bf b]
      by (auto simp: validate_item_def validate_placement_def to_placement_def Let_def)
  qed (use adm in simp)
qed

lemma placements_valid:
  assumes "\<forall>pl \<in> set P. seat_ok s now R pl \<and> pp_preemptions pl = []" "entities_known s" "seated_so_far s now D Q bf"
    "\<forall>pl \<in> set P. \<forall>rec. fmlookup (nodes s) (pp_node pl) = Some rec \<longrightarrow> asks_horizon rec \<longrightarrow> pp_node pl |\<in>| D"
    "backfills_fit s (Q @ P)" "distinct (map pp_job P)" "\<forall>pl \<in> set P. pp_job pl |\<notin>| sj" "fresh_ids s mint (k + length P)"
    "fset sa \<subseteq> (\<lambda>i. fst (mint i)) ` {..<k}" "fset sl \<subseteq> (\<lambda>i. snd (mint i)) ` {..<k}"
  shows "\<exists>acc. validate_placements s (map (\<lambda>(i, p). to_placement (mint i) p) (enumerate k P)) idx (fset_of_list R) sj sa sl used bf None = ([], acc)"
  using assms
proof (induction P arbitrary: k Q bf sj sa sl idx)
  case (Cons pl P)
  note prems = Cons.prems
  have k: "fst (mint k) |\<notin>| sa" "snd (mint k) |\<notin>| sl" "fmlookup (attempts s) (fst (mint k)) = None"
    "fmlookup (allocations s) (snd (mint k)) = None"
  proof -
    note ids = prems(8) [unfolded fresh_ids_def]
    have "fst (mint i) \<noteq> fst (mint k)" "snd (mint i) \<noteq> snd (mint k)" if "i < k" for i
      using that inj_on_eq_iff [OF conjunct1 [OF ids], of i k] inj_on_eq_iff [OF conjunct1 [OF conjunct2 [OF ids]], of i k] by simp_all
    then have "fst (mint k) \<notin> (\<lambda>i. fst (mint i)) ` {..<k}" "snd (mint k) \<notin> (\<lambda>i. snd (mint i)) ` {..<k}" by fastforce+
    then show "fst (mint k) |\<notin>| sa" "snd (mint k) |\<notin>| sl" using prems(9,10) by blast+
    show "fmlookup (attempts s) (fst (mint k)) = None" "fmlookup (allocations s) (snd (mint k)) = None" using ids by simp_all
  qed
  have fit: "fits_within (pp_requested pl) (room s [] Q (pp_node pl))" if "is_backfill (admission_at s (pp_node pl))"
    using prems(5) [unfolded backfills_fit_def, rule_format, of "length Q"] that by (simp add: nth_append)
  have pl: "seat_ok s now R pl" "pp_preemptions pl = []" "pp_job pl |\<notin>| sj"
    and D: "\<And>rec. fmlookup (nodes s) (pp_node pl) = Some rec \<Longrightarrow> asks_horizon rec \<Longrightarrow> pp_node pl |\<in>| D"
    using prems(1,4,7) by simp_all
  obtain bf' cutoff where item: "validate_item s (to_placement (mint k) pl) (fset_of_list R) sj sa sl used bf None = (bf', None, Inr (cutoff, []))"
    and bf': "seated_so_far s now D (Q @ [pl]) bf'"
    using item_valid [OF pl(1,2) prems(2,3) _ _ pl(3) k(3,1,4,2), where used = used] D fit by metis
  have "\<exists>acc. validate_placements s (map (\<lambda>(i, p). to_placement (mint i) p) (enumerate (Suc k) P)) (idx + 1) (fset_of_list R)
      (finsert (pp_job pl) sj) (finsert (fst (mint k)) sa) (finsert (snd (mint k)) sl) used bf' None = ([], acc)"
  proof (rule Cons.IH [OF _ prems(2) bf'])
    show "\<forall>pl' \<in> set P. pp_job pl' |\<notin>| finsert (pp_job pl) sj"
    proof
      fix pl' assume "pl' \<in> set P"
      then have "pp_job pl' \<in> set (map pp_job P)" "pp_job pl' |\<notin>| sj" using prems(7) by simp_all
      then show "pp_job pl' |\<notin>| finsert (pp_job pl) sj" using prems(6) by auto
    qed
    show "fset (finsert (fst (mint k)) sa) \<subseteq> (\<lambda>i. fst (mint i)) ` {..<Suc k}"
      "fset (finsert (snd (mint k)) sl) \<subseteq> (\<lambda>i. snd (mint i)) ` {..<Suc k}" using prems(9,10) by (auto simp: lessThan_Suc)
  qed (use prems in simp_all)
  then show ?case using item by (auto simp: to_placement_def)
qed simp

section \<open>Acceptance\<close>

text \<open>The command of a proposal: its placements, its targets, and what it does not ask for.\<close>

lemma command_placement:
  "q \<in> set (cp_placements (to_commit_placements mint pr)) \<longleftrightarrow>
     (\<exists>i < length (pr_placements pr). q = to_placement (mint i) (pr_placements pr ! i))"
  by (auto simp: to_commit_placements_def in_set_enumerate_eq image_iff Bex_def)

lemma command_plain:
  assumes "\<forall>pl \<in> set (pr_placements pr). pp_preemptions pl = []"
  shows "preempt_check_for_batch s (to_commit_placements mint pr) = None"
proof -
  have "pl_preemptions q = []" if "q \<in> set (cp_placements (to_commit_placements mint pr))" for q
    using that assms unfolding command_placement by (auto simp: to_placement_def)
  then have "preempt_targets (to_commit_placements mint pr) = {||}"
    by (simp add: preempt_targets_def fset_eq_iff fset_of_list_elem)
  then show ?thesis by (simp add: preempt_check_for_batch_def)
qed

lemma concat_mapI: "q \<in> set xs \<Longrightarrow> x \<in> set (f q) \<Longrightarrow> x \<in> set (concat (map f xs))"
  by auto

lemma command_drained:
  assumes "pl \<in> set (pr_placements pr)" "fmlookup (nodes s) (pp_node pl) = Some rec" "asks_horizon rec"
  shows "pp_node pl |\<in>| drained_targets s (to_commit_placements mint pr)"
proof -
  obtain i where "i < length (pr_placements pr)" "pl = pr_placements pr ! i" using assms(1) by (auto simp: in_set_conv_nth)
  then have "to_placement (mint i) pl \<in> set (cp_placements (to_commit_placements mint pr))" unfolding command_placement by blast
  moreover have "pp_node pl \<in> set (map as_node (pl_allocations (to_placement (mint i) pl)))" by (simp add: to_placement_def)
  ultimately have "pp_node pl \<in> set (concat (map (\<lambda>p. map as_node (pl_allocations p)) (cp_placements (to_commit_placements mint pr))))"
    by (rule concat_mapI)
  then show ?thesis using assms(2,3) by (simp add: drained_targets_def fset_of_list_elem asks_horizon_def)
qed

lemma accepted_batch:
  assumes b: "batch_ok s now R P" and c: "calm s" and known: "entities_known s" and ids: "fresh_ids s mint (length P)"
    and pr: "pr_now pr = now" "pr_revocations pr = R" "pr_placements pr = P"
  shows "\<exists>s' evs. commit_placements (to_commit_placements mint pr) s = (s', Inr evs)"
proof -
  let ?c = "to_commit_placements mint pr" and ?used = "used_capacity_memo s"
  note rev = batch_revocable [OF b]
  have cmd: "cp_placements ?c = map (\<lambda>(i, p). to_placement (mint i) p) (enumerate 0 P)" "cp_revocations ?c = R" "cp_proposed_at ?c = now"
    by (simp_all add: to_commit_placements_def pr)
  obtain idx where revs: "validate_revocations s R 0 {||} = ([], idx, fset_of_list R)"
    using revocations_valid [of R s "{||}" 0] rev by (auto simp: revocable_def)
  have plain: "preempt_check_for_batch s ?c = None"
    using batch_plain [OF b] by (intro command_plain) (simp add: pr)
  let ?D = "drained_targets s ?c"
  let ?bf = "\<lparr>bc_now = now, bc_horizons = node_horizons s ?D, bc_used = ?used, bc_seated = fmempty\<rparr>"
  have D: "\<forall>pl \<in> set P. \<forall>rec. fmlookup (nodes s) (pp_node pl) = Some rec \<longrightarrow> asks_horizon rec \<longrightarrow> pp_node pl |\<in>| ?D"
    using command_drained [of _ pr s] by (simp add: pr)
  have start: "seated_so_far s now ?D [] ?bf"
    by (simp add: seated_so_far_def base_room_fold base_free memo_get_def [of fmempty] res_nat)
  obtain acc where "validate_placements s (cp_placements ?c) idx (fset_of_list R) {||} {||} {||} ?used ?bf None = ([], acc)"
    using placements_valid [OF _ known start D, where R = R and mint = mint and k = 0 and sj = "{||}" and sa = "{||}" and sl = "{||}" and idx = idx and used = ?used] batch_seat [OF b] batch_plain [OF b]
      batch_backfills [OF b] batch_distinct [OF b] ids unfolding cmd(1) by auto
  then have val: "batch_validation s ?c = (fset_of_list R, [], acc)"
    by (simp add: batch_validation_def cmd(2,3) revs plain Let_def)
  have "\<not> sim_rejected (simulate_batch s (free_capacity_map s) (pr_revocations pr) (pr_placements pr))"
    using calm_verdict [OF c rev, of P] batch_admissible [OF b] by (simp add: pr)
  then have "check_accrual_limit s ?c (fset_of_list R) ?used = None"
    using simulator_decides_as_apply [of pr s mint] rev by (simp add: pr revocable_def)
  then show ?thesis by (simp add: commit_placements_def val case_prod_unfold Let_def)
qed

section \<open>The proposal of a pass\<close>

lemma funded_length: "length (snd (fold batch_placement P acc)) = length (snd acc) + length P"
proof (induction P arbitrary: acc)
  case (Cons p P)
  have "length (snd (batch_placement p acc)) = Suc (length (snd acc))"
    by (cases acc) (simp add: batch_placement_def Let_def split: option.split)
  then show ?case using Cons by simp
qed simp

lemma expected_length: "length (bs_funded (simulate_batch s base R P)) = length P"
  by (simp add: simulate_batch_def Let_def case_prod_unfold funded_length)

lemma expect_ignored:
  assumes "length fs = length P"
  shows "map (\<lambda>(i, p). to_placement (mint i) p) (enumerate k (map (\<lambda>(pl, b). pl\<lparr>pp_expect_funded := b\<rparr>) (zip P fs))) =
    map (\<lambda>(i, p). to_placement (mint i) p) (enumerate k P)"
  using assms
proof (induction P arbitrary: fs k)
  case (Cons pl P)
  obtain b bs where "fs = b # bs" using Cons.prems by (cases fs) auto
  then show ?case using Cons by (simp add: to_placement_def)
qed simp

lemma proposal_command:
  "to_commit_placements mint (into_proposal p) = to_commit_placements mint
     \<lparr>pr_against_version = version (pa_snapshot p), pr_now = pa_now p, pr_revocations = pa_revocations p, pr_placements = pa_placements p\<rparr>"
  by (simp add: to_commit_placements_def into_proposal_def Let_def expect_ignored simulate_pass_def expected_length)

lemma proposal_jobs:
  "map pp_job (pr_placements (into_proposal p)) = map pp_job (pa_placements p)" "pr_revocations (into_proposal p) = pa_revocations p"
proof -
  have "length fs = length P \<Longrightarrow> map pp_job (map (\<lambda>(pl, b). pl\<lparr>pp_expect_funded := b\<rparr>) (zip P fs)) = map pp_job P" for P and fs :: "bool list"
    by (induction P fs rule: list_induct2') auto
  from this [OF expected_length] show "map pp_job (pr_placements (into_proposal p)) = map pp_job (pa_placements p)"
    by (simp add: into_proposal_def Let_def simulate_pass_def)
qed (simp add: into_proposal_def Let_def)

lemma schedule_pass:
  fixes F :: "'f f64"
  assumes ok: "snapshot_ok s" "nodes_keyed s" and cfg: "cf_max_preempting_placements_per_cycle config = 0"
  obtains p :: "'f pass" where "pass_ok s now p" "schedule F config s now = into_proposal p"
proof -
  let ?p0 = "pass_new F s now config"
  note start = pass_new_ok [OF ok cfg, of now F]
  have "\<forall>(j, al, n) \<in> set (accrual_entries s). accrues s al j n"
    by (rule accrual_entries_accrue [OF calm_core [OF snapshot_calm [OF ok(1)]]])
  moreover have "pa_placements ?p0 = []" by (simp add: pass_new_def Let_def case_prod_unfold)
  ultimately have "pass_ok s now (replan_existing_accruals F ?p0)" "jobs_placed (replan_existing_accruals F ?p0) \<subseteq> accruing_jobs s"
    using replan_loop_ok [OF ok(1), of now "(?p0, 0)" "accrual_entries s" "{||}" F] start model_snapshot [OF pass_model [OF start]]
    by (simp_all add: replan_existing_accruals_def)
  then have "pass_ok s now (seat_candidates F (replan_existing_accruals F ?p0))" by (rule seat_candidates_ok [OF ok(1)])
  then show thesis by (rule that) (simp add: schedule_def)
qed

lemma schedule_accepted:
  fixes F :: "'f f64"
  assumes ok: "snapshot_ok s" "nodes_keyed s" "entities_known s" and cfg: "cf_max_preempting_placements_per_cycle config = 0"
    and ids: "fresh_ids s mint (length (pr_placements (schedule F config s now)))"
  shows "\<exists>s' evs. commit_placements (to_commit_placements mint (schedule F config s now)) s = (s', Inr evs)"
proof -
  obtain p :: "'f pass" where p: "pass_ok s now p" "schedule F config s now = into_proposal p"
    using schedule_pass [OF ok(1,2) cfg, of now F] .
  have "length (pr_placements (into_proposal p)) = length (pa_placements p)"
    by (simp add: into_proposal_def Let_def simulate_pass_def expected_length)
  then show ?thesis
    using accepted_batch [OF pass_batch [OF p(1)] snapshot_calm [OF ok(1)] ok(3), of mint] ids model_now [OF pass_model [OF p(1)]]
    by (simp add: p(2) proposal_command)
qed

section \<open>Orderly snapshots\<close>

text \<open>
  What the pass relies on besides the invariants of the log: one accrual a node, that fits the capacity of
  its node, and none on a node an operator drains to a deadline.
\<close>

definition orderly :: "state_machine \<Rightarrow> bool" where
  "orderly s \<longleftrightarrow> single_accruals s \<and>
     (\<forall>al r rec. fmlookup (allocations s) al = Some r \<longrightarrow> kstate r = Accruing \<longrightarrow> fmlookup (nodes s) (knode r) = Some rec \<longrightarrow>
        fits_within (krequested r) (nd_capacity (nr_node rec)) \<and>
        (\<forall>d. nd_drain (nr_node rec) = Some d \<longrightarrow> dr_deadline d = None \<or> nr_draining rec))"

lemma orderly_snapshot:
  assumes "orderly s" "core {} s"
  shows "snapshot_ok s"
  unfolding snapshot_ok_def calm_def
proof (intro conjI allI impI)
  fix n al assume al: "accruing_on s n al"
  show "\<not> is_backfill (admission_at s n)"
  proof
    assume "is_backfill (admission_at s n)"
    then obtain rec d t where "fmlookup (nodes s) n = Some rec" "nd_drain (nr_node rec) = Some d" "dr_deadline d = Some t"
      "\<not> nr_draining rec" by (rule accruing_backfill [OF al])
    then show False using assms(1) al by (fastforce simp: orderly_def accruing_on_def)
  qed
qed (use assms in \<open>auto simp: orderly_def\<close>)

end
