(* ===== verification/Pass_Bound.thy ===== *)
theory Pass_Bound
  imports Pass_Loop
begin

text \<open>
  How much one pass may emit. Every step adds at most one placement, a lend adds the borrower and the one
  accrual it sets back, and each preempting placement is paid for from the pass's budget.
\<close>

definition preempting :: "proposed_placement list \<Rightarrow> nat" where
  "preempting pls = length (filter (\<lambda>pl. pp_preemptions pl \<noteq> []) pls)"

definition yields :: "nat \<Rightarrow> 'f pass \<Rightarrow> 'f pass \<Rightarrow> bool" where
  "yields k p p' \<longleftrightarrow> pa_max_placements p' = pa_max_placements p \<and>
     length (pa_placements p') \<le> length (pa_placements p) + k \<and>
     preempting (pa_placements p') + pa_preempting_left p' \<le> preempting (pa_placements p) + pa_preempting_left p"

lemma preempting_append [simp]: "preempting (xs @ ys) = preempting xs + preempting ys"
  by (simp add: preempting_def)

lemma preempting_simps [simp]:
  "preempting [] = 0" "preempting (pl # pls) = (if pp_preemptions pl = [] then 0 else 1) + preempting pls"
  by (simp_all add: preempting_def)

lemma yields_refl: "yields k p p"
  by (simp add: yields_def)

lemma yields_weaken: "yields k p p' \<Longrightarrow> k \<le> k' \<Longrightarrow> yields k' p p'"
  by (auto simp: yields_def)

lemma yields_trans: "yields k p p' \<Longrightarrow> yields k' p' p'' \<Longrightarrow> yields (k + k') p p''"
  by (auto simp: yields_def)

lemma update_node_yields [simp]:
  "pa_max_placements (update_node i f p) = pa_max_placements p" "pa_placements (update_node i f p) = pa_placements p"
  "pa_preempting_left (update_node i f p) = pa_preempting_left p"
  by (simp_all add: update_node_def)

lemma revoke_yields [simp]:
  "pa_max_placements (revoke_accrual_on_source n al p) = pa_max_placements p"
  "pa_placements (revoke_accrual_on_source n al p) = pa_placements p"
  "pa_preempting_left (revoke_accrual_on_source n al p) = pa_preempting_left p"
  by (simp_all add: revoke_accrual_on_source_def split: option.split prod.split)

lemma job_score_yields: "yields 0 p (fst (job_score F jr p))"
  by (simp add: job_score_def yields_def split: prod.split)

lemma try_preempt_yields: "yields 1 p (fst (try_preempt F b natural p))"
  by (auto simp: try_preempt_def yields_def push_placement_def Let_def split: option.splits)

lemma seat_yields:
  "yields 1 p (reseat_accrual j al n r i p)" "yields 1 p (fst (try_improve_accrual_bound j al n i r p))"
  "yields 1 p (seat_funded j r i f p)" "yields 1 p (fst (open_accrual_on j i r p))"
  by (simp_all add: reseat_accrual_def try_improve_accrual_bound_def seat_funded_def open_accrual_on_def yields_def
      push_placement_def Let_def)

lemma improve_yields: "yields 1 (fst st) (fst (improve_accrual F j jr al n st))"
proof -
  obtain p scans where st: "st = (p, scans)" by (cases st)
  have "yields 1 p (fst (try_preempt F b natural (fst (job_score F jr p))))" for b natural
    using yields_trans [OF job_score_yields try_preempt_yields] by simp
  moreover have "yields 1 p (fst (try_improve_accrual_bound j al n i r (fst (try_preempt F b natural (fst (job_score F jr p))))))"
    if "\<not> snd (try_preempt F b natural (fst (job_score F jr p)))" for i r b natural
  proof -
    have "fst (try_preempt F b natural q) = q" if "\<not> snd (try_preempt F b natural q)" for q
      using that by (auto simp: try_preempt_def Let_def split: if_splits option.splits)
    then show ?thesis using that yields_trans [OF job_score_yields seat_yields(2)] by simp
  qed
  ultimately show ?thesis
    by (simp add: st improve_accrual_def Let_def case_prod_unfold yields_refl seat_yields [simplified] split: option.split)
qed

lemma replan_yields: "yields 1 (fst st) (fst (replan_accrual F j al n st))"
  using improve_yields [of st]
  by (cases st) (simp add: replan_accrual_def Let_def yields_refl seat_yields [simplified] split: option.split)

lemma replan_loop_yields:
  "length (pa_placements (fst st)) \<le> pa_max_placements (fst st) \<Longrightarrow>
     yields (pa_max_placements (fst st) - length (pa_placements (fst st))) (fst st) (replan_loop F es seen st)"
proof (induction F es seen st rule: replan_loop.induct)
  case (2 F j al n rest seen st)
  show ?case
  proof (cases "j |\<in>| seen \<or> length (pa_placements (fst st)) \<ge> pa_max_placements (fst st) \<or> fcard (finsert j seen) > pa_max_placements (fst st)")
    case True
    then show ?thesis using 2 yields_refl by (auto simp: Let_def)
  next
    case False
    let ?st = "replan_accrual F j al n st"
    have one: "yields 1 (fst st) (fst ?st)" by (rule replan_yields)
    then have "yields (pa_max_placements (fst ?st) - length (pa_placements (fst ?st))) (fst ?st) (replan_loop F rest (finsert j seen) ?st)"
      using 2(2) False by (auto simp: Let_def yields_def)
    then show ?thesis using one False by (auto simp: yields_def Let_def)
  qed
qed (simp add: yields_refl)

lemma select_yields: "yields 0 p (fst (select_candidates F p))"
proof -
  have "yields 0 (fst acc) (fst (rank_job F kv acc))" for kv acc
    by (cases kv; cases acc) (simp add: rank_job_def Let_def case_prod_unfold job_score_yields yields_refl)
  then have "yields 0 (fst acc) (fst (fold (rank_job F) kvs acc))" for kvs acc
  proof (induction kvs arbitrary: acc)
    case (Cons kv kvs)
    then show ?case using yields_trans [OF Cons.prems [of acc kv] Cons.IH [OF Cons.prems]] by simp
  qed (simp add: yields_refl)
  from this [of "(p, [])"] show ?thesis
    by (simp add: select_candidates_def Let_def case_prod_unfold yields_refl)
qed

lemma lend_yields: "yields 2 p (fst (try_backfill F j spec pre r req p))"
proof (cases "j_max_runtime spec")
  case (Some rt)
  have one: "length (nm_accruals (pa_nodes p ! i)) \<le> 1"
    if "best_node F pre (pa_nodes p) (may_lend p (ts_sat_add (pa_now p) rt) pre r req) key = Some i" for i key
    using best_node_sound [OF that] by (simp add: may_lend_def)
  then have "yields 2 p (fst (try_backfill F j spec pre r req p))"
    using Some by (auto simp: try_backfill_def Let_def yields_def push_placement_def preempting_def yields_refl dest!: one split: option.split)
  then show ?thesis .
qed (simp add: try_backfill_def yields_refl)

lemma unplaced_same: "\<not> snd (try_preempt F b natural p) \<Longrightarrow> fst (try_preempt F b natural p) = p"
  by (auto simp: try_preempt_def Let_def split: if_splits option.splits)

lemma accrue_yields: "yields 1 p (accrue_or_preempt F rank spec pre r req p)"
  using unplaced_same [of F _ _ p]
  by (simp add: accrue_or_preempt_def Let_def case_prod_unfold yields_refl seat_yields [simplified] try_preempt_yields [simplified]
      split: option.split)

lemma unseated_same:
  "\<not> snd (try_free_fit F j spec pre r req p) \<Longrightarrow> fst (try_free_fit F j spec pre r req p) = p"
  "\<not> snd (try_drain_backfill F j spec pre r req p) \<Longrightarrow> fst (try_drain_backfill F j spec pre r req p) = p"
  "\<not> snd (try_backfill F j spec pre r req p) \<Longrightarrow> fst (try_backfill F j spec pre r req p) = p"
  by (auto simp: try_free_fit_def try_drain_backfill_def try_backfill_def Let_def split: if_splits option.splits)

lemma fit_yields:
  "yields 1 p (fst (try_free_fit F j spec pre r req p))" "yields 1 p (fst (try_drain_backfill F j spec pre r req p))"
  by (simp_all add: try_free_fit_def try_drain_backfill_def yields_refl seat_yields [simplified] split: option.split)

lemma seat_candidate_yields: "yields 2 p (seat_candidate F rank p)"
  using unseated_same [of F "rk_job rank" _ _ _ _ p]
  by (simp add: seat_candidate_def Let_def case_prod_unfold yields_refl lend_yields fit_yields [THEN yields_weaken]
      accrue_yields [THEN yields_weaken] split: option.split)

lemma seat_loop_yields:
  "length (pa_placements p) \<le> pa_max_placements p + 1 \<Longrightarrow>
     yields (pa_max_placements p + 1 - length (pa_placements p)) p (seat_loop F ranks p)"
proof (induction ranks arbitrary: p)
  case (Cons rank ranks)
  have step: "yields 2 p (seat_candidate F rank p)" by (rule seat_candidate_yields)
  show ?case
  proof (cases "length (pa_placements p) \<ge> pa_max_placements p")
    case False
    with step Cons.IH [of "seat_candidate F rank p"] show ?thesis by (auto simp: yields_def)
  qed (simp add: yields_refl)
qed (simp add: yields_refl)

lemma pass_yields:
  fixes config :: "'f scheduler_config" and F s now
  defines "p \<equiv> seat_candidates F (replan_existing_accruals F (pass_new F s now config))"
  shows "length (pa_placements p) \<le> cf_max_placements_per_cycle config + 1"
    "preempting (pa_placements p) \<le> cf_max_preempting_placements_per_cycle config"
proof -
  let ?p0 = "pass_new F s now config" and ?m = "cf_max_placements_per_cycle config"
  have p0: "pa_placements ?p0 = []" "pa_max_placements ?p0 = ?m" "pa_preempting_left ?p0 = cf_max_preempting_placements_per_cycle config"
    by (simp_all add: pass_new_def Let_def split: prod.split)
  have 1: "yields ?m ?p0 (replan_existing_accruals F ?p0)"
    using replan_loop_yields [of "(?p0, 0)" F "accrual_entries (pa_snapshot ?p0)" "{||}"] p0 by (simp add: replan_existing_accruals_def)
  define p1 where "p1 = fst (select_candidates F (replan_existing_accruals F ?p0))"
  have 2: "yields ?m ?p0 p1" using yields_trans [OF 1 select_yields] by (simp add: p1_def)
  have "yields (?m + 1 - length (pa_placements p1)) p1 p"
    using seat_loop_yields [of p1 F "snd (select_candidates F (replan_existing_accruals F ?p0))"] 2 p0
    by (simp add: p_def seat_candidates_def case_prod_unfold Let_def p1_def yields_def)
  then show "length (pa_placements p) \<le> ?m + 1" "preempting (pa_placements p) \<le> cf_max_preempting_placements_per_cycle config"
    using 2 p0 by (auto simp: yields_def)
qed

lemma proposal_yields:
  "length (pr_placements (into_proposal p)) \<le> length (pa_placements p)"
  "preempting (pr_placements (into_proposal p)) \<le> preempting (pa_placements p)"
proof -
  have "preempting (map (\<lambda>(pl, funded). pl\<lparr>pp_expect_funded := funded\<rparr>) (zip pls fs)) \<le> preempting pls" for pls :: "proposed_placement list" and fs
    by (induction pls fs rule: list_induct2') auto
  then show "preempting (pr_placements (into_proposal p)) \<le> preempting (pa_placements p)" by (simp add: into_proposal_def Let_def)
qed (simp add: into_proposal_def Let_def)

lemma schedule_yields:
  "length (pr_placements (schedule F config s now)) \<le> cf_max_placements_per_cycle config + 1"
  "preempting (pr_placements (schedule F config s now)) \<le> cf_max_preempting_placements_per_cycle config"
  unfolding schedule_def using le_trans [OF proposal_yields(1) pass_yields(1)] le_trans [OF proposal_yields(2) pass_yields(2)] .

end
