(* ===== verification/Pass_Moves.thy ===== *)
theory Pass_Moves
  imports Pass_Accept Pass_Bound "HOL-Library.Sublist"
begin

text \<open>
  What a pass moves, on any snapshot and with any configuration, preemption included. The invariant says
  that every revocation is of an accruing allocation, comes once, and comes with a placement of its job;
  that no job is placed twice; and that the accruals the model of a node still shows are accruals of the
  snapshot that the pass has not revoked.
\<close>

definition accruals_ok :: "state_machine \<Rightarrow> allocation_id list \<Rightarrow> 'f node_model \<Rightarrow> bool" where
  "accruals_ok s R nm \<longleftrightarrow> distinct (map sa_alloc (nm_accruals nm)) \<and>
     (\<forall>a \<in> set (nm_accruals nm). accrues s (sa_alloc a) (sa_job a) (nm_id nm) \<and> sa_alloc a \<notin> set R)"

definition queued_job :: "state_machine \<Rightarrow> job_id \<Rightarrow> bool" where
  "queued_job s j \<longleftrightarrow> (\<exists>jr. fmlookup (jobs s) j = Some jr \<and> jr_state jr = Queued)"

definition paired :: "state_machine \<Rightarrow> allocation_id list \<Rightarrow> job_id list \<Rightarrow> bool" where
  "paired s R js \<longleftrightarrow> distinct R \<and> distinct js \<and> (\<forall>al \<in> set R. \<exists>j n. accrues s al j n \<and> j \<in> set js) \<and>
     (\<forall>j \<in> set js. queued_job s j \<or> (\<exists>al \<in> set R. \<exists>n. accrues s al j n))"

definition indexed :: "'f pass \<Rightarrow> bool" where
  "indexed p \<longleftrightarrow> distinct (map nm_id (pa_nodes p)) \<and>
     (\<forall>n i. fmlookup (pa_node_index p) n = Some i \<longleftrightarrow> i < length (pa_nodes p) \<and> nm_id (pa_nodes p ! i) = n)"

definition moves_ok :: "state_machine \<Rightarrow> 'f pass \<Rightarrow> bool" where
  "moves_ok s p \<longleftrightarrow> pa_snapshot p = s \<and> indexed p \<and> paired s (pa_revocations p) (map pp_job (pa_placements p)) \<and>
     (\<forall>nm \<in> set (pa_nodes p). accruals_ok s (pa_revocations p) nm)"

section \<open>Jobs and revocations\<close>

lemma accruing_not_queued: "core {} s \<Longrightarrow> accrues s al j n \<Longrightarrow> \<not> queued_job s j"
  by (erule (1) accruing_job) (auto simp: queued_job_def)

lemma paired_seat: "paired s R js \<Longrightarrow> queued_job s j \<Longrightarrow> j \<notin> set js \<Longrightarrow> paired s R (js @ [j])"
  by (fastforce simp: paired_def)

lemma paired_fresh:
  assumes "core {} s" "paired s R js" "accrues s al j n" "al \<notin> set R"
  shows "j \<notin> set js"
proof
  assume "j \<in> set js"
  then obtain al' n' where "al' \<in> set R" "accrues s al' j n'"
    using assms(2) accruing_not_queued [OF assms(1,3)] by (auto simp: paired_def)
  then show False using accrues_job_fun [OF assms(1,3)] assms(4) by blast
qed

lemma paired_unrevoked: "paired s R js \<Longrightarrow> accrues s al j n \<Longrightarrow> j \<notin> set js \<Longrightarrow> al \<notin> set R"
  by (auto simp: paired_def dest: accrues_fun)

lemma paired_move:
  assumes "core {} s" "paired s R js" "accrues s al j n" "al \<notin> set R"
  shows "paired s (R @ [al]) (js @ [j])"
  using assms(2-4) paired_fresh [OF assms] by (fastforce simp: paired_def)

section \<open>The accruals of a node\<close>

lemma accruals_ok_cong: "nm_accruals nm' = nm_accruals nm \<Longrightarrow> nm_node nm' = nm_node nm \<Longrightarrow> accruals_ok s R nm' = accruals_ok s R nm"
  by (simp add: accruals_ok_def)

lemma remove_accrual_cases:
  "case remove_accrual al as of
     None \<Rightarrow> al \<notin> sa_alloc ` set as
   | Some (a, rest) \<Rightarrow> sa_alloc a = al \<and> set rest \<subseteq> set as \<and>
       (distinct (map sa_alloc as) \<longrightarrow> distinct (map sa_alloc rest) \<and> al \<notin> sa_alloc ` set rest)"
  by (induction as) (auto split: option.splits)

lemma pledge_survivors_subseq:
  "subseq (map (\<lambda>a. (sa_alloc a, sa_job a)) (snd (pledge_survivors free as))) (map (\<lambda>a. (sa_alloc a, sa_job a)) as)"
proof (induction as arbitrary: free)
  case (Cons a as)
  then show ?case by (auto simp: Let_def case_prod_unfold intro: list_emb_Cons)
qed simp

lemma pledge_survivors_names:
  assumes "a \<in> set (snd (pledge_survivors free as))"
  shows "\<exists>b \<in> set as. sa_alloc b = sa_alloc a \<and> sa_job b = sa_job a"
proof -
  obtain N where "map (\<lambda>a. (sa_alloc a, sa_job a)) (snd (pledge_survivors free as)) = nths (map (\<lambda>a. (sa_alloc a, sa_job a)) as) N"
    using pledge_survivors_subseq [of free as] by (auto simp: subseq_conv_nths)
  then have "(sa_alloc a, sa_job a) \<in> set (map (\<lambda>a. (sa_alloc a, sa_job a)) as)"
    using assms by (metis (mono_tags, lifting) image_eqI notin_set_nthsI set_map)
  then show ?thesis by auto
qed

lemma pledge_survivors_distinct:
  assumes "distinct (map sa_alloc as)"
  shows "distinct (map sa_alloc (snd (pledge_survivors free as)))"
proof -
  have "subseq (map fst (map (\<lambda>a. (sa_alloc a, sa_job a)) (snd (pledge_survivors free as))))
      (map fst (map (\<lambda>a. (sa_alloc a, sa_job a)) as))"
    by (rule subseq_map [OF pledge_survivors_subseq])
  then show ?thesis using assms by (auto simp: comp_def subseq_conv_nths)
qed

section \<open>One step\<close>

lemma moves_okD:
  assumes "moves_ok s p"
  shows "pa_snapshot p = s" "indexed p" "paired s (pa_revocations p) (map pp_job (pa_placements p))"
    "nm \<in> set (pa_nodes p) \<Longrightarrow> accruals_ok s (pa_revocations p) nm"
  using assms by (simp_all add: moves_ok_def)

text \<open>A change of one node that keeps what the node is and which accruals it shows.\<close>

definition same_accruals :: "('f node_model \<Rightarrow> 'f node_model) \<Rightarrow> bool" where
  "same_accruals f \<longleftrightarrow> (\<forall>nm. nm_node (f nm) = nm_node nm \<and> nm_accruals (f nm) = nm_accruals nm)"

lemma indexed_cong:
  assumes "indexed p" "pa_node_index p' = pa_node_index p" "map nm_id (pa_nodes p') = map nm_id (pa_nodes p)"
  shows "indexed p'"
proof -
  have len: "length (pa_nodes p') = length (pa_nodes p)" using arg_cong [OF assms(3), of length] by simp
  have "nm_id (pa_nodes p' ! i) = nm_id (pa_nodes p ! i)" if "i < length (pa_nodes p)" for i
    using arg_cong [OF assms(3), of "\<lambda>xs. xs ! i"] that len by simp
  then show ?thesis using assms len unfolding indexed_def by auto
qed

lemma update_ids:
  assumes "\<And>nm. nm_node (f nm) = nm_node nm"
  shows "map nm_id ((pa_nodes p)[i := f (pa_nodes p ! i)]) = map nm_id (pa_nodes p)"
  using assms by (cases "i < length (pa_nodes p)") (simp_all add: map_update list_update_same_conv list_update_beyond)

lemma update_accruals:
  assumes "\<forall>nm \<in> set N. accruals_ok s R nm" "same_accruals f"
  shows "\<forall>nm \<in> set (N[i := f (N ! i)]). accruals_ok s R nm"
proof (cases "i < length N")
  case True
  then have "accruals_ok s R (f (N ! i))"
    using assms by (simp add: same_accruals_def accruals_ok_cong [of "f (N ! i)" "N ! i"])
  then show ?thesis using assms(1) set_update_subset_insert [of N i "f (N ! i)"] by auto
qed (use assms in \<open>simp add: list_update_beyond\<close>)

lemma moves_seat:
  assumes ok: "moves_ok s p" and j: "queued_job s (pp_job pl)" "pp_job pl \<notin> jobs_placed p" and f: "same_accruals f"
    and p': "pa_snapshot p' = pa_snapshot p" "pa_node_index p' = pa_node_index p" "pa_revocations p' = pa_revocations p"
      "pa_placements p' = pa_placements p @ [pl]" "pa_nodes p' = (pa_nodes p)[i := f (pa_nodes p ! i)]"
  shows "moves_ok s p'"
proof -
  have "indexed p'"
    by (rule indexed_cong [OF moves_okD(2) [OF ok]]) (use f p' in \<open>simp_all add: update_ids same_accruals_def\<close>)
  moreover have "paired s (pa_revocations p') (map pp_job (pa_placements p'))"
    using paired_seat [OF moves_okD(3) [OF ok] j(1)] j(2) by (simp add: p')
  moreover have "\<forall>nm \<in> set (pa_nodes p'). accruals_ok s (pa_revocations p') nm"
    unfolding p' by (rule update_accruals [OF _ f]) (use moves_okD(4) [OF ok] in blast)
  ultimately show ?thesis using moves_okD(1) [OF ok] p'(1) by (simp add: moves_ok_def)
qed

lemma elsewhere:
  "accruals_ok s R nm \<Longrightarrow> accrues s al j source \<Longrightarrow> nm_id nm \<noteq> source \<Longrightarrow> accruals_ok s (R @ [al]) nm"
  by (auto simp: accruals_ok_def dest: accrues_fun)

lemma survivors:
  assumes nm: "accruals_ok s R nm" and rm: "remove_accrual al (nm_accruals nm) = Some (a, rest)"
  shows "accruals_ok s (R @ [al]) (nm\<lparr>nm_sim_free := f, nm_accruals := snd (pledge_survivors free rest)\<rparr>)"
proof -
  have rest: "set rest \<subseteq> set (nm_accruals nm)" "distinct (map sa_alloc rest)" "al \<notin> sa_alloc ` set rest"
    using remove_accrual_cases [of al "nm_accruals nm"] rm nm by (auto simp: accruals_ok_def)
  have "accrues s (sa_alloc b) (sa_job b) (nm_id nm) \<and> sa_alloc b \<notin> set (R @ [al])"
    if b: "b \<in> set (snd (pledge_survivors free rest))" for b
  proof -
    obtain c where c: "c \<in> set rest" "sa_alloc c = sa_alloc b" "sa_job c = sa_job b" using pledge_survivors_names [OF b] by blast
    then have "sa_alloc b \<noteq> al" using rest(3) by (metis imageI)
    moreover have "accrues s (sa_alloc c) (sa_job c) (nm_id nm)" "sa_alloc c \<notin> set R"
      using nm rest(1) c(1) by (auto simp: accruals_ok_def)
    ultimately show ?thesis using c by simp
  qed
  then show ?thesis using pledge_survivors_distinct [OF rest(2)] by (simp add: accruals_ok_def)
qed

text \<open>The revocation of an accrual at its source: it is shown nowhere afterwards.\<close>

lemma moves_revoke:
  assumes ok: "moves_ok s p" and al: "accrues s al j source"
  defines "p' \<equiv> revoke_accrual_on_source source al p"
  shows "pa_snapshot p' = s" "indexed p'" "pa_revocations p' = pa_revocations p" "pa_placements p' = pa_placements p"
    "\<forall>nm \<in> set (pa_nodes p'). accruals_ok s (pa_revocations p @ [al]) nm"
proof -
  have "(\<forall>nm \<in> set (pa_nodes p'). accruals_ok s (pa_revocations p @ [al]) nm) \<and> indexed p'"
  proof (cases "fmlookup (pa_node_index p) source")
    case None
    then have none: "nm_id nm \<noteq> source" if "nm \<in> set (pa_nodes p)" for nm
      using that moves_okD(2) [OF ok] unfolding indexed_def by (metis in_set_conv_nth option.distinct(1))
    have "accruals_ok s (pa_revocations p @ [al]) nm" if "nm \<in> set (pa_nodes p)" for nm
      using elsewhere [OF moves_okD(4) [OF ok that] al none [OF that]] .
    then show ?thesis using moves_okD(2) [OF ok] None by (simp add: p'_def revoke_accrual_on_source_def)
  next
    case (Some i)
    have i: "i < length (pa_nodes p)" "nm_id (pa_nodes p ! i) = source" and d: "distinct (map nm_id (pa_nodes p))"
      using Some moves_okD(2) [OF ok] by (auto simp: indexed_def)
    let ?nm = "pa_nodes p ! i"
    have nm: "accruals_ok s (pa_revocations p) ?nm" using moves_okD(4) [OF ok] i(1) by simp
    have other: "accruals_ok s (pa_revocations p @ [al]) nm" if "nm \<in> set (pa_nodes p)" "nm_id nm \<noteq> nm_id ?nm" for nm
      using elsewhere [OF moves_okD(4) [OF ok that(1)] al] that(2) i(2) by simp
    show ?thesis
    proof (cases "remove_accrual al (nm_accruals ?nm)")
      case None
      then have "accruals_ok s (pa_revocations p @ [al]) ?nm"
        using nm remove_accrual_cases [of al "nm_accruals ?nm"] by (auto simp: accruals_ok_def)
      then have "\<forall>nm \<in> set ((pa_nodes p)[i := ?nm]). accruals_ok s (pa_revocations p @ [al]) nm"
        by (rule update_all [OF d i(1)]) (rule other)
      then show ?thesis using moves_okD(2) [OF ok] Some None by (simp add: p'_def revoke_accrual_on_source_def)
    next
      case rm: (Some ar)
      obtain a rest where ar: "ar = (a, rest)" by (cases ar)
      define q where "q = pledge_survivors (res_add (nm_sim_free ?nm) (sa_funded a)) rest"
      define y where "y = ?nm\<lparr>nm_sim_free := fst q, nm_accruals := snd q\<rparr>"
      have p': "p' = update_node i (\<lambda>nm. nm\<lparr>nm_sim_free := fst q, nm_accruals := snd q\<rparr>) p"
        using Some rm ar by (simp add: p'_def revoke_accrual_on_source_def q_def case_prod_unfold Let_def)
      have y: "accruals_ok s (pa_revocations p @ [al]) y" unfolding y_def q_def by (rule survivors [OF nm rm [unfolded ar]])
      have "\<forall>nm \<in> set ((pa_nodes p)[i := y]). accruals_ok s (pa_revocations p @ [al]) nm"
        using y by (intro update_all [OF d i(1)]) (simp_all add: other)
      moreover have "indexed p'"
        by (rule indexed_cong [OF moves_okD(2) [OF ok]]) (simp_all add: p' update_node_def
            update_ids [of "\<lambda>nm. nm\<lparr>nm_sim_free := fst q, nm_accruals := snd q\<rparr>"])
      ultimately show ?thesis by (simp add: p' update_node_def y_def)
    qed
  qed
  then show "\<forall>nm \<in> set (pa_nodes p'). accruals_ok s (pa_revocations p @ [al]) nm" "indexed p'" by simp_all
  show "pa_snapshot p' = s" "pa_revocations p' = pa_revocations p" "pa_placements p' = pa_placements p"
    using moves_okD(1) [OF ok] by (simp_all add: p'_def revoke_accrual_on_source_def update_node_def split: option.split prod.split)
qed

lemma moves_move:
  assumes c: "core {} s" and ok: "moves_ok s p" and al: "accrues s al (pp_job pl) source" "al \<notin> set (pa_revocations p)"
    and f: "same_accruals f"
    and p': "pa_snapshot p' = pa_snapshot p1" "pa_node_index p' = pa_node_index p1" "pa_revocations p' = pa_revocations p @ [al]"
      "pa_placements p' = pa_placements p @ [pl]" "pa_nodes p' = (pa_nodes p1)[i := f (pa_nodes p1 ! i)]"
    and p1: "p1 = revoke_accrual_on_source source al p"
  shows "moves_ok s p'"
proof -
  note r = moves_revoke [OF ok al(1), folded p1]
  have "indexed p'"
    by (rule indexed_cong [OF r(2)]) (use f p' in \<open>simp_all add: update_ids same_accruals_def\<close>)
  moreover have "paired s (pa_revocations p') (map pp_job (pa_placements p'))"
    using paired_move [OF c moves_okD(3) [OF ok] al] by (simp add: p')
  moreover have "\<forall>nm \<in> set (pa_nodes p'). accruals_ok s (pa_revocations p') nm"
    unfolding p' by (rule update_accruals [OF r(5) f])
  ultimately show ?thesis using r(1) p'(1) by (simp add: moves_ok_def)
qed

lemma same_accruals_steps [simp]:
  "same_accruals (take_free requested)" "same_accruals (\<lambda>nm. take_free requested (add_pending requested nm))"
  "same_accruals (\<lambda>nm. nm\<lparr>nm_sim_free := g nm\<rparr>)"
  "same_accruals (\<lambda>nm. take_free requested (nm\<lparr>nm_pending_accruals := h nm\<rparr>))"
  by (simp_all add: same_accruals_def take_free_def add_pending_def Let_def)

section \<open>The steps of the pass\<close>

lemma reseat_moves:
  assumes "core {} s" "moves_ok s p" "accrues s al j source" "al \<notin> set (pa_revocations p)"
  shows "moves_ok s (reseat_accrual j al source requested i p)"
proof -
  note r = moves_revoke [OF assms(2,3)]
  show ?thesis
    by (rule moves_move [OF assms(1,2) _ assms(4) same_accruals_steps(1) _ _ _ _ _ refl])
      (use assms(3) r in \<open>simp_all add: reseat_accrual_def Let_def update_node_def push_placement_def\<close>)
qed

lemma improve_moves:
  assumes "core {} s" "moves_ok s p" "accrues s al j source" "al \<notin> set (pa_revocations p)"
  shows "moves_ok s (fst (try_improve_accrual_bound j al source i requested p))"
proof (cases "sim_rejected (simulate_pass p (pa_revocations p @ [al]) (push_placement j i requested False [] p))")
  case True
  then show ?thesis using assms(2) by (simp add: try_improve_accrual_bound_def Let_def)
next
  case False
  note r = moves_revoke [OF assms(2,3)]
  show ?thesis
    by (rule moves_move [OF assms(1,2) _ assms(4) same_accruals_steps(2) _ _ _ _ _ refl])
      (use assms(3) r False in \<open>simp_all add: try_improve_accrual_bound_def Let_def update_node_def push_placement_def\<close>)
qed

lemma seat_funded_moves:
  assumes "moves_ok s p" "queued_job s j" "j \<notin> jobs_placed p" "same_accruals f"
  shows "moves_ok s (seat_funded j requested i f p)"
  by (rule moves_seat [OF assms(1) _ _ assms(4)])
    (use assms(2,3) in \<open>simp_all add: seat_funded_def Let_def update_node_def push_placement_def\<close>)

lemma open_accrual_moves:
  assumes "moves_ok s p" "queued_job s j" "j \<notin> jobs_placed p"
  shows "moves_ok s (fst (open_accrual_on j i requested p))"
proof (cases "sim_rejected (simulate_pass p (pa_revocations p) (push_placement j i requested False [] p))")
  case True
  then show ?thesis using assms(1) by (simp add: open_accrual_on_def Let_def)
next
  case False
  show ?thesis
    by (rule moves_seat [OF assms(1) _ _ same_accruals_steps(4)])
      (use assms(2,3) False in \<open>simp_all add: open_accrual_on_def Let_def update_node_def push_placement_def\<close>)
qed

text \<open>A preempting placement seats a queued job or moves an accruing one.\<close>

definition may_benefit :: "state_machine \<Rightarrow> 'f pass \<Rightarrow> 'f beneficiary \<Rightarrow> bool" where
  "may_benefit s p b \<longleftrightarrow> (case be_reseat b of
       None \<Rightarrow> queued_job s (be_job_id b) \<and> be_job_id b \<notin> jobs_placed p
     | Some (source, al) \<Rightarrow> accrues s al (be_job_id b) source \<and> al \<notin> set (pa_revocations p))"

lemma preempt_moves:
  assumes c: "core {} s" and ok: "moves_ok s p" and b: "may_benefit s p b"
  shows "moves_ok s (fst (try_preempt F b natural p))"
proof (cases "fst (try_preempt F b natural p) = p")
  case False
  then obtain pn where pn: "best_plan F p b natural = Some pn" by (auto simp: try_preempt_def split: option.splits if_splits)
  let ?req = "j_requests (be_job b)"
  let ?R = "pa_revocations p @ (case be_reseat b of None \<Rightarrow> [] | Some (_, al) \<Rightarrow> [al])"
  let ?P = "push_placement (be_job_id b) (pn_idx pn) ?req False (pn_victims pn) p"
  have run: "fst (try_preempt F b natural p) =
      (let p' = (case be_reseat b of None \<Rightarrow> p
           | Some (source, al) \<Rightarrow> (let p = revoke_accrual_on_source source al p in p\<lparr>pa_revoked_nodes := finsert source (pa_revoked_nodes p)\<rparr>));
         p' = p'\<lparr>pa_revocations := ?R, pa_placements := ?P\<rparr>;
         p' = update_node (pn_idx pn) (\<lambda>nm. take_free ?req (add_pending ?req nm)) p'
       in p'\<lparr>pa_placed_nodes := finsert (nm_id (pa_nodes p ! pn_idx pn)) (pa_placed_nodes p'),
            pa_evicted_nodes := finsert (nm_id (pa_nodes p ! pn_idx pn)) (pa_evicted_nodes p'), pa_spot := pn_spot pn,
            pa_preempting_left := pa_preempting_left p' - 1\<rparr>)"
    using False pn by (auto simp: try_preempt_def Let_def split: if_splits)
  show ?thesis
  proof (cases "be_reseat b")
    case None
    then show ?thesis
      unfolding run
      by (intro moves_seat [OF ok _ _ same_accruals_steps(2)])
        (use b in \<open>simp_all add: may_benefit_def Let_def update_node_def push_placement_def\<close>)
  next
    case (Some r)
    obtain source al where r: "r = (source, al)" by (cases r)
    have al: "accrues s al (be_job_id b) source" "al \<notin> set (pa_revocations p)" using b Some r by (simp_all add: may_benefit_def)
    note rv = moves_revoke [OF ok al(1)]
    show ?thesis
      unfolding run
      by (rule moves_move [OF c ok _ al(2) same_accruals_steps(2) _ _ _ _ _ refl])
        (use al(1) Some r rv in \<open>simp_all add: Let_def update_node_def push_placement_def\<close>)
  qed
qed (use ok in simp)

lemma preempt_jobs: "jobs_placed (fst (try_preempt F b natural p)) \<subseteq> insert (be_job_id b) (jobs_placed p)"
  by (auto simp: try_preempt_def Let_def update_node_def push_placement_def split: option.splits)

section \<open>Re-planning\<close>

lemma moves_penalties [simp]: "moves_ok s (p\<lparr>pa_penalties := m\<rparr>) = moves_ok s p"
  by (simp add: moves_ok_def indexed_def)

text \<open>What one entry of the accrual queue may lead to.\<close>

definition replanned :: "state_machine \<Rightarrow> job_id \<Rightarrow> 'f pass \<Rightarrow> 'f pass \<Rightarrow> bool" where
  "replanned s j p p' \<longleftrightarrow> moves_ok s p' \<and> jobs_placed p' \<subseteq> insert j (jobs_placed p)"

lemma improve_accrual_moves:
  assumes c: "core {} s" and ok: "moves_ok s p" and al: "accrues s al j source" "al \<notin> set (pa_revocations p)"
  shows "replanned s j p (fst (improve_accrual F j jr al source (p, scans)))"
proof -
  obtain m v where sc: "job_score F jr p = (p\<lparr>pa_penalties := m\<rparr>, v)"
    using job_score_penalties [of F jr p] by (metis prod.collapse)
  let ?p = "p\<lparr>pa_penalties := m\<rparr>"
  have bound: "replanned s j p (fst (try_improve_accrual_bound j al source i requested q))"
    if "q = p \<or> q = ?p" for q i requested
    using that improve_moves [OF c _ al(1), of q i requested] ok al(2) improve_jobs [of j al source i requested q]
    by (auto simp: replanned_def)
  have pre: "replanned s j p (fst (try_preempt F b natural ?p))" if "be_job_id b = j" "be_reseat b = Some (source, al)" for b natural
    using preempt_moves [OF c, of ?p b F natural] ok al that preempt_jobs [of F b natural ?p] by (simp add: replanned_def may_benefit_def)
  have "replanned s j p p" "replanned s j p ?p" using ok by (auto simp: replanned_def)
  then show ?thesis
    using bound pre unplaced_same [of F _ _ ?p]
    by (simp add: improve_accrual_def Let_def sc case_prod_unfold split: option.split)
qed

lemma replan_accrual_moves:
  assumes c: "core {} s" and ok: "moves_ok s p" and al: "accrues s al j source" "j \<notin> jobs_placed p"
  shows "replanned s j p (fst (replan_accrual F j al source (p, scans)))"
proof -
  have new: "al \<notin> set (pa_revocations p)" using paired_unrevoked [OF moves_okD(3) [OF ok] al(1)] al(2) by simp
  have "replanned s j p (reseat_accrual j al source requested i p)" for requested i
    using reseat_moves [OF c ok al(1) new] by (simp add: replanned_def reseat_jobs)
  moreover have "replanned s j p p" using ok by (auto simp: replanned_def)
  ultimately show ?thesis
    using improve_accrual_moves [OF c ok al(1) new] by (simp add: replan_accrual_def Let_def split: option.split)
qed

lemma replan_loop_moves:
  assumes "core {} s" "moves_ok s (fst st)" "\<forall>(j, al, n) \<in> set es. accrues s al j n"
    "jobs_placed (fst st) \<subseteq> fset seen" "jobs_placed (fst st) \<subseteq> accruing_jobs s"
  shows "moves_ok s (replan_loop F es seen st) \<and> jobs_placed (replan_loop F es seen st) \<subseteq> accruing_jobs s"
  using assms(2-)
proof (induction es arbitrary: seen st)
  case (Cons e es)
  obtain j al source where e: "e = (j, al, source)" by (cases e)
  obtain p scans where st: "st = (p, scans)" by (cases st)
  show ?case
  proof (cases "j |\<in>| seen \<or> length (pa_placements p) \<ge> pa_max_placements p \<or> fcard (finsert j seen) > pa_max_placements p")
    case True
    then show ?thesis using Cons e st by (auto simp: Let_def)
  next
    case False
    have al: "accrues s al j source" and new: "j \<notin> jobs_placed p" using Cons.prems False e st by auto
    have step: "moves_ok s (fst (replan_accrual F j al source st))"
      "jobs_placed (fst (replan_accrual F j al source st)) \<subseteq> insert j (jobs_placed p)"
      using replan_accrual_moves [OF assms(1) _ al new, of F scans] Cons.prems(1) by (simp_all add: st replanned_def)
    have sub: "insert j (jobs_placed p) \<subseteq> fset (finsert j seen)" "insert j (jobs_placed p) \<subseteq> accruing_jobs s"
      using Cons.prems(3,4) al by (auto simp: st)
    note step(1) order_trans [OF step(2) sub(1)] order_trans [OF step(2) sub(2)]
    then show ?thesis using Cons.IH [of "replan_accrual F j al source st" "finsert j seen"] Cons.prems(2) False e st
      by (simp add: Let_def)
  qed
qed simp

section \<open>Seating\<close>

lemma lend_moves:
  fixes p :: "'f pass"
  assumes c: "core {} s" and ok: "moves_ok s p" and j: "queued_job s j" "j \<notin> jobs_placed p"
  shows "moves_ok s (fst (try_backfill F j spec pre requested required p)) \<and>
    jobs_placed (fst (try_backfill F j spec pre requested required p)) \<subseteq> insert j (jobs_placed p) \<union> accruing_jobs s"
proof (cases "fst (try_backfill F j spec pre requested required p) = p")
  case True
  then show ?thesis using ok by auto
next
  case False
  then obtain rt i where rt: "j_max_runtime spec = Some rt"
    and best: "best_node F pre (pa_nodes p) (may_lend p (ts_sat_add (pa_now p) rt) pre requested required)
        (\<lambda>nm. borrowed_fraction F (nm_sim_free nm) requested (nd_capacity (nm_node nm))) = Some i"
    by (auto simp: try_backfill_def split: option.splits if_splits)
  let ?nm = "pa_nodes p ! i"
  have i: "i < length (pa_nodes p)" "nm_accruals ?nm \<noteq> []" "\<not> length (nm_accruals ?nm) > 1"
    using best_node_sound [OF best] by (simp_all add: may_lend_def)
  then obtain a where a: "nm_accruals ?nm = [a]" by (metis One_nat_def length_0_conv length_Suc_conv less_one linorder_neqE_nat)
  have mem: "?nm \<in> set (pa_nodes p)" using i(1) by simp
  have al: "accrues s (sa_alloc a) (sa_job a) (nm_id ?nm)" "sa_alloc a \<notin> set (pa_revocations p)"
    using moves_okD(4) [OF ok mem] a by (simp_all add: accruals_ok_def)
  define p' where "p' = fst (try_backfill F j spec pre requested required p)"
  have p': "pa_snapshot p' = pa_snapshot p" "pa_node_index p' = pa_node_index p" "pa_revocations p' = pa_revocations p @ [sa_alloc a]"
    "map pp_job (pa_placements p') = (map pp_job (pa_placements p) @ [j]) @ [sa_job a]"
    "pa_nodes p' = (pa_nodes p)[i := lend_node requested ?nm]"
    using False rt best a by (auto simp: p'_def try_backfill_def Let_def push_placement_def update_node_def split: if_splits)
  have keep: "nm_node (lend_node requested nm) = nm_node nm" for nm :: "'f node_model"
    by (simp add: lend_node_def Let_def case_prod_unfold)
  have "indexed p'"
    by (rule indexed_cong [OF moves_okD(2) [OF ok] p'(2)]) (simp add: p'(5) update_ids [of "lend_node requested"] keep)
  moreover have "paired s (pa_revocations p') (map pp_job (pa_placements p'))"
    unfolding p' using paired_move [OF c paired_seat [OF moves_okD(3) [OF ok] j(1)] al(1)] al(2) j(2) by simp
  moreover have "\<forall>nm \<in> set (pa_nodes p'). accruals_ok s (pa_revocations p') nm"
    unfolding p'
  proof (rule update_all [OF _ i(1)])
    show "distinct (map nm_id (pa_nodes p))" using moves_okD(2) [OF ok] by (simp add: indexed_def)
    show "accruals_ok s (pa_revocations p @ [sa_alloc a]) (lend_node requested ?nm)"
      by (simp add: accruals_ok_def lend_node_def Let_def case_prod_unfold)
  qed (rule elsewhere [OF moves_okD(4) [OF ok] al(1)])
  ultimately have "moves_ok s p'" using moves_okD(1) [OF ok] p'(1) by (simp add: moves_ok_def)
  moreover have "jobs_placed p' = insert (sa_job a) (insert j (jobs_placed p))" using arg_cong [OF p'(4), of set] by auto
  ultimately show ?thesis using al(1) by (auto simp: p'_def)
qed

text \<open>What seating a candidate may lead to.\<close>

definition seated_one :: "state_machine \<Rightarrow> job_id \<Rightarrow> 'f pass \<Rightarrow> 'f pass \<Rightarrow> bool" where
  "seated_one s j p p' \<longleftrightarrow> moves_ok s p' \<and> jobs_placed p' \<subseteq> insert j (jobs_placed p) \<union> accruing_jobs s"

lemma seated_oneI: "moves_ok s p' \<Longrightarrow> jobs_placed p' \<subseteq> insert j (jobs_placed p) \<Longrightarrow> seated_one s j p p'"
  unfolding seated_one_def by blast

lemma fit_moves:
  assumes "moves_ok s p" "queued_job s j" "j \<notin> jobs_placed p"
  shows "seated_one s j p (fst (try_free_fit F j spec pre requested required p))"
    "seated_one s j p (fst (try_drain_backfill F j spec pre requested required p))"
proof -
  have "seated_one s j p (seat_funded j requested i f p)" if "same_accruals f" for i f
    by (rule seated_oneI [OF seat_funded_moves [OF assms that]]) (simp add: seat_funded_jobs)
  moreover have "seated_one s j p p" by (rule seated_oneI [OF assms(1)]) blast
  ultimately show "seated_one s j p (fst (try_free_fit F j spec pre requested required p))"
    "seated_one s j p (fst (try_drain_backfill F j spec pre requested required p))"
    by (simp_all add: try_free_fit_def try_drain_backfill_def split: option.split)
qed

lemma accrue_moves:
  assumes c: "core {} s" and ok: "moves_ok s p" and j: "queued_job s (rk_job rank)" "rk_job rank \<notin> jobs_placed p"
  shows "seated_one s (rk_job rank) p (accrue_or_preempt F rank spec pre requested required p)"
proof -
  have open_jobs: "jobs_placed (fst (open_accrual_on (rk_job rank) i requested p)) \<subseteq> insert (rk_job rank) (jobs_placed p)" for i
    by (auto simp: open_accrual_on_def Let_def update_node_def push_placement_def)
  have acc: "seated_one s (rk_job rank) p (fst (open_accrual_on (rk_job rank) i requested p))" for i
    by (rule seated_oneI [OF open_accrual_moves [OF ok j] open_jobs])
  have pre: "seated_one s (rk_job rank) p (fst (try_preempt F b natural p))" if "be_job_id b = rk_job rank" "be_reseat b = None" for b natural
    by (rule seated_oneI [OF preempt_moves [OF c ok]]) (use that j preempt_jobs [of F b natural p] in \<open>simp_all add: may_benefit_def\<close>)
  have "seated_one s (rk_job rank) p p" by (rule seated_oneI [OF ok]) blast
  then show ?thesis
    using acc pre unplaced_same [of F _ _ p] by (simp add: accrue_or_preempt_def Let_def case_prod_unfold split: option.split)
qed

lemma seat_candidate_moves:
  assumes c: "core {} s" and ok: "moves_ok s p" and new: "rk_job rank \<notin> jobs_placed p"
  shows "seated_one s (rk_job rank) p (seat_candidate F rank p)"
proof (cases "queued_job s (rk_job rank)")
  case True
  then obtain jr where jr: "fmlookup (jobs s) (rk_job rank) = Some jr" "jr_state jr = Queued" by (auto simp: queued_job_def)
  note q = True new
  have "seated_one s (rk_job rank) p (fst (try_backfill F (rk_job rank) spec pre requested required p))" for spec pre requested required
    using lend_moves [OF c ok q] by (simp add: seated_one_def)
  then show ?thesis
    using jr moves_okD(1) [OF ok] fit_moves [OF ok q] accrue_moves [OF c ok q] unseated_same [of F "rk_job rank" _ _ _ _ p]
    by (simp add: seat_candidate_def Let_def case_prod_unfold)
next
  case False
  then have "seat_candidate F rank p = p"
    using moves_okD(1) [OF ok] by (auto simp: seat_candidate_def queued_job_def split: option.split)
  then show ?thesis using seated_oneI [OF ok] by auto
qed

lemma seat_loop_moves:
  assumes "core {} s" "moves_ok s p" "distinct (map rk_job ranks)"
    "\<forall>rk \<in> set ranks. rk_job rk \<notin> jobs_placed p \<and> rk_job rk \<notin> accruing_jobs s"
  shows "moves_ok s (seat_loop F ranks p)"
  using assms(2-)
proof (induction ranks arbitrary: p)
  case (Cons rk ranks)
  have "rk_job rk \<notin> jobs_placed p" using Cons.prems(3) by simp
  note step = seat_candidate_moves [OF assms(1) Cons.prems(1) this, of F, unfolded seated_one_def]
  show ?case
  proof (cases "length (pa_placements p) \<ge> pa_max_placements p")
    case False
    have "\<forall>rk' \<in> set ranks. rk_job rk' \<notin> jobs_placed (seat_candidate F rk p) \<and> rk_job rk' \<notin> accruing_jobs s"
    proof
      fix rk' assume rk': "rk' \<in> set ranks"
      then have "rk_job rk' \<noteq> rk_job rk" using Cons.prems(2) by (metis distinct.simps(2) image_eqI list.simps(9) set_map)
      moreover have "rk_job rk' \<notin> jobs_placed p" "rk_job rk' \<notin> accruing_jobs s" using Cons.prems(3) rk' by simp_all
      ultimately show "rk_job rk' \<notin> jobs_placed (seat_candidate F rk p) \<and> rk_job rk' \<notin> accruing_jobs s" using step by blast
    qed
    then show ?thesis using Cons.IH [of "seat_candidate F rk p"] Cons.prems(2) step False by simp
  qed (use Cons.prems(1) in simp)
qed simp

section \<open>The whole pass\<close>

lemma with_projected_names:
  "map (\<lambda>a. (sa_alloc a, sa_job a)) (with_projected evs as) = map (\<lambda>a. (sa_alloc a, sa_job a)) as"
proof -
  have "length ts = length as \<Longrightarrow> map (\<lambda>a. (sa_alloc a, sa_job a)) (map (\<lambda>(a, t). a\<lparr>sa_projected_ready := t\<rparr>) (zip as ts)) =
      map (\<lambda>a. (sa_alloc a, sa_job a)) as" for ts
    by (induction as ts rule: list_induct2') auto
  then show ?thesis by (simp add: with_projected_def)
qed

lemma node_accruals_names:
  assumes "core {} s"
  shows "distinct (map sa_alloc (node_accruals s n))" "a \<in> set (node_accruals s n) \<Longrightarrow> accrues s (sa_alloc a) (sa_job a) n"
proof -
  note q = node_queue_queued [OF pool_of [OF assms], of n]
  have "map sa_alloc (node_accruals s n) = filter (\<lambda>al. fmlookup (allocations s) al \<noteq> None) (map snd (node_queue s n))"
    by (simp add: node_accruals_def List.map_filter_def filter_map comp_def case_prod_unfold)
      (auto intro: map_cong filter_cong)
  then show "distinct (map sa_alloc (node_accruals s n))" using q by (simp add: queued_on_def)
  assume "a \<in> set (node_accruals s n)"
  then show "accrues s (sa_alloc a) (sa_job a) n"
    using q by (fastforce simp: node_accruals_def List.map_filter_def queued_on_def accrues_def)
qed

lemma node_model_accruals:
  "node_model_of s events victims horizons base n rec = Some nm \<Longrightarrow>
     nm_accruals nm = with_projected (sort_release_events (fm_get n events)) (node_accruals s n)"
  by (auto simp: node_model_of_def Let_def split: if_splits)

lemma pass_new_moves:
  assumes "core {} s" "nodes_keyed s"
  shows "moves_ok s (pass_new F s now config)"
proof -
  let ?p = "pass_new F s now config"
  note start = pass_start [OF assms(2), where F = F and now = now and config = config]
  have fields: "pa_snapshot ?p = s" "pa_revocations ?p = []" "pa_placements ?p = []"
    by (simp_all add: pass_new_def Let_def case_prod_unfold)
  have "accruals_ok s [] nm" if nm: "nm \<in> set (pa_nodes ?p)" for nm
  proof -
    obtain evs where evs: "nm_accruals nm = with_projected evs (node_accruals s (nm_id nm))"
      using nm unfolding start(1) start_model_def by (blast dest: node_model_accruals)
    have "map sa_alloc (nm_accruals nm) = map sa_alloc (node_accruals s (nm_id nm))"
      using arg_cong [OF with_projected_names [of evs "node_accruals s (nm_id nm)"], of "map fst"] by (simp add: evs comp_def)
    moreover have "\<exists>b \<in> set (node_accruals s (nm_id nm)). sa_alloc b = sa_alloc a \<and> sa_job b = sa_job a" if "a \<in> set (nm_accruals nm)" for a
    proof -
      have "(sa_alloc a, sa_job a) \<in> set (map (\<lambda>a. (sa_alloc a, sa_job a)) (with_projected evs (node_accruals s (nm_id nm))))"
        using that unfolding evs by (auto intro: image_eqI)
      then show ?thesis unfolding with_projected_names by auto
    qed
    ultimately show ?thesis using node_accruals_names [OF assms(1)] unfolding accruals_ok_def by (metis empty_iff list.set(1))
  qed
  moreover have "indexed ?p" using start(2,3) by (simp add: indexed_def)
  ultimately show ?thesis by (simp add: moves_ok_def fields paired_def)
qed

lemma schedule_moves:
  fixes F :: "'f f64" and now config
  assumes c: "core {} s" and keyed: "nodes_keyed s"
  defines "pr \<equiv> schedule F config s now"
  shows "paired s (pr_revocations pr) (map pp_job (pr_placements pr))"
proof -
  let ?p0 = "pass_new F s now config"
  define p1 where "p1 = replan_existing_accruals F ?p0"
  note start = pass_new_moves [OF c keyed, of F now config]
  have "\<forall>(j, al, n) \<in> set (accrual_entries s). accrues s al j n" by (rule accrual_entries_accrue [OF c])
  moreover have "pa_placements ?p0 = []" by (simp add: pass_new_def Let_def case_prod_unfold)
  ultimately have p1: "moves_ok s p1" "jobs_placed p1 \<subseteq> accruing_jobs s"
    using replan_loop_moves [OF c, of "(?p0, 0)" "accrual_entries s" "{||}" F] start moves_okD(1) [OF start]
    by (simp_all add: p1_def replan_existing_accruals_def)
  obtain p2 ranks where sel: "select_candidates F p1 = (p2, ranks)" by fastforce
  note cand = select_candidates_ok [OF sel]
  obtain m where p2: "p2 = p1\<lparr>pa_penalties := m\<rparr>" using cand(1) by blast
  have "rk_job rk \<notin> accruing_jobs s" if "rk \<in> set ranks" for rk
    using cand(3) that moves_okD(1) [OF p1(1)] accruing_not_queued [OF c] by (auto simp: queued_job_def)
  then have "\<forall>rk \<in> set ranks. rk_job rk \<notin> jobs_placed p2 \<and> rk_job rk \<notin> accruing_jobs s"
    using p1(2) unfolding p2 by (simp del: mem_Collect_eq) blast
  then have "moves_ok s (seat_loop F ranks p2)" using p1(1) by (intro seat_loop_moves [OF c _ cand(2)]) (simp_all add: p2)
  then have ok: "moves_ok s (seat_candidates F p1)" by (simp add: seat_candidates_def sel)
  then show ?thesis using moves_okD(3) [OF ok] by (simp add: pr_def schedule_def proposal_jobs flip: p1_def)
qed

end
