(* ===== verification/Sched_Scenario.thy ===== *)
theory Sched_Scenario
  imports Scenario Pass_Moves
begin

text \<open>
  Concrete inputs for the properties of a scheduling pass: floating point numbers replaced by integers, a
  configuration without preemption, and minted identifiers that do not collide with those of the scenario.
\<close>

definition demo_f64 :: "int f64" where
  "demo_f64 = \<lparr>f_of_nat = int, f_of_int = (\<lambda>x. x), f_infinity = 2 ^ 62, f_add = (+), f_sub = (-), f_mul = (*), f_div = (div),
     f_max = max, f_min = min, f_ln = (\<lambda>x. x), f_powf = (\<lambda>x y. x ^ nat y), f_lt = (<), f_le = (\<le>), f_eq = (=), f_total_lt = (<),
     f_is_finite = (\<lambda>x. x < 2 ^ 62), f_as_i64 = (\<lambda>x. x)\<rparr>"

definition demo_config :: "int scheduler_config" where
  "demo_config = (scheduler_config_default demo_f64)\<lparr>cf_max_preempting_placements_per_cycle := 0\<rparr>"

definition demo_mint :: "nat \<Rightarrow> attempt_id \<times> allocation_id" where
  "demo_mint i = (Tid (100 + of_nat i), Tid (100 + of_nat i))"

text \<open>One node of four cores and one queued job of three: the pass seats it.\<close>

definition demo_single :: state_machine where
  "demo_single = demo_ready\<lparr>jobs := fmupd (Tid 1) (demo_job_record 1) fmempty, version := 3\<rparr>"

definition demo_model :: "'f node_model" where
  "demo_model = \<lparr>nm_node = nr_node demo_node_record, nm_admission = AdmitOpen, nm_sim_free = cores 4, nm_accruals = [],
     nm_events = [], nm_pending_accruals = [], nm_victims = []\<rparr>"

text \<open>The placed scenario, its node drained to a deadline a day away.\<close>

definition demo_deadline :: timestamp where
  "demo_deadline = ts_of (86400 * 1000000)"

definition demo_drain :: command where
  "demo_drain = SetNodeDrain \<lparr>sd_node = Tid 1, sd_drain = Some \<lparr>dr_requested_at = ts_of 0, dr_deadline = Some demo_deadline\<rparr>,
     sd_actor = None, sd_updated_at = ts_of 0\<rparr>"

definition demo_drained_record :: node_record where
  "demo_drained_record = demo_node_record\<lparr>nr_node := (nr_node demo_node_record)\<lparr>nd_drain :=
     Some \<lparr>dr_requested_at = ts_of 0, dr_deadline = Some demo_deadline\<rparr>\<rparr>\<rparr>"

definition demo_drained :: state_machine where
  "demo_drained = demo_placed\<lparr>nodes := fmupd (Tid 1) demo_drained_record fmempty, version := 6\<rparr>"

text \<open>The placed scenario with a second node, empty: the accruing job can move there.\<close>

definition demo_second :: register_node_cmd where
  "demo_second = \<lparr>rg_node = Tid 2, rg_capacity = cores 4, rg_labels = fmempty, rg_registered_at = ts_of 0,
     rg_service_addr = None, rg_host_facts = None, rg_detected_capacity = None, rg_draining = False,
     rg_preemptible_only = False, rg_interruption_deadline = None\<rparr>"

definition demo_wide :: state_machine where
  "demo_wide = demo_placed\<lparr>nodes := fmupd (Tid 2) (new_node demo_second) (fmupd (Tid 1) demo_node_record fmempty), version := 6\<rparr>"

lemma demo_config_fields [simp]:
  "cf_max_preempting_placements_per_cycle demo_config = 0" "cf_max_placements_per_cycle demo_config = 512"
  by (simp_all add: demo_config_def scheduler_config_default_def)

lemma demo_single_bounded: "log_bounded [demo_node, demo_account, demo_submit 1]"
  by (simp add: placements_of_def demo_node_def demo_account_def demo_submit_def)

lemma demo_single_run: "run_log ext_nil [demo_node, demo_account, demo_submit 1] state_default = demo_single"
  by (simp add: run_log_def demo_single_def demo_ready_def demo_register [unfolded state_default_def]
      demo_configure demo_submitted state_default_def)

lemma demo_single_fields [simp]:
  "nodes demo_single = fmupd (Tid 1) demo_node_record fmempty"
  "quota_entities demo_single = fmupd (Tid 1) (demo_entity_record (usage_new (ts_of 0))) fmempty"
  "jobs demo_single = fmupd (Tid 1) (demo_job_record 1) fmempty"
  "attempts demo_single = fmempty" "allocations demo_single = fmempty" "accrual_queue demo_single = fmempty"
  "policy demo_single = policy_default" "next_allocation_seq demo_single = 0" "version demo_single = 3"
  by (simp_all add: demo_single_def)

lemma demo_orderly: "orderly demo_single"
  by (simp add: orderly_def single_accruals_def accruing_on_def)

lemma demo_fresh: "fresh_ids demo_single demo_mint 513"
proof -
  have un: "unat (100 + of_nat i :: 128 word) = 100 + i" if "i < 513" for i
    using that by (simp add: unat_word_ariths unat_of_nat)
  have inj: "inj_on (\<lambda>i. 100 + of_nat i :: 128 word) {..<513}"
    by (rule inj_onI) (metis un lessThan_iff add_left_cancel)
  show ?thesis using inj by (simp add: fresh_ids_def demo_mint_def inj_on_def)
qed

lemma demo_base: "free_capacity_map demo_single = fmupd (Tid 1) (cores 4) fmempty"
  by (simp add: free_capacity_map_def om_eval memo_get_def)

lemma demo_pass_start:
  fixes F :: "int f64" and now
  defines "p \<equiv> pass_new F demo_single now demo_config"
  shows "pa_nodes p = [demo_model]" "pa_snapshot p = demo_single" "pa_placements p = []" "pa_revocations p = []"
   "pa_max_candidates p = 4096" "pa_max_placements p = 512" "pa_base_free p = fmupd (Tid 1) (cores 4) fmempty"
  by (simp_all add: p_def pass_new_def Let_def case_prod_unfold candidate_victims_def om_eval demo_base node_model_of_def
     collect_release_events_def node_horizons_def drained_nodes_def node_accruals_def node_queue_def with_projected_def List.map_filter_def
     sort_release_events_def fm_get_def memo_get_def node_admission_of_def demo_model_def demo_config_def scheduler_config_default_def)

lemma demo_fit:
  fixes p :: "int pass"
  assumes "pa_nodes p = [demo_model]"
  shows "try_free_fit F j spec pre (cores 3) fmempty p = (seat_funded j (cores 3) 0 (take_free (cores 3)) p, True)"
  using assms by (simp add: try_free_fit_def best_node_def better_key_def demo_model_def model_admits_def spot_admits_def capable_def node_satisfies_labels_def om_eval)

lemma demo_replan:
  fixes p :: "int pass"
  assumes "pa_snapshot p = demo_single"
  shows "replan_existing_accruals F p = p"
  using assms by (simp add: replan_existing_accruals_def accrual_entries_def om_eval List.map_filter_def)

lemma demo_sim:
  "bs_funded (simulate_batch demo_single (fmupd (Tid 1) (cores 4) fmempty) []
     [\<lparr>pp_job = Tid 1, pp_node = Tid 1, pp_requested = cores 3, pp_expect_funded = b, pp_preemptions = []\<rparr>]) = [True]"
  by (simp add: simulate_batch_def simulate_nodes_def batch_touched_def batch_node_def batch_placement_def Let_def case_prod_unfold
      node_queue_def om_eval memo_get_def List.map_filter_def add_revoked_funded_def sim_queue_def)

lemma demo_spec:
  "required_labels (jr_spec (demo_job_record j)) = fmempty" "j_requests (jr_spec (demo_job_record j)) = cores 3"
  by (simp_all add: required_labels_def demo_job_record_def with_notice_def demo_job_def om_eval)

lemma demo_pass:
  fixes F :: "int f64"
  shows "pr_placements (schedule F demo_config demo_single now) =
    [\<lparr>pp_job = Tid 1, pp_node = Tid 1, pp_requested = cores 3, pp_expect_funded = True, pp_preemptions = []\<rparr>]"
proof -
  define p where "p = pass_new F demo_single now demo_config"
  note start = demo_pass_start [of F now, folded p_def]
  obtain q rk where q: "select_candidates F p = (q, [rk])" "rk_job rk = Tid 1" "pa_nodes q = [demo_model]" "pa_snapshot q = demo_single" "pa_placements q = []"
      "pa_revocations q = []" "pa_max_placements q = 512" "pa_base_free q = fmupd (Tid 1) (cores 4) fmempty"
    using start by (simp add: select_candidates_def rank_job_def job_score_def Let_def case_prod_unfold om_eval sort_by_def)
  have "seat_candidate F rk q = seat_funded (Tid 1) (cores 3) 0 (take_free (cores 3)) q"
    using q by (simp add: seat_candidate_def demo_fit demo_spec Let_def)
  then have "schedule F demo_config demo_single now = into_proposal (seat_funded (Tid 1) (cores 3) 0 (take_free (cores 3)) q)"
    using q start by (simp add: schedule_def demo_replan [OF start(2)] seat_candidates_def flip: p_def)
  then show ?thesis using q
    by (simp add: into_proposal_def seat_funded_def push_placement_def Let_def simulate_pass_def update_node_def demo_sim demo_model_def demo_node_record_def)
qed

lemma demo_drained_fields [simp]:
  "nodes demo_drained = fmupd (Tid 1) demo_drained_record fmempty" "allocations demo_drained = allocations demo_placed"
  "accrual_queue demo_drained = accrual_queue demo_placed" "policy demo_drained = policy_default"
  "attempts demo_drained = attempts demo_placed"
  by (simp_all add: demo_drained_def)

lemma demo_drain_run: "run_log ext_nil (demo_log @ [demo_drain]) state_default = demo_drained"
proof -
  have lead: "\<not> ts_duration_since demo_deadline (ts_of 0) < deadline_drain_min_lead policy_default"
    by (simp add: demo_deadline_def deadline_drain_min_lead_def policy_default_def dur_cmp dur_sat_add_def dur_from_secs_def dur_from_mins_def
        DEFAULT_PREEMPTION_NOTICE_CAP_def DEFAULT_DRAIN_CLEANUP_MARGIN_def ts_clamp_def i64_sat_def time_const_defs)
  have "fmupd (Tid 1) demo_drained_record (fmupd (Tid 1) demo_node_record fmempty) = fmupd (Tid 1) demo_drained_record fmempty"
    by (rule fmap_ext) simp
  then have "step_of ext_nil demo_drain demo_placed = demo_drained"
    using lead by (simp add: demo_drain_def apply_command_def dispatch_def set_node_drain_def authorize_def Let_def put_drain_def
        demo_drained_def demo_drained_record_def)
  then show ?thesis using demo_log_run by (simp add: run_log_def)
qed

lemma demo_drained_bounded: "log_bounded (demo_log @ [demo_drain])"
  using demo_log_bounded by (simp add: placements_of_def demo_drain_def)

lemma demo_drained_model:
  fixes F :: "'f f64"
  shows "\<exists>nm \<in> set (pa_nodes (pass_new F demo_drained now config)). nm_accruals nm \<noteq> [] \<and> is_backfill (nm_admission nm)"
proof -
  have victims: "candidate_victims F demo_drained now horizon w memo = (memo, fmempty)" for horizon w memo
    by (simp add: candidate_victims_def candidate_victim_def om_eval)
  have "sweep_projected_ready evs [need] \<noteq> []" for evs need
    by (metis length_0_conv list.simps(3) sweep_length)
  then obtain nm :: "'f node_model" where "node_model_of demo_drained (collect_release_events demo_drained) fmempty
      (node_horizons demo_drained (drained_nodes demo_drained)) (free_capacity_map demo_drained) (Tid 1) demo_drained_record = Some nm"
      "nm_accruals nm \<noteq> []" "is_backfill (nm_admission nm)"
    by (simp add: node_model_of_def Let_def node_admission_of_def demo_drained_record_def demo_node_record_def
        node_accruals_def node_queue_def with_projected_def List.map_filter_def is_backfill_def om_eval)
  then show ?thesis by (simp add: pass_new_def Let_def List.map_filter_def victims om_eval)
qed

section \<open>A pass that moves an accrual\<close>

lemma demo_wide_fields [simp]:
  "nodes demo_wide = fmupd (Tid 2) (new_node demo_second) (fmupd (Tid 1) demo_node_record fmempty)"
  "allocations demo_wide = allocations demo_placed" "attempts demo_wide = attempts demo_placed" "jobs demo_wide = jobs demo_placed"
  "accrual_queue demo_wide = accrual_queue demo_placed" "policy demo_wide = policy_default"
  by (simp_all add: demo_wide_def)

lemma demo_wide_run: "run_log ext_nil (demo_log @ [RegisterNode demo_second]) state_default = demo_wide"
proof -
  have "step_of ext_nil (RegisterNode demo_second) demo_placed = demo_wide"
    by (simp add: apply_command_def dispatch_def register_node_def demo_second_def pledge_node_def node_queue_def Let_def om_eval
        demo_wide_def)
  then show ?thesis using demo_log_run by (simp add: run_log_def)
qed

lemma demo_wide_bounded: "log_bounded (demo_log @ [RegisterNode demo_second])"
  using demo_log_bounded by (simp add: placements_of_def)

lemma demo_wide_free: "free_capacity_map demo_wide = fmupd (Tid 2) (cores 4) (fmupd (Tid 1) (res_sub (cores 4) (cores 4)) fmempty)"
  by (simp add: free_capacity_map_def demo_second_def new_node_def memo_add_def memo_get_def fm_or_insert_def om_eval)

lemma push_elsewhere: "k \<noteq> k' \<Longrightarrow> fm_get k (fm_push k' v m) = fm_get k m"
  by (simp add: fm_get_def fm_push_def fm_or_insert_def split: option.split)

lemma get_empty: "fm_get k fmempty = []"
  by (simp add: fm_get_def)

lemma demo_wide_start:
  fixes F :: "'f f64" and now config
  defines "p \<equiv> pass_new F demo_wide now config"
  obtains m a where "pa_nodes p = [m, demo_model\<lparr>nm_node := nr_node (new_node demo_second)\<rparr>]" "nm_id m = Tid 1"
    "nm_accruals m = [a]" "sa_alloc a = Tid 2"
    "pa_node_index p = fmupd (Tid 2) 1 (fmupd (Tid 1) 0 fmempty)" "pa_snapshot p = demo_wide" "pa_placements p = []"
    "pa_revocations p = []" "pa_placed_nodes p = {||}" "pa_revoked_nodes p = {||}"
    "pa_max_placements p = cf_max_placements_per_cycle config" "pa_base_free p = free_capacity_map demo_wide"
proof -
  have victims: "candidate_victims F demo_wide now horizon w memo = (memo, fmempty)" for horizon w memo
    by (simp add: candidate_victims_def candidate_victim_def om_eval)
  obtain m :: "'f node_model" where m: "node_model_of demo_wide (collect_release_events demo_wide) fmempty
      (node_horizons demo_wide (drained_nodes demo_wide)) (free_capacity_map demo_wide) (Tid 1) demo_node_record = Some m"
      "nm_node m = nr_node demo_node_record"
    by (simp add: node_model_of_def Let_def node_admission_of_def)
  obtain x where x: "node_accruals demo_wide (Tid 1) = [x]" "sa_alloc x = Tid 2"
    by (simp add: node_accruals_def node_queue_def List.map_filter_def om_eval)
  obtain evs where "nm_accruals m = with_projected evs [x]" using node_model_accruals [OF m(1)] x(1) by simp
  then have "map (\<lambda>a. (sa_alloc a, sa_job a)) (nm_accruals m) = [(Tid 2, sa_job x)]" using with_projected_names [of evs "[x]"] x(2) by simp
  then obtain a where a: "nm_accruals m = [a]" "sa_alloc a = Tid 2" by (cases "nm_accruals m") auto
  have no_release: "fm_get (Tid 2) (collect_release_events demo_wide) = []"
    by (simp add: collect_release_events_def om_eval push_elsewhere get_empty split: option.split)
  have m2: "node_model_of demo_wide (collect_release_events demo_wide) fmempty
      (node_horizons demo_wide (drained_nodes demo_wide)) (free_capacity_map demo_wide) (Tid 2) (new_node demo_second) =
      Some (demo_model\<lparr>nm_node := nr_node (new_node demo_second)\<rparr> :: 'f node_model)"
    using no_release by (simp add: node_model_of_def Let_def node_admission_of_def new_node_def demo_second_def node_accruals_def node_queue_def
        with_projected_def List.map_filter_def demo_wide_free memo_get_def demo_model_def sort_release_events_def get_empty om_eval)
  show thesis
    by (rule that [of m a]) (use m a m2 in \<open>simp_all add: p_def pass_new_def Let_def List.map_filter_def victims demo_node_record_def om_eval\<close>)
qed

lemma demo_wide_entries: "accrual_entries demo_wide = [(Tid 2, Tid 2, Tid 1)]"
  by (simp add: accrual_entries_def List.map_filter_def om_eval demo_allocation_def seat_allocation_def demo_place_def)

lemma demo_wide_target:
  assumes "pa_nodes p = [m, demo_model\<lparr>nm_node := nr_node (new_node demo_second)\<rparr>]" "nm_id m = Tid 1" "pa_revoked_nodes p = {||}"
  shows "best_reseat_target F p (Tid 1) j pre (cores 3) fmempty = Some 1"
  using assms by (simp add: best_reseat_target_def best_node_def better_key_def demo_model_def model_admits_def spot_admits_def
      capable_def node_satisfies_labels_def new_node_def demo_second_def om_eval)

lemma demo_wide_replan:
  fixes p :: "'f pass"
  assumes p: "pa_nodes p = [m, demo_model\<lparr>nm_node := nr_node (new_node demo_second)\<rparr>]" "nm_id m = Tid 1" "nm_accruals m = [a]"
    "pa_node_index p = fmupd (Tid 2) 1 (fmupd (Tid 1) 0 fmempty)" "pa_snapshot p = demo_wide" "pa_placed_nodes p = {||}"
    "pa_revoked_nodes p = {||}" "pa_placements p = []" "0 < pa_max_placements p"
  shows "replan_existing_accruals F p = reseat_accrual (Tid 2) (Tid 2) (Tid 1) (cores 3) 1 p"
proof -
  have spec: "j_requests (jr_spec (demo_running 2)) = cores 3" "required_labels (jr_spec (demo_running 2)) = fmempty"
    "j_abort_requested (jr_spec (demo_running 2)) = None"
    by (simp_all add: demo_running_def demo_job_record_def with_notice_def demo_job_def required_labels_def)
  have "replan_accrual F (Tid 2) (Tid 2) (Tid 1) (p, 0) = (reseat_accrual (Tid 2) (Tid 2) (Tid 1) (cores 3) 1 p, 0)"
    using p demo_wide_target [OF p(1,2,7)] by (simp add: replan_accrual_def Let_def spec)
  moreover have "fcard {|Tid 2 :: job_id|} = 1" by (simp add: fcard_finsert_disjoint)
  ultimately show ?thesis using p by (simp add: replan_existing_accruals_def demo_wide_entries Let_def)
qed

lemma demo_wide_pass:
  assumes "0 < cf_max_placements_per_cycle config"
  shows "pr_revocations (schedule F config demo_wide now) = [Tid 2] \<and> map pp_job (pr_placements (schedule F config demo_wide now)) = [Tid 2]"
proof -
  let ?p0 = "pass_new F demo_wide now config"
  define p1 where "p1 = replan_existing_accruals F ?p0"
  have p1: "pa_revocations p1 = [Tid 2]" "map pp_job (pa_placements p1) = [Tid 2]" "pa_snapshot p1 = demo_wide"
  proof -
    obtain m a where *: "pa_nodes ?p0 = [m, demo_model\<lparr>nm_node := nr_node (new_node demo_second)\<rparr>]" "nm_id m = Tid 1"
      "nm_accruals m = [a]" "sa_alloc a = Tid 2"
      "pa_node_index ?p0 = fmupd (Tid 2) 1 (fmupd (Tid 1) 0 fmempty)" "pa_snapshot ?p0 = demo_wide" "pa_placements ?p0 = []"
      "pa_revocations ?p0 = []" "pa_placed_nodes ?p0 = {||}" "pa_revoked_nodes ?p0 = {||}"
      "pa_max_placements ?p0 = cf_max_placements_per_cycle config"
      by (rule demo_wide_start)
    have "p1 = reseat_accrual (Tid 2) (Tid 2) (Tid 1) (cores 3) 1 ?p0"
      unfolding p1_def by (rule demo_wide_replan [of _ m a]) (use * assms in simp_all)
    then show "pa_revocations p1 = [Tid 2]" "map pp_job (pa_placements p1) = [Tid 2]" "pa_snapshot p1 = demo_wide"
      using * by (simp_all add: reseat_accrual_def revoke_accrual_on_source_def Let_def update_node_def push_placement_def)
  qed
  have "select_candidates F p1 = (p1, [])"
    using p1(3) by (simp add: select_candidates_def rank_job_def om_eval sort_by_def)
  then have "schedule F config demo_wide now = into_proposal p1" by (simp add: schedule_def seat_candidates_def flip: p1_def)
  then show ?thesis using p1 by (simp add: proposal_jobs)
qed

end
