(* ===== verification/Spec2Isabelle.thy ===== *)
theory Spec2Isabelle
  imports Sched_Scenario
begin

text \<open>
  A verification development of Coppice, a distributed batch job scheduler (\<open>src/crates\<close>).

  \<^bold>\<open>The program.\<close> Clients submit jobs; a leader proposes commands; a Raft log orders them; every replica
  applies the committed commands to the same deterministic state machine (\<open>coppice-state\<close>), which owns
  jobs, attempts, allocations of node capacity, nodes, the quota tree, policy, authorization and cluster
  identity. A job is placed on a node by a \<open>CommitPlacements\<close> batch. Its allocation is funded at once, or
  accrues capacity as other allocations release it. The scheduler (\<open>coppice-scheduler\<close>) reads a snapshot
  of the state and proposes such batches; apply checks each batch again. Both rest on the domain types
  and the quota arithmetic of \<open>coppice-core\<close>.

  \<^bold>\<open>Domain types (\<open>coppice-core/src\<close>).\<close> \<open>Coppice_Prelude\<close> holds identifiers, ordered maps and the
  collections the proofs share; \<open>Core_Time\<close> time and durations (\<open>time.rs\<close>), clamped to their ranges;
  \<open>Resources\<close> the resource vector (\<open>resource.rs\<close>) over saturating 64-bit words; \<open>Quota_Arith\<close> decay,
  charges, true-ups and prices (\<open>quota.rs\<close>); \<open>Validation\<close> metadata, environment and entity references
  (\<open>metadata.rs\<close>, \<open>env.rs\<close>, \<open>entity_ref.rs\<close>); \<open>Lifecycle\<close> jobs, attempts, allocations, nodes and
  preemption requests (\<open>job.rs\<close>, \<open>attempt.rs\<close>, \<open>allocation.rs\<close>, \<open>node.rs\<close>, \<open>preemption.rs\<close>).

  \<^bold>\<open>The state machine (\<open>coppice-state/src\<close>).\<close> \<open>Quota_Tree\<close>, \<open>Authz\<close>, \<open>State_Model\<close> and \<open>Commands\<close> hold the
  state record, the quota tree walks, the decision procedure and the commands (\<open>lib.rs\<close>, \<open>authz.rs\<close>,
  \<open>command.rs\<close>); \<open>Admission\<close> and \<open>Preempt\<close> model \<open>drain.rs\<close> and \<open>preempt.rs\<close>; \<open>Funding\<close>, \<open>Placement\<close>,
  \<open>Handlers\<close>, \<open>Node_Handlers\<close>, \<open>Admin_Handlers\<close> and \<open>Pki_Handlers\<close> model \<open>apply.rs\<close>, one definition a
  handler or helper; \<open>Apply\<close> has the dispatcher and the replay of a log. A handler takes the state and
  returns the state and either a rejection or the events, so every early return is a branch. Hash maps
  and ordered maps are finite maps, iterated in key order; the capacity memo of a batch is a map.

  \<^bold>\<open>The scheduler (\<open>coppice-scheduler/src\<close>).\<close> \<open>Scores\<close> models \<open>score.rs\<close>, \<open>Projection\<close> models
  \<open>projection.rs\<close>, \<open>Pass_Model\<close> and \<open>Engine\<close> model \<open>lib.rs\<close>, \<open>engine.rs\<close> and \<open>engine/preempt.rs\<close>: the model of a
  node, the batch simulator, the re-planning of accruals, the seating of candidates by free fit, drain
  backfill, lending, accrual or preemption, and the proposal. The operations of \<open>f64\<close> are the fields of
  a record that every definition takes, so the theorems hold for any arithmetic of the scores.

  \<^bold>\<open>Invariants of the state machine.\<close> \<open>Capacity\<close>, \<open>Pool\<close> and \<open>Pledge\<close> treat the pledge pass over a node;
  \<open>Core_Inv\<close>, \<open>Terminate\<close> and \<open>Progress\<close> define the core invariant and what ending an attempt does to it;
  \<open>Core_Handlers\<close>, \<open>Core_Nodes\<close> and \<open>Core_Placement\<close> prove it for every handler, and \<open>Log\<close> for every log.
  \<open>Footprint\<close> is the contract of the scheduling handlers, a locale over a relation between the state
  before and after; \<open>Benign\<close> and \<open>Steady\<close> interpret it, and \<open>Admin_Inv\<close> and \<open>Identity_Inv\<close> draw from it the
  invariants of the tree, policy, authorization and custody. \<open>Reachable\<close> and \<open>Accounting\<close> collect what
  holds in reached states. \<open>Scenario\<close> and \<open>Sched_Scenario\<close> run small concrete logs for the witnesses.

  \<^bold>\<open>The scheduler against apply.\<close> \<open>Sched_Sim\<close> shows that the batch simulator decides as the accrual guard
  of apply; \<open>Sched_Calm\<close> states that decision node by node on states with one accrual a node; \<open>Pass_Inv\<close> and
  \<open>Pass_Loop\<close> prove an invariant of the pass, from its start through every step: the books of each node
  agree with what apply would compute for the batch so far; \<open>Pass_Accept\<close> concludes that apply accepts the
  batch. On any snapshot and with any configuration, \<open>Pass_Bound\<close> counts what a pass may emit and \<open>Pass_Moves\<close>
  proves that it revokes accruals only and places their jobs again.

  \<^bold>\<open>What is shown.\<close> No node is oversold; attempts, allocations and jobs agree; capacity is never idle
  while an accrual could take it; the events refine the job life cycle; ending an attempt has exactly its
  documented effects; the quota tree, policy, bindings and custody stay valid; refused commands leave no
  trace; the scheduler proposes what apply accepts. The arithmetic of usage is path independent, bounded
  and terminating, and the parsers invert the printers.

  \<^bold>\<open>Bounds.\<close> Walks up the quota tree stop at the depth cap of 32 that the code has, and in reached states
  the tree is shallower. The properties of a log assume that it seats fewer than \<open>2 ^ 64\<close> placements, the
  range of the allocation counter. The acceptance of a proposal is proved for passes whose preemption
  budget is zero and for snapshots that are orderly: one accrual a node, that fits its node, and none on a
  node drained to a deadline. Reached states may break the first and the last of these, as two properties
  below exhibit, and the pass then has no guarantee. No loop needs fuel: all recursions are structural or
  bounded by the data.

  \<^bold>\<open>Not modelled.\<close> Consensus, storage and transport (\<open>coppice-consensus\<close>), the agent, the coordinator,
  the HTTP and command-line front ends, discovery, enrollment and TLS are input and output around
  third-party libraries; \<open>coppice-proto\<close> is generated code and its conversions. X.509 parsing and the uuid
  text format are parameters. Text rendering of errors, timestamps and byte sizes, serialization, metrics
  and the cache of projected starts are left out: no decision of the modelled code depends on them.
\<close>

section \<open>The state machine along a log\<close>

text \<open>
  C2: in every state a log reaches, the live attempts of a job are exactly the attempt its state names:
  one while it is attempting, none while it is queued or after it ended.
\<close>

theorem one_live_attempt:
  assumes "log_bounded cmds" "fmlookup (jobs (run_log ext cmds state_default)) j = Some r"
  shows "{a. \<exists>ar. fmlookup (attempts (run_log ext cmds state_default)) a = Some ar \<and> att_job (atr_attempt ar) = j \<and>
      \<not> attempt_terminal (att_state (atr_attempt ar))} = set_option (current_attempt r)"
proof -
  let ?s = "run_log ext cmds state_default"
  have c: "core {} ?s" by (rule soundD(1) [OF run_log_sound [OF assms(1)]])
  have "\<not> attempt_terminal (astate ar) \<longleftrightarrow> jr_state r = Attempting a"
    if "fmlookup (attempts ?s) a = Some ar" "ajob ar = j" for a ar
    using core_attempt_link [OF c that(1)] that(2) assms(2) by (simp add: attempt_link_def)
  moreover have "\<exists>ar. fmlookup (attempts ?s) a = Some ar \<and> ajob ar = j" if "jr_state r = Attempting a" for a
    using core_job_ok [OF c assms(2)] that by (simp add: job_ok_def)
  ultimately show ?thesis by (cases "jr_state r") (auto simp: current_attempt_def)
qed

theorem one_live_attempt_witness:
  "fmlookup (jobs (run_log ext_nil demo_log state_default)) (Tid 1) = Some (demo_running 1) \<and>
   {a. \<exists>ar. fmlookup (attempts (run_log ext_nil demo_log state_default)) a = Some ar \<and> att_job (atr_attempt ar) = Tid 1 \<and>
      \<not> attempt_terminal (att_state (atr_attempt ar))} = {Tid 1}"
  using one_live_attempt [OF demo_log_bounded, of ext_nil "Tid 1" "demo_running 1"]
  by (simp add: demo_log_run current_attempt_def)

text \<open>
  C3: in every reached state the allocation of an attempt exists, belongs to it, and is in the state its
  attempt implies: accruing and short of its request while the attempt accrues, funded in full from
  readiness to the end of the run, released once the attempt is terminal.
\<close>

theorem allocation_follows_attempt:
  assumes "log_bounded cmds" "fmlookup (attempts (run_log ext cmds state_default)) a = Some r"
  shows "\<exists>al. fmlookup (allocations (run_log ext cmds state_default)) (att_allocation (atr_attempt r)) = Some al \<and>
     al_attempt (alr_allocation al) = a \<and> al_job (alr_allocation al) = att_job (atr_attempt r) \<and>
     al_node (alr_allocation al) = att_node (atr_attempt r) \<and>
     al_state (alr_allocation al) = (case att_state (atr_attempt r) of
         AttAccruing \<Rightarrow> Accruing | Ready \<Rightarrow> Funded | Dispatching \<Rightarrow> Funded | Running \<Rightarrow> Active | Finalizing \<Rightarrow> Active
       | Terminal _ \<Rightarrow> Released) \<and>
     fits_within (al_funded (alr_allocation al)) (al_requested (alr_allocation al)) \<and>
     (al_state (alr_allocation al) \<noteq> Released \<longrightarrow>
       (al_funded (alr_allocation al) = al_requested (alr_allocation al) \<longleftrightarrow> al_state (alr_allocation al) \<noteq> Accruing))"
proof -
  let ?s = "run_log ext cmds state_default"
  have "core {} ?s" by (rule soundD(1) [OF run_log_sound [OF assms(1)]])
  note P = pool_okD(1) [OF core_pool [OF this]]
  obtain al where al: "fmlookup (allocations ?s) (aalloc r) = Some al" "linked a r (aalloc r) al"
    "matched False (astate r) (kstate al)" "fund_ok al"
    using pool_attempt [OF P assms(2)] by auto
  have "kstate al = alloc_state_for (astate r)" using al(3) by (simp add: matched_def)
  then show ?thesis using al by (cases "astate r") (auto simp: linked_def fund_ok_def)
qed

theorem allocation_follows_attempt_witness:
  "\<exists>al. fmlookup (allocations (run_log ext_nil demo_log state_default)) (Tid 2) = Some al \<and>
     al_state (alr_allocation al) = Accruing \<and> al_funded (alr_allocation al) \<noteq> al_requested (alr_allocation al)"
  using allocation_follows_attempt [OF demo_log_bounded, of ext_nil "Tid 2" "demo_attempt 2 False"]
  by (simp add: demo_log_run)

text \<open>
  C9: the accrual queue of every reached state holds exactly the accruing allocations, each once, under
  its node and its admission sequence number.
\<close>

theorem accrual_queue_exact:
  assumes "log_bounded cmds"
  shows "fmlookup (accrual_queue (run_log ext cmds state_default)) (n, seq) = Some k \<longleftrightarrow>
    (\<exists>al. fmlookup (allocations (run_log ext cmds state_default)) k = Some al \<and> al_state (alr_allocation al) = Accruing \<and>
       al_node (alr_allocation al) = n \<and> alr_seq al = seq)"
proof -
  have "core {} (run_log ext cmds state_default)" by (rule soundD(1) [OF run_log_sound [OF assms]])
  then show ?thesis using pool_exact [OF pool_okD(1) [OF core_pool]] by (simp add: queue_exact_def)
qed

theorem accrual_queue_exact_witness:
  "fmlookup (accrual_queue (run_log ext_nil demo_log state_default)) (Tid 1, 1) = Some (Tid 2)"
  using accrual_queue_exact [OF demo_log_bounded, of ext_nil "Tid 1" 1 "Tid 2"] by (simp add: demo_log_run)

text \<open>
  C1: no command oversells a node. Whatever command is applied to a reached state, what the live
  allocations of a node hold afterwards does not exceed the larger of its capacity and what they held
  before, in any dimension; so a node can hold more than its capacity only after registering with a smaller one.
\<close>

theorem never_oversold:
  assumes "log_bounded (cmds @ [cmd])"
  shows "held (allocations (run_log ext (cmds @ [cmd]) state_default)) n d \<le>
    max (held (allocations (run_log ext cmds state_default)) n d) (cap_of (run_log ext (cmds @ [cmd]) state_default) n d)"
proof -
  have "log_fits (cmds @ [cmd]) state_default" by (rule log_fits_default [OF assms])
  then have "sound (run_log ext cmds state_default)" "log_fits [cmd] (run_log ext cmds state_default)"
    using core_log.log_split [OF sound_default] unfolding run_log_fold by blast+
  then have "no_oversell (run_log ext cmds state_default) (step_of ext cmd (run_log ext cmds state_default))"
    using apply_sound [of "run_log ext cmds state_default" cmd ext] by (simp add: log_fits_def)
  then show ?thesis by (simp add: no_oversell_def run_log_def)
qed

theorem never_oversold_witness:
  "held (allocations demo_placed) (Tid 1) Cpu \<le> max (held (allocations demo_ready) (Tid 1) Cpu) 4000 \<and>
   cap_of demo_placed (Tid 1) Cpu = 4000"
proof -
  have "cap_of demo_placed (Tid 1) Cpu = 4000" by (simp add: cap_of_def cores_def)
  then show ?thesis
    using never_oversold [OF demo_log_bounded [unfolded demo_log_def], of ext_nil "Tid 1" Cpu]
    by (simp add: demo_setup_run demo_log_run [unfolded demo_log_def])
qed

text \<open>
  C4: work conservation. In every reached state the pledge pass of every node, run with the scan or with the
  capacity memo of a batch, changes nothing: no command leaves capacity on a node that one of the
  allocations accruing there could take.
\<close>

theorem work_conserving:
  assumes "log_bounded cmds"
    "used \<in> {None, Some (used_capacity_memo (run_log ext cmds state_default))}"
  shows "pledge_node n used (run_log ext cmds state_default, evs) = ((run_log ext cmds state_default, evs), used)"
proof -
  have c: "core {} (run_log ext cmds state_default)" by (rule soundD(1) [OF run_log_sound [OF assms(1)]])
  have "memo_ok (allocations (run_log ext cmds state_default)) used"
    using assms(2) memo_ok_scan [OF pool_okD(2) [OF core_pool [OF c]]] by auto
  then show ?thesis by (rule no_idle_pledge [OF c])
qed

theorem work_conserving_witness:
  "pledge_node (Tid 1) None (run_log ext_nil demo_log state_default, []) = ((run_log ext_nil demo_log state_default, []), None) \<and>
   fmlookup (accrual_queue (run_log ext_nil demo_log state_default)) (Tid 1, 1) = Some (Tid 2)"
  using work_conserving [OF demo_log_bounded, of None ext_nil "Tid 1" "[]"] by (simp add: demo_log_run)

text \<open>
  C13: an accruing allocation is not starved. Once it is the only live allocation of a node that can hold
  it, it is funded: no further command is needed for that.
\<close>

theorem last_one_funded:
  assumes "log_bounded cmds"
    "fmlookup (allocations (run_log ext cmds state_default)) k = Some al" "live_allocation al"
    "fmlookup (nodes (run_log ext cmds state_default)) (al_node (alr_allocation al)) = Some nr"
    "fits_within (al_requested (alr_allocation al)) (nd_capacity (nr_node nr))"
    "\<And>k' al'. fmlookup (allocations (run_log ext cmds state_default)) k' = Some al' \<Longrightarrow> live_allocation al' \<Longrightarrow>
       al_node (alr_allocation al') = al_node (alr_allocation al) \<Longrightarrow> k' = k"
  shows "al_state (alr_allocation al) \<in> {Funded, Active}"
proof -
  have c: "core {} (run_log ext cmds state_default)" by (rule soundD(1) [OF run_log_sound [OF assms(1)]])
  have "rget d (krequested al) \<le> cap_of (run_log ext cmds state_default) (knode al) d" for d
    using assms(4,5) by (simp add: cap_of_def fits_within_iff)
  then show ?thesis using alone_funded [OF c assms(2,3)] assms(6) by blast
qed

theorem last_one_funded_witness:
  "\<exists>al. fmlookup (allocations (run_log ext_nil (demo_setup @ [demo_solo]) state_default)) (Tid 1) = Some al \<and>
     al_state (alr_allocation al) \<in> {Funded, Active}"
proof -
  have "al_state (alr_allocation (demo_allocation 1 (cores 3) 0)) \<in> {Funded, Active}"
    by (rule last_one_funded [OF demo_solo_bounded, of ext_nil "Tid 1" _ demo_node_record])
      (auto simp: demo_solo_run live_allocation_def split: if_splits)
  then show ?thesis by (auto simp: demo_solo_run)
qed

text \<open>
  C6: the events the machine emits are a faithful account of the jobs. An observer that knows only the
  transition table of a job and replays the events of any log from nothing never sees an illegal move, and
  ends with exactly the states of the replicated jobs.
\<close>

theorem events_refine_jobs:
  assumes "log_bounded cmds"
  shows "replay (log_events ext cmds state_default) fmempty = Some (states_of (jobs (run_log ext cmds state_default)))"
proof -
  have "states_of (jobs state_default) = fmempty" by (rule fmap_ext) (simp add: state_default_def)
  then show ?thesis using log_replay [OF sound_default log_fits_default [OF assms], of ext] by simp
qed

theorem events_refine_jobs_witness:
  "\<exists>m. replay (log_events ext_nil demo_log state_default) fmempty = Some m \<and>
     fmlookup m (Tid 1) = Some (Attempting (Tid 1)) \<and> fmlookup m (Tid 2) = Some (Attempting (Tid 2))"
  using events_refine_jobs [OF demo_log_bounded, of ext_nil] by (simp add: demo_log_run)

text \<open>
  C11: a job that succeeded, failed or was aborted stays so. Over any further log that does not submit a job
  under its id again, it keeps its state or has been evicted.
\<close>

theorem terminal_is_final:
  assumes "log_bounded (cmds @ rest)" "fmlookup (jobs (run_log ext cmds state_default)) j = Some r" "job_terminal (jr_state r)"
    "JobSubmitted j \<notin> set (log_events ext rest (run_log ext cmds state_default))"
  shows "case fmlookup (jobs (run_log ext (cmds @ rest) state_default)) j of
      None \<Rightarrow> True | Some r' \<Rightarrow> jr_state r' = jr_state r"
proof -
  have "sound (run_log ext cmds state_default)" "log_fits rest (run_log ext cmds state_default)"
    using core_log.log_split [OF sound_default log_fits_default [OF assms(1)]] unfolding run_log_fold by blast+
  note R = log_replay [OF this, of ext]
  have "fmlookup (states_of (jobs (run_log ext rest (run_log ext cmds state_default)))) j \<in> {Some (jr_state r), None}"
    using replay_terminal [OF R assms(4,3)] assms(2) by simp
  then show ?thesis by (auto simp: run_log_def split: option.split)
qed

theorem terminal_is_final_witness:
  "(case fmlookup (jobs (run_log ext_nil ((demo_setup @ [demo_abort]) @ [demo_submit 3]) state_default)) (Tid 2) of
      None \<Rightarrow> True | Some r' \<Rightarrow> jr_state r' = JobAborted)"
proof -
  have state: "jr_state demo_aborted_record = JobAborted" by (simp add: demo_aborted_record_def)
  have "JobSubmitted (Tid 2) \<notin> set (log_events ext_nil [demo_submit 3] (run_log ext_nil (demo_setup @ [demo_abort]) state_default))"
    using demo_submit_events by fastforce
  then show ?thesis
    using terminal_is_final [OF demo_abort_bounded, of ext_nil "Tid 2" demo_aborted_record] state
    by (simp add: demo_abort_run cong: option.case_cong)
qed

text \<open>
  C8: every end of a job is recorded and retries are bounded. In every reached state a job has used at most
  its retries, carries an end time exactly when it is terminal, has left the states a submission passes
  through, and an abort that was requested is either done or waiting for a process that runs on a node: no
  job with a pending abort is queued, accruing or ready.
\<close>

theorem job_records_complete:
  assumes "log_bounded cmds" "fmlookup (jobs (run_log ext cmds state_default)) j = Some r"
  shows "jr_retries_used r \<le> max_retries (j_retry (jr_spec r)) \<and>
    (jr_terminal_at r \<noteq> None \<longleftrightarrow> job_terminal (jr_state r)) \<and> jr_state r \<noteq> Submitted \<and> jr_state r \<noteq> Accepted \<and>
    (j_abort_requested (jr_spec r) = None \<or> job_terminal (jr_state r) \<or>
      (\<exists>a ar. jr_state r = Attempting a \<and> fmlookup (attempts (run_log ext cmds state_default)) a = Some ar \<and>
        att_state (atr_attempt ar) \<in> {Dispatching, Running, Finalizing}))"
proof -
  have sd: "sound (run_log ext cmds state_default)" by (rule run_log_sound [OF assms(1)])
  have "job_ok j r (attempts (run_log ext cmds state_default))" by (rule core_job_ok [OF soundD(1) [OF sd] assms(2)])
  moreover have "j_abort_requested (jr_spec r) = None \<or> job_terminal (jr_state r) \<or>
      (\<exists>a ar. jr_state r = Attempting a \<and> fmlookup (attempts (run_log ext cmds state_default)) a = Some ar \<and> on_node (astate ar))"
    using sd assms(2) by (auto simp: sound_def aborts_ok_def)
  ultimately show ?thesis by (auto simp: job_ok_def on_node_iff)
qed

theorem job_records_complete_witness:
  "jr_terminal_at demo_aborted_record \<noteq> None \<and> j_abort_requested (jr_spec demo_aborted_record) \<noteq> None \<and>
   jr_retries_used demo_aborted_record \<le> 1"
proof -
  have "log_bounded (demo_setup @ [demo_abort])" using demo_abort_bounded by simp
  then show ?thesis
    using job_records_complete [of "demo_setup @ [demo_abort]" ext_nil "Tid 2" demo_aborted_record]
    by (simp add: demo_abort_run) (simp add: demo_aborted_record_def demo_job_record_def demo_job_def with_notice_def)
qed

text \<open>
  C12: every attempt is settled exactly when it ends. In every reached state an attempt carries an end time
  and a settlement if and only if it is terminal, a start time from the first report of its process on, and a
  preemption request only after that.
\<close>

theorem attempt_records_complete:
  assumes "log_bounded cmds" "fmlookup (attempts (run_log ext cmds state_default)) a = Some r"
  shows "(atr_ended_at r \<noteq> None \<longleftrightarrow> attempt_terminal (att_state (atr_attempt r))) \<and>
    (atr_settlement r \<noteq> None \<longleftrightarrow> attempt_terminal (att_state (atr_attempt r))) \<and>
    (att_state (atr_attempt r) \<in> {Running, Finalizing} \<longrightarrow> atr_started_at r \<noteq> None) \<and>
    (att_state (atr_attempt r) \<in> {AttAccruing, Ready, Dispatching} \<longrightarrow> atr_started_at r = None \<and> atr_preemption r = None)"
  using core_attempt_ok [OF soundD(1) [OF run_log_sound [OF assms(1)]] assms(2)] unfolding attempt_ok_def by blast

theorem attempt_records_complete_witness:
  "atr_settlement (demo_attempt 1 True) = None \<and> atr_started_at (demo_attempt 1 True) = None"
  using attempt_records_complete [OF demo_log_bounded, of ext_nil "Tid 1" "demo_attempt 1 True"]
  by (simp add: demo_log_run)

text \<open>
  C27: a command that is refused leaves no trace but the version, which advances by one for every
  committed command.
\<close>

theorem refusal_is_invisible:
  assumes "snd (apply_command ext cmd s) = Inl reason"
  shows "fst (apply_command ext cmd s) = s\<lparr>version := version s + 1\<rparr>"
  by (rule apply_refused [OF assms])

theorem refusal_is_invisible_witness:
  "fst (apply_command ext_nil (DispatchAttempt (Tid 7) (ts_of 0)) state_default) = state_default\<lparr>version := 1\<rparr>"
proof -
  have "snd (apply_command ext_nil (DispatchAttempt (Tid 7) (ts_of 0)) state_default) = Inl (UnknownAttempt (Tid 7))"
    by (simp add: apply_command_def dispatch_def dispatch_attempt_def state_default_def)
  then show ?thesis using refusal_is_invisible by (simp add: state_default_def)
qed

section \<open>The quota tree\<close>

text \<open>
  C16: in every state a log reaches the quota tree is well formed: every entity is at most 32 levels below a
  root that exists, so the capped walks of the source are exact; names obey the segment grammar; siblings
  have different names.
\<close>

theorem quota_tree_well_formed: "tree_wf ext (quota_entities (run_log ext cmds state_default))"
  unfolding run_log_fold by (rule tree_log.always) (simp add: state_default_def tree_wf_def)

text \<open>
  C15: charges and settlements reach exactly the entity a job was submitted under and its ancestors, each
  exactly once; every other entity, and everything but the usage of these, is untouched.
\<close>

theorem usage_reaches_ancestors:
  assumes "fmlookup (quota_entities (run_log ext cmds state_default)) e = Some q"
  shows "fmlookup (quota_entities (charge_ancestors e amount t (run_log ext cmds state_default))) x =
      (if ancestor (quota_entities (run_log ext cmds state_default)) e x
       then map_option (\<lambda>q. q\<lparr>qe_usage := usage_charge amount t (po_decay (policy (run_log ext cmds state_default))) (qe_usage q)\<rparr>)
         (fmlookup (quota_entities (run_log ext cmds state_default)) x)
       else fmlookup (quota_entities (run_log ext cmds state_default)) x) \<and>
    fmlookup (quota_entities (settle_ancestors e adjustment t (run_log ext cmds state_default))) x =
      (if ancestor (quota_entities (run_log ext cmds state_default)) e x
       then map_option (\<lambda>q. q\<lparr>qe_usage := usage_settle adjustment t (po_decay (policy (run_log ext cmds state_default))) (qe_usage q)\<rparr>)
         (fmlookup (quota_entities (run_log ext cmds state_default)) x)
       else fmlookup (quota_entities (run_log ext cmds state_default)) x)"
proof -
  have "tree_wf ext (quota_entities (run_log ext cmds state_default))"
    unfolding run_log_fold by (rule tree_log.always) (simp add: state_default_def tree_wf_def)
  then have "rooted QUOTA_TREE_DEPTH_CAP (quota_entities (run_log ext cmds state_default)) e"
    by (rule tree_wf_rooted [OF _ assms])
  then show ?thesis by (simp add: charge_ancestors_def settle_ancestors_def update_ancestors_lookup)
qed

theorem usage_reaches_ancestors_witness:
  "fmlookup (quota_entities (charge_ancestors (Tid 1) 5 (ts_of 0) demo_ready)) (Tid 1) =
     Some (demo_entity_record (usage_charge 5 (ts_of 0) DEFAULT_DECAY_POLICY (usage_new (ts_of 0))))"
proof -
  have "ancestor (quota_entities demo_ready) (Tid 1) (Tid 1)" by (rule self)
  then show ?thesis
    using usage_reaches_ancestors [of ext_nil demo_setup "Tid 1" "demo_entity_record (usage_new (ts_of 0))" 5 "ts_of 0" "Tid 1"]
    by (simp add: demo_setup_run policy_default_def demo_entity_record_def)
qed

text \<open>
  C23: the path of an entity is a name for it. The path printed for any entity of a reached state parses
  back and resolves to the same entity.
\<close>

theorem entity_path_resolves:
  assumes "quota_entity_path (quota_entities (run_log ext cmds state_default)) e = Some str"
  shows "\<exists>p. path_from_str ext str = Inr p \<and> resolve_quota_entity_path (quota_entities (run_log ext cmds state_default)) p = Some e"
proof -
  have wf: "tree_wf ext (quota_entities (run_log ext cmds state_default))"
    unfolding run_log_fold by (rule tree_log.always) (simp add: state_default_def tree_wf_def)
  show ?thesis using path_resolves [OF wf assms] by blast
qed

theorem entity_path_resolves_witness:
  "\<exists>p. path_from_str ext_nil ''acme'' = Inr p \<and> resolve_quota_entity_path (quota_entities demo_ready) p = Some (Tid 1)"
proof -
  have "quota_entity_path (quota_entities demo_ready) (Tid 1) = Some ''acme''"
    by (simp add: quota_entity_path_def QUOTA_TREE_DEPTH_CAP_def numeral_eq_Suc demo_entity_record_def)
  then show ?thesis using entity_path_resolves [of ext_nil demo_setup "Tid 1" "''acme''"] by (simp add: demo_setup_run)
qed

section \<open>The terminal path\<close>

text \<open>
  C7: what the end of an attempt does. On every reached state, ending a live attempt moves its job as the
  resolution table says and no other job, settles the charge along the ancestor path once, makes the
  attempt terminal with that outcome, and changes no other attempt except that an accruing one may become
  ready on the capacity set free.
\<close>

theorem attempt_end_effects:
  assumes "log_bounded cmds" "s = run_log ext cmds state_default"
    "fmlookup (attempts s) a = Some r" "\<not> attempt_terminal (att_state (atr_attempt r))"
    "terminate_attempt a outcome rt t True None (s, []) = ((s', evs), used)"
  shows "\<exists>jr. fmlookup (jobs s) (att_job (atr_attempt r)) = Some jr \<and> jr_state jr = Attempting a \<and>
    jobs s' = fmupd (att_job (atr_attempt r)) (case resolution_of jr outcome of
        ResolveTerminal to \<Rightarrow> jr\<lparr>jr_terminal_at := Some t, jr_state := to\<rparr>
      | Requeue consume \<Rightarrow> jr\<lparr>jr_retries_used := (if consume then jr_retries_used jr + 1 else jr_retries_used jr), jr_state := Queued\<rparr>)
      (jobs s) \<and>
    quota_entities s' = quota_entities (settle_ancestors (j_quota_entity (jr_spec jr))
      (settle_true_up (atr_charge r) (actual_cost_of r rt) t (po_decay (policy s)) (retains r outcome)) t s) \<and>
    map_option (\<lambda>r. att_state (atr_attempt r)) (fmlookup (attempts s') a) = Some (Terminal outcome) \<and>
    (\<forall>b. b \<noteq> a \<longrightarrow> rel_option (\<lambda>r r'. att_state (atr_attempt r') = att_state (atr_attempt r) \<or>
        att_state (atr_attempt r) = AttAccruing \<and> att_state (atr_attempt r') = Ready)
      (fmlookup (attempts s) b) (fmlookup (attempts s') b))"
proof -
  have c: "core {} s" unfolding assms(2) by (rule soundD(1) [OF run_log_sound [OF assms(1)]])
  obtain jr where jr: "fmlookup (jobs s) (ajob r) = Some jr" "jr_state jr = Attempting a"
    and post: "ended_post a r jr outcome rt t (s, []) (s', evs)"
    using terminate_core [OF c memo_ok_None assms(3,4,5)] by blast
  have "jr_terminal_at jr = None" using core_job_ok [OF c jr(1)] jr(2) by (simp add: job_ok_def)
  then have rec: "resolve_record jr outcome t = (case resolution_of jr outcome of
        ResolveTerminal to \<Rightarrow> jr\<lparr>jr_terminal_at := Some t, jr_state := to\<rparr>
      | Requeue consume \<Rightarrow> jr\<lparr>jr_retries_used := (if consume then jr_retries_used jr + 1 else jr_retries_used jr), jr_state := Queued\<rparr>)"
    by (simp add: resolve_record_def split: resolution.split)
  have adv: "advanced (fmupd a (ended outcome t r) (attempts s)) (attempts s')" using post by (simp add: ended_post_def)
  have "map_option astate (fmlookup (attempts s') a) = Some (Terminal outcome)"
    using adv [unfolded advanced_def, rule_format, of a] by (cases "fmlookup (attempts s') a") auto
  moreover have "rel_option (\<lambda>r r'. astate r' = astate r \<or> astate r = AttAccruing \<and> astate r' = Ready)
      (fmlookup (attempts s) b) (fmlookup (attempts s') b)" if "b \<noteq> a" for b
    using adv [unfolded advanced_def, rule_format, of b] that
    by (cases "fmlookup (attempts s) b"; cases "fmlookup (attempts s') b") simp_all
  ultimately show ?thesis using jr post by (simp add: ended_post_def settle_ancestors_def rec)
qed

theorem attempt_end_effects_witness:
  "\<exists>s' evs used. terminate_attempt (Tid 1) (Exited 0) dur_zero (ts_of 0) True None (demo_placed, []) = ((s', evs), used) \<and>
     map_option jr_state (fmlookup (jobs s') (Tid 1)) = Some Succeeded \<and>
     map_option jr_state (fmlookup (jobs s') (Tid 2)) = Some (Attempting (Tid 2))"
proof -
  obtain s' evs used where run: "terminate_attempt (Tid 1) (Exited 0) dur_zero (ts_of 0) True None (demo_placed, []) = ((s', evs), used)"
    by (metis surj_pair)
  have "resolution_of (demo_running 1) (Exited 0) = ResolveTerminal Succeeded" by (simp add: resolution_of_def)
  then show ?thesis
    using attempt_end_effects [OF demo_log_bounded demo_log_run [symmetric], of "Tid 1" "demo_attempt 1 True" "Exited 0" dur_zero "ts_of 0" s' evs used] run
    by (auto simp del: terminate_attempt.simps)
qed

text \<open>
  C14: the capacity memo of a batch is an optimisation only. On every reached state, ending an attempt with
  the memo that \<open>commit_placements\<close> threads through its effects gives the same state and the same events as
  ending it with a scan of the allocations.
\<close>

theorem memo_equals_scan:
  assumes "log_bounded cmds" "s = run_log ext cmds state_default"
  shows "fst (terminate_attempt a outcome rt t pledge (Some (used_capacity_memo s)) (s, evs)) =
    fst (terminate_attempt a outcome rt t pledge None (s, evs))"
proof -
  have c: "core {} s" unfolding assms(2) by (rule soundD(1) [OF run_log_sound [OF assms(1)]])
  show ?thesis by (rule terminate_memo_scan [OF c memo_ok_scan [OF pool_okD(2) [OF core_pool [OF c]]]])
qed

theorem memo_equals_scan_witness:
  "fst (terminate_attempt (Tid 1) (Exited 0) dur_zero (ts_of 0) True (Some (used_capacity_memo demo_placed)) (demo_placed, [])) =
   fst (terminate_attempt (Tid 1) (Exited 0) dur_zero (ts_of 0) True None (demo_placed, []))"
  by (rule memo_equals_scan [OF demo_log_bounded demo_log_run [symmetric]])

section \<open>Administration and identity\<close>

text \<open>
  C28: submission is idempotent. A submission that was accepted can be committed again, by a client's retry
  or a re-proposal: the second time it is accepted, emits nothing and changes nothing.
\<close>

theorem submit_retry_idempotent:
  assumes "submit_job c s = (s', Inr evs)"
  shows "submit_job c s' = (s', Inr [])"
proof (cases "fmlookup (jobs s) (j_id (sj_job c))")
  case None
  then have fresh: "submit_fresh c s = (s', Inr evs)" and guards: "j_abort_requested (sj_job c) = None"
    "validate_metadata (j_metadata (sj_job c)) = Inr ()" "validate_env (j_env (sj_job c)) = Inr ()"
    using assms by (auto simp: submit_job_def split: if_splits sum.splits)
  obtain r where "fmlookup (jobs s') (j_id (sj_job c)) = Some r" "submit_existing c r s' = (s', Inr [])"
    using submit_fresh_retry [OF fresh] by blast
  then show ?thesis using guards by (simp add: submit_job_def)
next
  case (Some existing)
  then have "s' = s" "evs = []"
    using assms by (auto simp: submit_job_def submit_existing_def Let_def split: if_splits sum.splits)
  then show ?thesis using assms by simp
qed

theorem submit_retry_idempotent_witness:
  "\<exists>s' evs. submit_job \<lparr>sj_job = demo_job 3, sj_multiplier = 1, sj_actor = None, sj_submitted_at = ts_of 5\<rparr> demo_ready = (s', Inr evs) \<and>
     evs \<noteq> [] \<and> submit_job \<lparr>sj_job = demo_job 3, sj_multiplier = 1, sj_actor = None, sj_submitted_at = ts_of 5\<rparr> s' = (s', Inr [])"
proof -
  obtain s' evs where run: "submit_job \<lparr>sj_job = demo_job 3, sj_multiplier = 1, sj_actor = None, sj_submitted_at = ts_of 5\<rparr> demo_ready = (s', Inr evs)"
    and "evs \<noteq> []"
    by (simp add: demo_job_def submit_job_def submit_fresh_def with_notice_def resolve_notice_def validate_notice_def
        policy_default_def DEFAULT_PREEMPTION_NOTICE_FLOOR_def DEFAULT_PREEMPTION_NOTICE_CAP_def dur_from_mins_def
        validate_metadata_def validate_env_def Let_def authorize_def om_eval)
  then show ?thesis using submit_retry_idempotent [OF run] by blast
qed

text \<open>
  C24: nobody can lock the administrators out. In every reached state the policy in force passed validation,
  and every binding names someone and an entity that exists. After an accepted update of the bindings, and
  after any state that had bindings, a cluster-wide administrator is among the bindings of every later state;
  in particular no update to an empty list, or to one without an administrator, is accepted.
\<close>

theorem no_lockout:
  assumes "s = run_log ext cmds state_default"
  shows "policy_valid s \<and> authority_ok s \<and>
    (\<forall>earlier c later evs. cmds = earlier @ UpdateAuthorization c # later \<longrightarrow>
       snd (apply_command ext (UpdateAuthorization c) (run_log ext earlier state_default)) = Inr evs \<longrightarrow>
       (\<exists>b \<in> set (bindings s). bd_role b = Admin \<and> bd_scope b = None)) \<and>
    (\<forall>earlier later. cmds = earlier @ later \<longrightarrow> bindings (run_log ext earlier state_default) \<noteq> [] \<longrightarrow>
       (\<exists>b \<in> set (bindings s). bd_role b = Admin \<and> bd_scope b = None))"
proof (intro conjI allI impI)
  have ok: "authority_ok (run_log ext cs state_default)" for cs
    unfolding run_log_fold by (rule authority_log.always) (simp add: authority_ok_def state_default_def)
  show "policy_valid s" unfolding assms run_log_fold
    by (rule policy_log.always) (simp add: policy_valid_def state_default_def policy_default_valid)
  show "authority_ok s" unfolding assms by (rule ok)
  have split: "run_log ext (xs @ ys) state_default = run_log ext ys (run_log ext xs state_default)" for xs ys
    by (simp add: run_log_fold)
  show "\<exists>b \<in> set (bindings s). bd_role b = Admin \<and> bd_scope b = None"
    if "cmds = earlier @ UpdateAuthorization c # later"
      "snd (apply_command ext (UpdateAuthorization c) (run_log ext earlier state_default)) = Inr evs" for earlier c later evs
    using administered_after [OF that(2), of later] by (simp add: assms that(1) split administered_def)
  show "\<exists>b \<in> set (bindings s). bd_role b = Admin \<and> bd_scope b = None"
    if "cmds = earlier @ later" "bindings (run_log ext earlier state_default) \<noteq> []" for earlier later
    using ok [of earlier] that(2) administered_log.always [of "run_log ext earlier state_default" ext later]
    by (simp add: assms that(1) split authority_ok_def administered_def flip: run_log_fold)
qed

theorem no_lockout_witness:
  "let c = \<lparr>ua_bindings = [\<lparr>bd_subject = Principal ''root'', bd_role = Admin, bd_scope = None\<rparr>], ua_actor = None,
         ua_updated_at = ts_of 0, ua_groups_claim = None\<rparr>;
       s = run_log ext_nil [demo_node, UpdateAuthorization c, demo_account] state_default
   in snd (apply_command ext_nil (UpdateAuthorization c) (run_log ext_nil [demo_node] state_default)) = Inr [AuthorizationUpdated] \<and>
      (\<exists>b \<in> set (bindings s). bd_role b = Admin \<and> bd_scope b = None)"
proof -
  let ?c = "\<lparr>ua_bindings = [\<lparr>bd_subject = Principal ''root'', bd_role = Admin, bd_scope = None\<rparr>], ua_actor = None,
         ua_updated_at = ts_of 0, ua_groups_claim = None\<rparr>"
  have ok: "snd (apply_command ext_nil (UpdateAuthorization ?c) (run_log ext_nil [demo_node] state_default)) = Inr [AuthorizationUpdated]"
    by (simp add: apply_command_def dispatch_def update_authorization_def authorize_def validate_bindings_def unknown_scope_def
        List.map_filter_def Let_def case_prod_unfold)
  then show ?thesis
    using no_lockout [of _ ext_nil "[demo_node, UpdateAuthorization ?c, demo_account]", OF refl] unfolding Let_def
    by (metis append_Cons append_Nil)
qed

text \<open>
  C25: key custody and seats. In every reached state no replica is recorded both as holding the cluster key
  and as still to receive it, for the current and for the staged root, and no two machines share a seat of
  the consensus group, retired machines included.
\<close>

theorem custody_and_seats:
  "custody_ok (run_log ext cmds state_default) \<and> seats_ok (run_log ext cmds state_default)"
  unfolding run_log_fold
  by (intro conjI custody_log.always seats_log.always)
    (simp_all add: custody_ok_def seats_ok_def state_default_def disjoint_keys_def)

text \<open>
  C26: what is never forgotten. Over any further log the cluster version does not decrease, a revoked identity
  and a revoked enrolment token stay revoked, a token keeps its hash, and a machine keeps its seat for ever,
  unchanged once it is retired.
\<close>

theorem history_kept: "remembers s (run_log ext cmds s)"
  unfolding run_log_fold by (rule history_log.always) (rule remembers_refl)

text \<open>
  C17: nothing is done without authority. Whenever a command that carries an actor is accepted, the bindings
  and the quota tree at its own position in the log allow that actor the verb the command asks for; for a
  job's abort and metadata the entity and the owner are those of the stored job.
\<close>

theorem accepted_was_allowed:
  assumes "snd (apply_command ext cmd s) = Inr evs" "demanded cmd s = Some (a, v)"
  shows "evaluate (bindings s) (quota_entities s) a v = Inr ()"
proof -
  obtain s' where d: "dispatch ext cmd s = (s', Inr evs)" using apply_accepted [OF assms(1)] by blast
  have "authorize s (Some a) v = Inr ()"
    using assms(2) d by (cases cmd) (auto simp: demanded_def dispatch_def bind_eq_Some_conv dest: accepted_authorized)
  then show ?thesis by (rule authorize_granted)
qed

theorem accepted_was_allowed_witness:
  "evaluate [] fmempty \<lparr>ac_principal = ''cert:ops'', ac_groups = [], ac_operator_cert = True, ac_auth_disabled = False\<rparr>
     VBumpClusterVersion = Inr ()"
proof -
  let ?a = "\<lparr>ac_principal = ''cert:ops'', ac_groups = [], ac_operator_cert = True, ac_auth_disabled = False\<rparr>"
  have "snd (apply_command ext_nil (BumpClusterVersion 1 (Some ?a) (ts_of 0)) state_default) = Inr [ClusterVersionBumped 1]"
    by (simp add: apply_command_def dispatch_def bump_cluster_version_def authorize_def evaluate_def is_implicit_admin_def
        state_default_def)
  then show ?thesis
    using accepted_was_allowed [of ext_nil "BumpClusterVersion 1 (Some ?a) (ts_of 0)" state_default _ ?a VBumpClusterVersion]
    by (simp add: demanded_def) (simp add: state_default_def)
qed

section \<open>Where the code and its comments differ\<close>

text \<open>
  C33: the per-node accrual guard can be passed on an oversubscribed node. The simulation adds what the
  revoked allocations held to a free capacity that was already clipped at zero, where the effects clip only
  after the release. So a log exists after which a batch is accepted that leaves one node accruing for two
  jobs, which the comment on \<open>check_accrual_limit\<close> rules out for every batch.
\<close>

theorem accrual_guard_gap:
  "\<exists>cmds c s' evs k al k' al'. log_bounded (cmds @ [CommitPlacements c]) \<and>
     apply_command ext_nil (CommitPlacements c) (run_log ext_nil cmds state_default) = (s', Inr evs) \<and>
     fmlookup (allocations s') k = Some al \<and> al_state (alr_allocation al) = Accruing \<and>
     fmlookup (allocations s') k' = Some al' \<and> al_state (alr_allocation al') = Accruing \<and>
     al_node (alr_allocation al) = al_node (alr_allocation al') \<and> al_job (alr_allocation al) \<noteq> al_job (alr_allocation al')"
proof -
  let ?cmds = "demo_log @ [demo_submit 3, demo_submit 4, RegisterNode demo_shrink]"
  have "log_bounded (?cmds @ [CommitPlacements demo_swap])"
    by (simp add: demo_log_def demo_setup_def placements_of_def demo_node_def demo_account_def demo_submit_def demo_batch_def
        demo_swap_def)
  moreover obtain s' evs al al' where "apply_command ext_nil (CommitPlacements demo_swap) demo_tight = (s', Inr evs)"
    "fmlookup (allocations s') (Tid 3) = Some al" "kstate al = Accruing" "knode al = Tid 1" "al_job (alr_allocation al) = Tid 3"
    "fmlookup (allocations s') (Tid 4) = Some al'" "kstate al' = Accruing" "knode al' = Tid 1" "al_job (alr_allocation al') = Tid 4"
    by (rule demo_swap_run) blast
  ultimately show ?thesis
    by (intro exI [of _ ?cmds] exI [of _ demo_swap] exI [of _ s'] exI [of _ evs] exI [of _ "Tid 3"] exI [of _ al]
        exI [of _ "Tid 4"] exI [of _ al']) (simp only: demo_tight_run, simp)
qed

text \<open>
  C34: a retry after the job's metadata was updated is refused. Once an accepted update changed the stored
  metadata, the identical submission, actor and all, is no longer the accepted no-op but a mismatch.
\<close>

theorem retry_after_metadata_update:
  assumes "submit_job c s = (s1, Inr evs1)" "evs1 \<noteq> []"
    "update_job_metadata u s1 = (s2, Inr evs2)" "evs2 \<noteq> []" "um_job u = j_id (sj_job c)"
  shows "submit_job c s2 = (s2, Inl (SubmitSpecMismatch (j_id (sj_job c))))"
proof -
  have fresh: "submit_fresh c s = (s1, Inr evs1)" and guards: "j_abort_requested (sj_job c) = None"
    "validate_metadata (j_metadata (sj_job c)) = Inr ()" "validate_env (j_env (sj_job c)) = Inr ()"
    using assms(1,2) by (auto simp: submit_job_def submit_existing_def Let_def split: if_splits sum.splits option.splits)
  obtain r where r: "fmlookup (jobs s1) (j_id (sj_job c)) = Some r" "j_metadata (jr_spec r) = j_metadata (sj_job c)"
    using submit_fresh_accepted [OF fresh] by (auto simp: with_notice_def)
  obtain m where "m \<noteq> j_metadata (jr_spec r)"
    "s2 = s1\<lparr>jobs := fmupd (j_id (sj_job c)) (r\<lparr>jr_spec := (jr_spec r)\<lparr>j_metadata := m\<rparr>\<rparr>) (jobs s1)\<rparr>"
    using assms(3,4,5) r(1) by (auto simp: update_job_metadata_def Let_def split: if_splits sum.splits)
  then show ?thesis using guards r(2)
    by (simp add: submit_job_def submit_existing_def Let_def same_submission_def with_notice_def)
qed

theorem retry_after_metadata_update_witness:
  "\<exists>s. submit_job \<lparr>sj_job = demo_job 3, sj_multiplier = 1, sj_actor = None, sj_submitted_at = ts_of 5\<rparr> s =
     (s, Inl (SubmitSpecMismatch (Tid 3)))"
proof -
  let ?u = "\<lparr>um_job = Tid 3, um_update = ReplaceMetadata (fmupd ''note'' ''oom'' fmempty), um_actor = None, um_updated_at = ts_of 1\<rparr>"
  let ?c = "\<lparr>sj_job = demo_job 3, sj_multiplier = 1, sj_actor = None, sj_submitted_at = ts_of 5\<rparr>"
  have ne: "fmupd ''note'' ''oom'' fmempty \<noteq> (fmempty :: (string, string) fmap)"
    using fmupd_lookup [of "''note''" "''oom''" "fmempty :: (string, string) fmap" "''note''"] by auto
  have "list_all is_key_byte ''note''" by code_simp
  then have ok: "validate_metadata (fmupd ''note'' ''oom'' fmempty) = Inr ()"
    by (simp add: validate_metadata_def validate_key_def MAX_KEYS_def MAX_KEY_BYTES_def METADATA_MAX_VALUE_BYTES_def om_eval)
  obtain s1 evs1 where 1: "submit_job ?c demo_ready = (s1, Inr evs1)" "evs1 \<noteq> []"
    and r: "\<exists>r. fmlookup (jobs s1) (Tid 3) = Some r \<and> j_metadata (jr_spec r) = fmempty"
    by (simp add: demo_job_def submit_job_def submit_fresh_def with_notice_def resolve_notice_def validate_notice_def
        policy_default_def DEFAULT_PREEMPTION_NOTICE_FLOOR_def DEFAULT_PREEMPTION_NOTICE_CAP_def dur_from_mins_def
        validate_metadata_def validate_env_def Let_def authorize_def om_eval)
  obtain s2 evs2 where 2: "update_job_metadata ?u s1 = (s2, Inr evs2)" "evs2 \<noteq> []"
    using r ne ok by (auto simp: update_job_metadata_def authorize_def Let_def next_metadata_def)
  have "submit_job ?c s2 = (s2, Inl (SubmitSpecMismatch (j_id (sj_job ?c))))"
    by (rule retry_after_metadata_update [OF 1 2]) (simp add: demo_job_def)
  then show ?thesis by (auto simp: demo_job_def)
qed

section \<open>The scheduler against the state machine\<close>

text \<open>
  C35: the scheduler's batch simulator and the accrual guard of apply decide alike. Whatever the snapshot
  and whatever ids are minted, a proposal without repeated revocations is rejected by the simulator
  exactly when the command made from it would be refused by the guard.
\<close>

theorem simulator_agrees_with_guard:
  assumes "distinct (pr_revocations pr)"
  shows "sim_rejected (simulate_batch s (free_capacity_map s) (pr_revocations pr) (pr_placements pr)) \<longleftrightarrow>
    check_accrual_limit s (to_commit_placements mint pr) (fset_of_list (pr_revocations pr)) (used_capacity_memo s) \<noteq> None"
  by (rule simulator_decides_as_apply [OF assms])

theorem simulator_agrees_with_guard_witness:
  "let pr = \<lparr>pr_against_version = 0, pr_now = ts_of 9, pr_revocations = [Tid 2], pr_placements =
      [\<lparr>pp_job = Tid 3, pp_node = Tid 1, pp_requested = cores 2, pp_expect_funded = False, pp_preemptions = []\<rparr>]\<rparr>
   in distinct (pr_revocations pr) \<and>
     (sim_rejected (simulate_batch demo_tight (free_capacity_map demo_tight) (pr_revocations pr) (pr_placements pr)) \<longleftrightarrow>
      check_accrual_limit demo_tight (to_commit_placements (\<lambda>i. (Tid (of_nat i), Tid (of_nat i))) pr)
        (fset_of_list (pr_revocations pr)) (used_capacity_memo demo_tight) \<noteq> None)"
  unfolding Let_def by (rule conjI, simp, rule simulator_agrees_with_guard, simp)

text \<open>
  C5: apply accepts what the scheduler proposes. Take any state a log reaches in which a node has at most
  one accrual, every accrual fits the capacity of its node and none sits on a node drained to a deadline.
  Whatever the scores, a pass over that state without preemption yields a batch that, committed against the
  same state under fresh ids, is accepted whole: no placement or revocation in it is invalid, the seats on
  draining nodes fit, and the accrual guard is met.
\<close>

theorem proposal_committed:
  fixes F :: "'f f64"
  assumes log: "log_bounded cmds" "s = run_log ext cmds state_default"
    and ok: "orderly s" and cfg: "cf_max_preempting_placements_per_cycle config = 0"
    and ids: "fresh_ids s mint (cf_max_placements_per_cycle config + 1)"
  shows "\<exists>s' evs. apply_command ext (CommitPlacements (to_commit_placements mint (schedule F config s now))) s = (s', Inr evs)"
proof -
  have c: "core {} s" unfolding log(2) by (rule soundD(1) [OF run_log_sound [OF log(1)]])
  have f: "nodes_keyed s" "entities_known s" using run_log_filed [of ext cmds] by (simp_all add: log(2) filed_def)
  obtain s' evs where "commit_placements (to_commit_placements mint (schedule F config s now)) s = (s', Inr evs)"
    using schedule_accepted [OF orderly_snapshot [OF ok c] f cfg fresh_ids_mono [OF ids schedule_yields(1)]] by blast
  then show ?thesis by (simp add: apply_command_def dispatch_def)
qed

theorem proposal_committed_witness:
  "let cmds = [demo_node, demo_account, demo_submit 1]; pr = schedule demo_f64 demo_config demo_single (ts_of 9) in
   log_bounded cmds \<and> demo_single = run_log ext_nil cmds state_default \<and> orderly demo_single \<and>
   cf_max_preempting_placements_per_cycle demo_config = 0 \<and>
   fresh_ids demo_single demo_mint (cf_max_placements_per_cycle demo_config + 1) \<and> pr_placements pr \<noteq> [] \<and>
   (\<exists>s' evs. apply_command ext_nil (CommitPlacements (to_commit_placements demo_mint pr)) demo_single = (s', Inr evs))"
  using proposal_committed [OF demo_single_bounded demo_single_run [symmetric] demo_orderly, of demo_config demo_mint demo_f64 "ts_of 9"]
    demo_single_bounded demo_single_run demo_orderly demo_fresh by (simp add: Let_def demo_pass)

text \<open>
  C10: a pass never drops an accruing job. Over every state a log reaches, whatever the configuration and
  the scores, preemption included, a pass revokes accruing allocations only, each once, and the job of
  every allocation it revokes is placed again by the same batch. No job is placed twice, and a job the
  batch places is queued or is one whose accrual the batch revokes.
\<close>

theorem pass_keeps_jobs:
  fixes F :: "'f f64"
  assumes log: "log_bounded cmds" "s = run_log ext cmds state_default" and pr: "pr = schedule F config s now"
  shows "distinct (pr_revocations pr) \<and> distinct (map pp_job (pr_placements pr)) \<and>
    (\<forall>al \<in> set (pr_revocations pr). \<exists>r. fmlookup (allocations s) al = Some r \<and> al_state (alr_allocation r) = Accruing \<and>
       al_job (alr_allocation r) \<in> pp_job ` set (pr_placements pr)) \<and>
    (\<forall>pl \<in> set (pr_placements pr). \<exists>jr. fmlookup (jobs s) (pp_job pl) = Some jr \<and>
       (jr_state jr = Queued \<or> is_reseat s (fset_of_list (pr_revocations pr)) jr))"
proof -
  have c: "core {} s" unfolding log(2) by (rule soundD(1) [OF run_log_sound [OF log(1)]])
  have "nodes_keyed s" using run_log_filed [of ext cmds] by (simp add: log(2) filed_def)
  note moved = schedule_moves [OF c this, where F = F and now = now and config = config, folded pr]
  have reseat: "\<exists>jr. fmlookup (jobs s) j = Some jr \<and> is_reseat s (fset_of_list (pr_revocations pr)) jr"
    if "al \<in> set (pr_revocations pr)" "accrues s al j n" for al j n
    by (rule accruing_job [OF c that(2)]) (use that(1) in \<open>auto simp: fset_of_list_elem\<close>)
  show ?thesis
  proof (intro conjI ballI)
    show "distinct (pr_revocations pr)" "distinct (map pp_job (pr_placements pr))" using moved by (simp_all add: paired_def)
    fix al assume "al \<in> set (pr_revocations pr)"
    then obtain j n where al: "accrues s al j n" "j \<in> pp_job ` set (pr_placements pr)" using moved by (auto simp: paired_def)
    then show "\<exists>r. fmlookup (allocations s) al = Some r \<and> al_state (alr_allocation r) = Accruing \<and>
        al_job (alr_allocation r) \<in> pp_job ` set (pr_placements pr)"
      unfolding accrues_def by blast
  next
    fix pl assume "pl \<in> set (pr_placements pr)"
    then have "queued_job s (pp_job pl) \<or> (\<exists>al \<in> set (pr_revocations pr). \<exists>n. accrues s al (pp_job pl) n)"
      using moved by (simp add: paired_def)
    then show "\<exists>jr. fmlookup (jobs s) (pp_job pl) = Some jr \<and>
        (jr_state jr = Queued \<or> is_reseat s (fset_of_list (pr_revocations pr)) jr)"
      using reseat unfolding queued_job_def by blast
  qed
qed

theorem pass_keeps_jobs_witness:
  "let cmds = demo_log @ [RegisterNode demo_second]; s = demo_wide;
       pr = schedule demo_f64 (scheduler_config_default demo_f64) s (ts_of 9) in
    log_bounded cmds \<and> s = run_log ext_nil cmds state_default \<and> pr_revocations pr = [Tid 2] \<and>
    map pp_job (pr_placements pr) = [Tid 2] \<and>
    (\<exists>r. fmlookup (allocations s) (Tid 2) = Some r \<and> al_state (alr_allocation r) = Accruing \<and>
       al_job (alr_allocation r) \<in> pp_job ` set (pr_placements pr))"
proof -
  have "0 < cf_max_placements_per_cycle (scheduler_config_default demo_f64)" by (simp add: scheduler_config_default_def)
  note run = demo_wide_pass [OF this, of demo_f64 "ts_of 9"]
  note kept = pass_keeps_jobs [OF demo_wide_bounded demo_wide_run [symmetric] refl, of demo_f64 "scheduler_config_default demo_f64" "ts_of 9"]
  show ?thesis
    unfolding Let_def using run demo_wide_bounded kept by (intro conjI demo_wide_run [symmetric]) (simp_all del: demo_wide_fields)
qed

text \<open>
  C36: one pass stays within its budgets. Whatever the snapshot, a pass emits at most one placement more
  than \<open>max_placements_per_cycle\<close>, and no more preempting placements than
  \<open>max_preempting_placements_per_cycle\<close>.
\<close>

theorem pass_within_budget:
  "length (pr_placements (schedule F config s now)) \<le> cf_max_placements_per_cycle config + 1 \<and>
   length (filter (\<lambda>pl. pp_preemptions pl \<noteq> []) (pr_placements (schedule F config s now))) \<le>
     cf_max_preempting_placements_per_cycle config"
  using schedule_yields [of F config s now] by (simp add: preempting_def)

text \<open>
  C37: a node that takes drain backfill may hold an accrual. A log reaches a state in which a node drained
  to a deadline hosts an accruing allocation and the pass still offers it to drain backfill, whatever the
  scores: an operator's deadline does not end the accruals that are there.
\<close>

theorem backfill_node_may_accrue:
  "\<exists>cmds s. log_bounded cmds \<and> s = run_log ext_nil cmds state_default \<and>
     (\<forall>(F :: 'f f64) now config. \<exists>nm \<in> set (pa_nodes (pass_new F s now config)). nm_accruals nm \<noteq> [] \<and> is_backfill (nm_admission nm))"
  by (intro exI [of _ "demo_log @ [demo_drain]"] exI [of _ demo_drained] conjI allI demo_drained_bounded
      demo_drain_run [symmetric] demo_drained_model)

end
